(* ===== verification/JS_Prelude.thy ===== *)
theory JS_Prelude imports Main "HOL-Library.Sublist" begin

text \<open>
  What the JavaScript sources use of the language, as executable functions: strings and their
  methods, the shapes of regular expression the sources contain (a literal, a greedy run of a
  character class, a lazy run up to a literal, searched for from the left), decimal numerals, and
  a generic machine that consumes a list of events.

  A JavaScript string is a list of code units. A \<^typ>\<open>string\<close> here is the same list for code
  units below 256, which covers every literal of the sources; white space and letter case follow
  ECMAScript on that range. The constants \<open>SQ\<close>, \<open>DQ\<close> and \<open>BSL\<close> are the two quotation marks
  and the backslash.
\<close>

named_theorems js_defs \<open>definitions of the string operations, for evaluation\<close>
named_theorems match_simps \<open>characterisations of the matchers\<close>

section \<open>Characters\<close>

abbreviation (input) SQ :: char where "SQ \<equiv> CHR 0x27"
abbreviation (input) DQ :: char where "DQ \<equiv> CHR 0x22"
abbreviation (input) BSL :: char where "BSL \<equiv> CHR 0x5C"
abbreviation (input) LF :: char where "LF \<equiv> CHR 0x0A"
abbreviation (input) CR :: char where "CR \<equiv> CHR 0x0D"
abbreviation (input) SP :: char where "SP \<equiv> CHR 0x20"

definition code :: "char \<Rightarrow> nat" where
  "code c = of_char c"

text \<open>ECMAScript \<open>WhiteSpace\<close> and \<open>LineTerminator\<close>: what \<open>trim\<close> removes and \<open>\s\<close> matches.\<close>

definition is_ws :: "char \<Rightarrow> bool" where
  "is_ws c \<longleftrightarrow> (9 \<le> code c \<and> code c \<le> 13) \<or> code c = 32 \<or> code c = 160"

definition is_line_term :: "char \<Rightarrow> bool" where
  "is_line_term c \<longleftrightarrow> c = LF \<or> c = CR"

definition is_digit :: "char \<Rightarrow> bool" where
  "is_digit c \<longleftrightarrow> 48 \<le> code c \<and> code c \<le> 57"

definition is_upper :: "char \<Rightarrow> bool" where
  "is_upper c \<longleftrightarrow> 65 \<le> code c \<and> code c \<le> 90"

definition is_lower :: "char \<Rightarrow> bool" where
  "is_lower c \<longleftrightarrow> 97 \<le> code c \<and> code c \<le> 122"

definition is_alnum :: "char \<Rightarrow> bool" where
  "is_alnum c \<longleftrightarrow> is_digit c \<or> is_upper c \<or> is_lower c"

text \<open>\<open>toLowerCase\<close> on one code unit: A--Z and the accented capitals, less the multiplication sign.\<close>

definition lower_char :: "char \<Rightarrow> char" where
  "lower_char c =
     (if is_upper c \<or> (192 \<le> code c \<and> code c \<le> 222 \<and> code c \<noteq> 215)
      then char_of (code c + 32) else c)"

section \<open>String methods\<close>

definition js_trim :: "string \<Rightarrow> string" where
  "js_trim s = rev (dropWhile is_ws (rev (dropWhile is_ws s)))"

definition js_lower :: "string \<Rightarrow> string" where
  "js_lower s = map lower_char s"

definition starts_with :: "string \<Rightarrow> string \<Rightarrow> bool" where
  "starts_with p s \<longleftrightarrow> take (length p) s = p"

definition ends_with :: "string \<Rightarrow> string \<Rightarrow> bool" where
  "ends_with p s \<longleftrightarrow> starts_with (rev p) (rev s)"

fun index_of :: "string \<Rightarrow> string \<Rightarrow> nat option" where
  "index_of p [] = (if p = [] then Some 0 else None)"
| "index_of p (c # cs) =
     (if starts_with p (c # cs) then Some 0 else map_option Suc (index_of p cs))"

definition includes_str :: "string \<Rightarrow> string \<Rightarrow> bool" where
  "includes_str p s \<longleftrightarrow> index_of p s \<noteq> None"

text \<open>\<open>s.slice(1, -1)\<close>.\<close>

definition slice_inner :: "string \<Rightarrow> string" where
  "slice_inner s = butlast (tl s)"

text \<open>\<open>s.split(a).join(b)\<close> for one-character separators.\<close>

definition replace_char :: "char \<Rightarrow> char \<Rightarrow> string \<Rightarrow> string" where
  "replace_char a b s = map (\<lambda>c. if c = a then b else c) s"

section \<open>Decimal numerals\<close>

definition digit_val :: "char \<Rightarrow> nat" where
  "digit_val c = code c - 48"

definition digit_char :: "nat \<Rightarrow> char" where
  "digit_char d = char_of (48 + d mod 10)"

text \<open>\<open>parseInt(s, 10)\<close> and \<open>Number(s)\<close> on a string of digits.\<close>

definition dec_val :: "string \<Rightarrow> nat" where
  "dec_val s = foldl (\<lambda>n c. 10 * n + digit_val c) 0 s"

text \<open>\<open>String(n)\<close> for a non-negative integer.\<close>

fun show_nat :: "nat \<Rightarrow> string" where
  "show_nat n = (if n < 10 then [digit_char n] else show_nat (n div 10) @ [digit_char n])"

declare show_nat.simps [simp del]

definition show_int :: "int \<Rightarrow> string" where
  "show_int i = (if i < 0 then CHR ''-'' # show_nat (nat (- i)) else show_nat (nat i))"

text \<open>\<open>s.padStart(n, c)\<close>.\<close>

definition pad_start :: "nat \<Rightarrow> char \<Rightarrow> string \<Rightarrow> string" where
  "pad_start n c s = replicate (n - length s) c @ s"

definition all_digits :: "string \<Rightarrow> bool" where
  "all_digits s \<longleftrightarrow> s \<noteq> [] \<and> list_all is_digit s"

section \<open>Regular expression shapes\<close>

text \<open>A pattern that begins with a literal: the rest is matched after it.\<close>

definition match_lit :: "string \<Rightarrow> (string \<Rightarrow> 'a option) \<Rightarrow> string \<Rightarrow> 'a option" where
  "match_lit p k s = (if starts_with p s then k (drop (length p) s) else None)"

text \<open>A greedy run \<open>([class]+)\<close> with nothing after it in the pattern.\<close>

definition match_run :: "(char \<Rightarrow> bool) \<Rightarrow> string \<Rightarrow> string option" where
  "match_run cls s = (case takeWhile cls s of [] \<Rightarrow> None | t \<Rightarrow> Some t)"

text \<open>Lazy runs \<open>([class]*?)\<close> and \<open>([class]+?)\<close> up to a literal: the shortest that fits.\<close>

fun lazy_star :: "(char \<Rightarrow> bool) \<Rightarrow> string \<Rightarrow> string \<Rightarrow> string option" where
  "lazy_star cls stop [] = (if stop = [] then Some [] else None)"
| "lazy_star cls stop (c # cs) =
     (if starts_with stop (c # cs) then Some []
      else if cls c then map_option ((#) c) (lazy_star cls stop cs) else None)"

fun lazy_plus :: "(char \<Rightarrow> bool) \<Rightarrow> string \<Rightarrow> string \<Rightarrow> string option" where
  "lazy_plus cls stop [] = None"
| "lazy_plus cls stop (c # cs) =
     (if cls c then map_option ((#) c) (lazy_star cls stop cs) else None)"

text \<open>\<open>s.match(pattern)\<close>: the leftmost position where the pattern matches.\<close>

fun first_match :: "(string \<Rightarrow> 'a option) \<Rightarrow> string \<Rightarrow> 'a option" where
  "first_match m [] = m []"
| "first_match m (c # cs) = (case m (c # cs) of Some x \<Rightarrow> Some x | None \<Rightarrow> first_match m cs)"

section \<open>Event machines\<close>

text \<open>
  A component driven by callbacks is a step function on its state; a run consumes the callbacks in
  the order the event loop delivers them. \<open>run_ok\<close> says every event of the run was one the
  environment can deliver in the state it met.
\<close>

definition run_events :: "('s \<Rightarrow> 'e \<Rightarrow> 's) \<Rightarrow> 's \<Rightarrow> 'e list \<Rightarrow> 's" where
  "run_events step s es = foldl step s es"

fun run_ok :: "('s \<Rightarrow> 'e \<Rightarrow> 's) \<Rightarrow> ('s \<Rightarrow> 'e \<Rightarrow> bool) \<Rightarrow> 's \<Rightarrow> 'e list \<Rightarrow> bool" where
  "run_ok step ok s [] = True"
| "run_ok step ok s (e # es) = (ok s e \<and> run_ok step ok (step s e) es)"

lemma run_events_simps [simp]:
  "run_events step s [] = s"
  "run_events step s (e # es) = run_events step (step s e) es"
  by (simp_all add: run_events_def)

lemma run_events_append: "run_events step s (es @ fs) = run_events step (run_events step s es) fs"
  by (simp add: run_events_def)

lemma run_ok_append:
  "run_ok step ok s (es @ fs) \<longleftrightarrow> run_ok step ok s es \<and> run_ok step ok (run_events step s es) fs"
  by (induction es arbitrary: s) auto

text \<open>The contract of a component with an invariant, and what a client may conclude of any run.\<close>

locale invariant_machine =
  fixes step :: "'s \<Rightarrow> 'e \<Rightarrow> 's"
    and ok :: "'s \<Rightarrow> 'e \<Rightarrow> bool"
    and inv :: "'s \<Rightarrow> bool"
  assumes step_inv: "inv s \<Longrightarrow> ok s e \<Longrightarrow> inv (step s e)"
begin

lemma run_inv: "inv s \<Longrightarrow> run_ok step ok s es \<Longrightarrow> inv (run_events step s es)"
  by (induction es arbitrary: s) (auto intro: step_inv)

end

text \<open>A machine that implements a smaller one: each step is matched by the abstract step.\<close>

locale machine_refinement =
  fixes step :: "'s \<Rightarrow> 'e \<Rightarrow> 's"
    and astep :: "'a \<Rightarrow> 'e \<Rightarrow> 'a"
    and abs :: "'s \<Rightarrow> 'a"
    and inv :: "'s \<Rightarrow> bool"
  assumes sim: "inv s \<Longrightarrow> abs (step s e) = astep (abs s) e"
    and sim_inv: "inv s \<Longrightarrow> inv (step s e)"
begin

lemma run_sim: "inv s \<Longrightarrow> abs (run_events step s es) = run_events astep (abs s) es"
  by (induction es arbitrary: s) (auto simp: sim sim_inv)

end

section \<open>Lemmas on strings\<close>

lemma starts_with_iff: "starts_with p s \<longleftrightarrow> (\<exists>t. s = p @ t)"
  unfolding starts_with_def by (metis append_eq_conv_conj append_take_drop_id)

lemma starts_with_append [simp]: "starts_with p (p @ t)"
  by (auto simp: starts_with_iff)

lemma starts_with_Nil [simp]: "starts_with [] s"
  by (simp add: starts_with_def)

lemma starts_with_NilD [simp]: "starts_with p [] \<longleftrightarrow> p = []"
  by (auto simp: starts_with_def)

lemma starts_with_Cons [simp]: "starts_with (a # p) (b # s) \<longleftrightarrow> a = b \<and> starts_with p s"
  by (auto simp: starts_with_def)

lemma ends_with_iff: "ends_with p s \<longleftrightarrow> (\<exists>t. s = t @ p)"
  unfolding ends_with_def starts_with_iff by (metis rev_append rev_rev_ident)

lemma includes_str_iff: "includes_str p s \<longleftrightarrow> (\<exists>a b. s = a @ p @ b)"
proof (induction s)
  case Nil
  then show ?case by (simp add: includes_str_def)
next
  case (Cons c cs)
  have "(\<exists>a b. c # cs = a @ p @ b) \<longleftrightarrow> starts_with p (c # cs) \<or> (\<exists>a b. cs = a @ p @ b)"
    by (metis append_Cons append_Nil list.exhaust_sel list.sel(1,3) starts_with_iff)
  with Cons show ?case by (auto simp: includes_str_def)
qed

lemma index_of_Some:
  "index_of p s = Some i \<Longrightarrow> i + length p \<le> length s \<and> s = take i s @ p @ drop (i + length p) s"
proof (induction s arbitrary: i)
  case Nil
  then show ?case by (auto split: if_splits)
next
  case (Cons c cs)
  show ?case
  proof (cases "starts_with p (c # cs)")
    case True
    then obtain t where t: "c # cs = p @ t" by (auto simp: starts_with_iff)
    from True Cons.prems have "i = 0" by simp
    with t show ?thesis by simp
  next
    case False
    with Cons.prems obtain j where "i = Suc j" "index_of p cs = Some j" by auto
    with Cons.IH show ?thesis by auto
  qed
qed

lemma index_of_None_char: "index_of [c] s = None \<longleftrightarrow> c \<notin> set s"
  by (induction s) auto

lemma index_of_char:
  "index_of [c] s = Some i \<Longrightarrow> i < length s \<and> s ! i = c \<and> c \<notin> set (take i s)"
proof (induction s arbitrary: i)
  case Nil
  then show ?case by simp
next
  case (Cons d s)
  then show ?case by (cases "d = c") (auto split: if_splits)
qed

lemma index_of_append: "index_of [c] (u @ c # v) = Some (length u)" if "c \<notin> set u"
  using that by (induction u) auto

lemma length_js_trim: "length (js_trim s) \<le> length s"
  unfolding js_trim_def by (metis length_dropWhile_le length_rev order_trans)

lemma dropWhile_idem [simp]: "dropWhile P (dropWhile P s) = dropWhile P s"
  by (induction s) auto

lemma set_js_trim: "set (js_trim s) \<subseteq> set s"
  unfolding js_trim_def by (metis set_dropWhileD set_rev subsetI)

lemma rev_dropWhile_stable:
  assumes "dropWhile P s = s"
  shows "dropWhile P (rev (dropWhile P (rev s))) = rev (dropWhile P (rev s))"
proof -
  obtain u where u: "s = rev (dropWhile P (rev s)) @ u"
    by (metis rev_append rev_rev_ident takeWhile_dropWhile_id)
  show ?thesis
  proof (cases "rev (dropWhile P (rev s))")
    case (Cons a as)
    with u assms have "\<not> P a" by (metis append_Cons dropWhile_eq_Cons_conv)
    with Cons show ?thesis by simp
  next
    case Nil
    then show ?thesis by (simp only: dropWhile.simps)
  qed
qed

lemma js_trim_idem [simp]: "js_trim (js_trim s) = js_trim s"
  unfolding js_trim_def by (simp add: rev_dropWhile_stable)

lemma js_trim_no_ws: "list_all (\<lambda>c. \<not> is_ws c) s \<Longrightarrow> js_trim s = s"
proof -
  assume a: "list_all (\<lambda>c. \<not> is_ws c) s"
  have drop: "dropWhile is_ws t = t" if "list_all (\<lambda>c. \<not> is_ws c) t" for t
    using that by (cases t) auto
  from a have "list_all (\<lambda>c. \<not> is_ws c) (rev s)" by (simp add: list_all_iff)
  with a show ?thesis by (simp add: js_trim_def drop)
qed

lemma code_less: "code c < 256"
  by (simp add: code_def)

lemma code_char_of [simp]: "n < 256 \<Longrightarrow> code (char_of n) = n"
  by (simp add: code_def take_bit_eq_mod of_char_of)

lemma code_lower: "code (lower_char c) = (if is_upper c \<or> (192 \<le> code c \<and> code c \<le> 222 \<and> code c \<noteq> 215)
    then code c + 32 else code c)"
  by (auto simp: lower_char_def is_upper_def)

lemma code_inj: "code c = code d \<longleftrightarrow> c = d"
  by (simp add: code_def)

lemma lower_char_idem [simp]: "lower_char (lower_char c) = lower_char c"
  unfolding code_inj [symmetric] by (auto simp: code_lower is_upper_def)

lemma js_lower_idem [simp]: "js_lower (js_lower s) = js_lower s"
  by (simp add: js_lower_def)

lemma is_ws_lower [simp]: "is_ws (lower_char c) = is_ws c"
  by (auto simp: is_ws_def code_lower is_upper_def)

lemma js_lower_trim: "js_trim (js_lower s) = js_lower (js_trim s)"
  by (simp add: js_trim_def js_lower_def dropWhile_map rev_map comp_def)

lemma length_js_lower [simp]: "length (js_lower s) = length s"
  by (simp add: js_lower_def)
section \<open>Lemmas on numerals\<close>

lemma is_digit_digit_char [simp]: "is_digit (digit_char d)"
  by (simp add: is_digit_def digit_char_def)

lemma digit_val_digit_char [simp]: "digit_val (digit_char d) = d mod 10"
  by (simp add: digit_val_def digit_char_def)

lemma dec_val_snoc: "dec_val (s @ [c]) = 10 * dec_val s + digit_val c"
  by (simp add: dec_val_def)

lemma dec_val_show_nat [simp]: "dec_val (show_nat n) = n"
proof (induction n rule: show_nat.induct)
  case (1 n)
  show ?case
  proof (cases "n < 10")
    case True
    then show ?thesis by (subst show_nat.simps) (simp add: dec_val_def)
  next
    case False
    with 1 show ?thesis by (subst show_nat.simps) (simp add: dec_val_snoc)
  qed
qed

lemma show_nat_nonempty [simp]: "show_nat n \<noteq> []"
  by (subst show_nat.simps) simp

lemma digits_show_nat [simp]: "list_all is_digit (show_nat n)"
proof (induction n rule: show_nat.induct)
  case (1 n)
  then show ?case by (subst show_nat.simps) simp
qed

lemma all_digits_show_nat [simp]: "all_digits (show_nat n)"
  by (simp add: all_digits_def)

lemma show_nat_inject: "show_nat m = show_nat n \<longleftrightarrow> m = n"
  by (metis dec_val_show_nat)

lemma length_show_nat_2: "n < 100 \<Longrightarrow> length (show_nat n) = (if n < 10 then 1 else 2)"
  by (subst show_nat.simps) (auto simp: show_nat.simps [of "n div 10"])

section \<open>Lemmas on matching\<close>

lemma match_lit_Some [match_simps]:
  "match_lit p k s = Some x \<longleftrightarrow> (\<exists>t. s = p @ t \<and> k t = Some x)"
  by (auto simp: match_lit_def starts_with_iff)

lemma match_run_Some [match_simps]:
  "match_run cls s = Some x \<longleftrightarrow>
     x \<noteq> [] \<and> list_all cls x \<and> (\<exists>r. s = x @ r \<and> (r = [] \<or> \<not> cls (hd r)))"
proof
  assume "match_run cls s = Some x"
  then have x: "x = takeWhile cls s" "x \<noteq> []" by (auto simp: match_run_def split: list.splits)
  have "s = x @ dropWhile cls s" using x by simp
  moreover have "dropWhile cls s = [] \<or> \<not> cls (hd (dropWhile cls s))"
    using hd_dropWhile by blast
  moreover have "list_all cls x" using x by (auto simp: list_all_iff dest: set_takeWhileD)
  ultimately show "x \<noteq> [] \<and> list_all cls x \<and> (\<exists>r. s = x @ r \<and> (r = [] \<or> \<not> cls (hd r)))"
    using x(2) by blast
next
  assume "x \<noteq> [] \<and> list_all cls x \<and> (\<exists>r. s = x @ r \<and> (r = [] \<or> \<not> cls (hd r)))"
  then obtain r where r: "s = x @ r" "r = [] \<or> \<not> cls (hd r)" and x: "x \<noteq> []" "list_all cls x"
    by blast
  have "takeWhile cls s = x"
    using r x(2) by (cases r) (auto simp: list_all_iff takeWhile_append)
  with x(1) show "match_run cls s = Some x" by (auto simp: match_run_def split: list.splits)
qed

lemma lazy_star_stop [simp]: "lazy_star cls stop (stop @ r) = Some []"
proof (cases "stop @ r")
  case (Cons a l)
  then have "starts_with stop (a # l)" by (metis starts_with_append)
  with Cons show ?thesis by simp
next
  case Nil
  then show ?thesis by simp
qed

lemma lazy_star_sound:
  "lazy_star cls stop s = Some x \<Longrightarrow> list_all cls x \<and> (\<exists>r. s = x @ stop @ r)"
proof (induction s arbitrary: x)
  case Nil
  then show ?case by (auto split: if_splits)
next
  case (Cons c cs)
  show ?case
  proof (cases "starts_with stop (c # cs)")
    case True
    with Cons.prems show ?thesis by (auto simp: starts_with_iff)
  next
    case False
    with Cons show ?thesis by (fastforce split: if_splits)
  qed
qed

text \<open>Laziness: the run found is the shortest one.\<close>

lemma lazy_star_complete:
  "list_all cls x \<Longrightarrow> \<exists>y. lazy_star cls stop (x @ stop @ r) = Some y \<and> length y \<le> length x"
proof (induction x)
  case Nil
  then show ?case by simp
next
  case (Cons c x)
  then obtain y where "lazy_star cls stop (x @ stop @ r) = Some y" "length y \<le> length x" by auto
  with Cons.prems show ?case by auto
qed

lemma lazy_star_exact:
  assumes "list_all cls x"
    and "\<And>u v. x = u @ v \<Longrightarrow> v \<noteq> [] \<Longrightarrow> \<not> starts_with stop (v @ stop @ r)"
  shows "lazy_star cls stop (x @ stop @ r) = Some x"
  using assms
proof (induction x)
  case Nil
  then show ?case by simp
next
  case (Cons c x)
  from Cons.prems(2) [of "[]" "c # x"] have "\<not> starts_with stop (c # x @ stop @ r)" by simp
  moreover have "lazy_star cls stop (x @ stop @ r) = Some x"
    using Cons.prems by (intro Cons.IH) (auto dest: Cons.prems(2) [of "c # u" v for u v, simplified])
  ultimately show ?case using Cons.prems(1) by simp
qed

lemma lazy_plus_sound:
  "lazy_plus cls stop s = Some x \<Longrightarrow> x \<noteq> [] \<and> list_all cls x \<and> (\<exists>r. s = x @ stop @ r)"
  by (cases s) (auto dest: lazy_star_sound split: if_splits)

lemma first_match_Some:
  "first_match m s = Some x \<Longrightarrow> \<exists>a b. s = a @ b \<and> m b = Some x"
proof (induction s)
  case Nil
  then show ?case by auto
next
  case (Cons c cs)
  show ?case
  proof (cases "m (c # cs)")
    case None
    with Cons obtain a b where "cs = a @ b" "m b = Some x" by auto
    then have "c # cs = (c # a) @ b \<and> m b = Some x" by simp
    then show ?thesis by blast
  next
    case (Some y)
    with Cons.prems have "c # cs = [] @ (c # cs) \<and> m (c # cs) = Some x" by simp
    then show ?thesis by blast
  qed
qed

lemma first_match_None: "first_match m s = None \<longleftrightarrow> (\<forall>a b. s = a @ b \<longrightarrow> m b = None)"
proof (induction s)
  case Nil
  then show ?case by simp
next
  case (Cons c cs)
  have "(\<forall>a b. c # cs = a @ b \<longrightarrow> m b = None) \<longleftrightarrow>
      m (c # cs) = None \<and> (\<forall>a b. cs = a @ b \<longrightarrow> m b = None)"
    by (auto simp: Cons_eq_append_conv)
  with Cons show ?case by (simp split: option.splits)
qed

lemma first_match_here: "m s = Some x \<Longrightarrow> first_match m s = Some x"
  by (cases s) auto

lemma first_match_skip:
  "(\<And>u v. a = u @ v \<Longrightarrow> v \<noteq> [] \<Longrightarrow> m (v @ b) = None) \<Longrightarrow> first_match m (a @ b) = first_match m b"
proof (induction a)
  case Nil
  then show ?case by simp
next
  case (Cons c a)
  from Cons.prems [of "[]" "c # a"] have "m (c # a @ b) = None" by simp
  moreover have "first_match m (a @ b) = first_match m b"
    using Cons.prems by (intro Cons.IH) (auto dest: Cons.prems [of "c # u" v for u v, simplified])
  ultimately show ?case by simp
qed

lemmas string_eval =
  starts_with_def ends_with_def includes_str_def js_trim_def js_lower_def lower_char_def
  is_ws_def is_line_term_def is_digit_def is_upper_def is_lower_def is_alnum_def code_def
  slice_inner_def replace_char_def digit_val_def digit_char_def dec_val_def show_int_def
  pad_start_def all_digits_def match_lit_def match_run_def

declare string_eval [js_defs]

end
