(* ===== verification/Json.thy ===== *)
theory Json imports Complex_Main JS_Prelude begin

text \<open>
  JSON values and the two directions the sources use: \<open>JSON.parse\<close> on what arrives over the socket
  and in backend replies, \<open>JSON.stringify\<close> on what the browser sends. Numbers are exact rationals;
  \<open>JSON.stringify\<close> is defined for integral ones, the only ones sent. A \<open>\uXXXX\<close> escape above 00FF
  is outside the model's strings, and a text with one has no parse here. The parser's fuel is the
  length of the text plus one: each nested call consumes at least one character.
\<close>

datatype json =
    JNull
  | JBool bool
  | JNum rat
  | JStr string
  | JArr "json list"
  | JObj "(string \<times> json) list"

section \<open>JSON.parse\<close>

definition json_ws :: "char \<Rightarrow> bool" where
  "json_ws c \<longleftrightarrow> c = SP \<or> c = CHR 0x09 \<or> c = LF \<or> c = CR"

definition skip_ws :: "string \<Rightarrow> string" where
  "skip_ws s = dropWhile json_ws s"

definition hex_val :: "char \<Rightarrow> nat option" where
  "hex_val c =
     (if is_digit c then Some (code c - 48)
      else if 97 \<le> code c \<and> code c \<le> 102 then Some (code c - 87)
      else if 65 \<le> code c \<and> code c \<le> 70 then Some (code c - 55)
      else None)"

fun hex4 :: "char \<Rightarrow> char \<Rightarrow> char \<Rightarrow> char \<Rightarrow> nat option" where
  "hex4 a b c d =
     (case (hex_val a, hex_val b, hex_val c, hex_val d) of
        (Some w, Some x, Some y, Some z) \<Rightarrow> Some (((w * 16 + x) * 16 + y) * 16 + z)
      | _ \<Rightarrow> None)"

definition simple_escape :: "char \<Rightarrow> char option" where
  "simple_escape e =
     (if e = DQ then Some DQ else if e = BSL then Some BSL else if e = CHR ''/'' then Some (CHR ''/'')
      else if e = CHR ''b'' then Some (CHR 0x08) else if e = CHR ''f'' then Some (CHR 0x0C)
      else if e = CHR ''n'' then Some LF else if e = CHR ''r'' then Some CR
      else if e = CHR ''t'' then Some (CHR 0x09) else None)"

definition cons_fst :: "'a \<Rightarrow> 'a list \<times> 'b \<Rightarrow> 'a list \<times> 'b" where
  "cons_fst x p = (x # fst p, snd p)"

text \<open>The characters of a string literal, after its opening quotation mark.\<close>

fun parse_string :: "string \<Rightarrow> (string \<times> string) option" where
  "parse_string [] = None"
| "parse_string (c # cs) =
     (if c = DQ then Some ([], cs)
      else if c = BSL then
        (case cs of
           [] \<Rightarrow> None
         | e # es \<Rightarrow>
             if e = CHR ''u'' then
               (case es of
                  h1 # h2 # h3 # h4 # r \<Rightarrow>
                    (case hex4 h1 h2 h3 h4 of
                       None \<Rightarrow> None
                     | Some n \<Rightarrow> if n < 256 then map_option (cons_fst (char_of n)) (parse_string r)
                                 else None)
                | _ \<Rightarrow> None)
             else (case simple_escape e of
                     None \<Rightarrow> None
                   | Some x \<Rightarrow> map_option (cons_fst x) (parse_string es)))
      else if code c < 32 then None
      else map_option (cons_fst c) (parse_string cs))"

text \<open>\<open>-?(0|[1-9]\d*)(\.\d+)?([eE][+-]?\d+)?\<close>\<close>

definition parse_int_part :: "string \<Rightarrow> (nat \<times> string) option" where
  "parse_int_part s =
     (case s of
        [] \<Rightarrow> None
      | c # cs \<Rightarrow>
          if c = CHR ''0'' then Some (0, cs)
          else if is_digit c then Some (dec_val (takeWhile is_digit s), dropWhile is_digit s)
          else None)"

definition parse_frac :: "string \<Rightarrow> (rat \<times> string) option" where
  "parse_frac s =
     (case s of
        [] \<Rightarrow> Some (0, s)
      | c # cs \<Rightarrow>
          if c = CHR ''.'' then
            (case takeWhile is_digit cs of
               [] \<Rightarrow> None
             | ds \<Rightarrow> Some (of_nat (dec_val ds) / 10 ^ length ds, dropWhile is_digit cs))
          else Some (0, s))"

definition parse_digits :: "string \<Rightarrow> (nat \<times> string) option" where
  "parse_digits s =
     (case takeWhile is_digit s of [] \<Rightarrow> None | ds \<Rightarrow> Some (dec_val ds, dropWhile is_digit s))"

definition parse_exp :: "string \<Rightarrow> (rat \<times> string) option" where
  "parse_exp s =
     (case s of
        [] \<Rightarrow> Some (1, s)
      | c # cs \<Rightarrow>
          if c = CHR ''e'' \<or> c = CHR ''E'' then
            (case cs of
               [] \<Rightarrow> None
             | d # ds \<Rightarrow>
                 if d = CHR ''-'' then map_option (\<lambda>(n, r). (1 / 10 ^ n, r)) (parse_digits ds)
                 else if d = CHR ''+'' then map_option (\<lambda>(n, r). (10 ^ n, r)) (parse_digits ds)
                 else map_option (\<lambda>(n, r). (10 ^ n, r)) (parse_digits cs))
          else Some (1, s))"

definition parse_unsigned :: "string \<Rightarrow> (rat \<times> string) option" where
  "parse_unsigned s =
     Option.bind (parse_int_part s) (\<lambda>(i, s1).
     Option.bind (parse_frac s1) (\<lambda>(f, s2).
     Option.bind (parse_exp s2) (\<lambda>(e, s3). Some ((of_nat i + f) * e, s3))))"

definition parse_number :: "string \<Rightarrow> (json \<times> string) option" where
  "parse_number s =
     (case s of
        [] \<Rightarrow> None
      | c # cs \<Rightarrow>
          if c = CHR ''-'' then map_option (\<lambda>(n, r). (JNum (- n), r)) (parse_unsigned cs)
          else map_option (\<lambda>(n, r). (JNum n, r)) (parse_unsigned s))"

text \<open>A repeated key keeps its first position and takes the last value, as in a JavaScript object.\<close>

fun obj_set :: "string \<Rightarrow> 'v \<Rightarrow> (string \<times> 'v) list \<Rightarrow> (string \<times> 'v) list" where
  "obj_set k v [] = [(k, v)]"
| "obj_set k v ((k', v') # kvs) = (if k = k' then (k, v) # kvs else (k', v') # obj_set k v kvs)"

fun parse_value :: "nat \<Rightarrow> string \<Rightarrow> (json \<times> string) option"
and parse_elems :: "nat \<Rightarrow> json list \<Rightarrow> string \<Rightarrow> (json \<times> string) option"
and parse_members :: "nat \<Rightarrow> (string \<times> json) list \<Rightarrow> string \<Rightarrow> (json \<times> string) option" where
  "parse_value 0 s = None"
| "parse_value (Suc n) s =
     (case s of
        [] \<Rightarrow> None
      | c # cs \<Rightarrow>
          if c = DQ then map_option (\<lambda>(t, r). (JStr t, r)) (parse_string cs)
          else if c = CHR ''{'' then
            (case skip_ws cs of
               [] \<Rightarrow> None
             | d # ds \<Rightarrow> if d = CHR ''}'' then Some (JObj [], ds) else parse_members n [] (d # ds))
          else if c = CHR ''['' then
            (case skip_ws cs of
               [] \<Rightarrow> None
             | d # ds \<Rightarrow> if d = CHR '']'' then Some (JArr [], ds) else parse_elems n [] (d # ds))
          else if starts_with ''true'' s then Some (JBool True, drop 4 s)
          else if starts_with ''false'' s then Some (JBool False, drop 5 s)
          else if starts_with ''null'' s then Some (JNull, drop 4 s)
          else parse_number s)"
| "parse_elems 0 vs s = None"
| "parse_elems (Suc n) vs s =
     (case parse_value n s of
        None \<Rightarrow> None
      | Some (v, r) \<Rightarrow>
          (case skip_ws r of
             [] \<Rightarrow> None
           | c # cs \<Rightarrow>
               if c = CHR '','' then parse_elems n (vs @ [v]) (skip_ws cs)
               else if c = CHR '']'' then Some (JArr (vs @ [v]), cs)
               else None))"
| "parse_members 0 kvs s = None"
| "parse_members (Suc n) kvs s =
     (case s of
        [] \<Rightarrow> None
      | q # s1 \<Rightarrow>
          if q \<noteq> DQ then None
          else (case parse_string s1 of
                  None \<Rightarrow> None
                | Some (k, s2) \<Rightarrow>
                    (case skip_ws s2 of
                       [] \<Rightarrow> None
                     | c # s3 \<Rightarrow>
                         if c \<noteq> CHR '':'' then None
                         else (case parse_value n (skip_ws s3) of
                                 None \<Rightarrow> None
                               | Some (v, r) \<Rightarrow>
                                   (case skip_ws r of
                                      [] \<Rightarrow> None
                                    | d # ds \<Rightarrow>
                                        if d = CHR '','' then parse_members n (obj_set k v kvs) (skip_ws ds)
                                        else if d = CHR ''}'' then Some (JObj (obj_set k v kvs), ds)
                                        else None)))))"

definition json_parse :: "string \<Rightarrow> json option" where
  "json_parse s =
     (case parse_value (Suc (length s)) (skip_ws s) of
        None \<Rightarrow> None
      | Some (v, r) \<Rightarrow> if skip_ws r = [] then Some v else None)"

section \<open>JSON.stringify\<close>

definition hex_char :: "nat \<Rightarrow> char" where
  "hex_char n = (if n < 10 then char_of (48 + n) else char_of (87 + n))"

definition escape_char :: "char \<Rightarrow> string" where
  "escape_char c =
     (if c = DQ then [BSL, DQ] else if c = BSL then [BSL, BSL]
      else if c = CHR 0x08 then [BSL, CHR ''b''] else if c = CHR 0x0C then [BSL, CHR ''f'']
      else if c = LF then [BSL, CHR ''n''] else if c = CR then [BSL, CHR ''r'']
      else if c = CHR 0x09 then [BSL, CHR ''t'']
      else if code c < 32 then [BSL, CHR ''u'', CHR ''0'', CHR ''0'', hex_char (code c div 16), hex_char (code c mod 16)]
      else [c])"

definition quote_string :: "string \<Rightarrow> string" where
  "quote_string s = DQ # concat (map escape_char s) @ [DQ]"

fun json_stringify :: "json \<Rightarrow> string option"
and stringify_elems :: "json list \<Rightarrow> string option"
and stringify_members :: "(string \<times> json) list \<Rightarrow> string option" where
  "json_stringify JNull = Some ''null''"
| "json_stringify (JBool b) = Some (if b then ''true'' else ''false'')"
| "json_stringify (JNum r) = (if of_int \<lfloor>r\<rfloor> = r then Some (show_int \<lfloor>r\<rfloor>) else None)"
| "json_stringify (JStr s) = Some (quote_string s)"
| "json_stringify (JArr vs) = map_option (\<lambda>t. ''['' @ t @ '']'') (stringify_elems vs)"
| "json_stringify (JObj kvs) = map_option (\<lambda>t. ''{'' @ t @ ''}'') (stringify_members kvs)"
| "stringify_elems [] = Some []"
| "stringify_elems (v # vs) =
     (case (json_stringify v, stringify_elems vs) of
        (Some t, Some ts) \<Rightarrow> Some (if vs = [] then t else t @ '','' @ ts)
      | _ \<Rightarrow> None)"
| "stringify_members [] = Some []"
| "stringify_members ((k, v) # kvs) =
     (case (json_stringify v, stringify_members kvs) of
        (Some t, Some ts) \<Rightarrow>
          Some (if kvs = [] then quote_string k @ '':'' @ t else quote_string k @ '':'' @ t @ '','' @ ts)
      | _ \<Rightarrow> None)"

text \<open>Objects as JavaScript has them: no key twice, at every level.\<close>

fun wf_json :: "json \<Rightarrow> bool" where
  "wf_json (JArr vs) = list_all wf_json vs"
| "wf_json (JObj kvs) = (distinct (map fst kvs) \<and> list_all (\<lambda>kv. wf_json (snd kv)) kvs)"
| "wf_json _ = True"

section \<open>Reading back what was written\<close>

lemma hex_val_char: "k < 16 \<Longrightarrow> hex_val (hex_char k) = Some k"
  by (auto simp: hex_val_def hex_char_def is_digit_def)

lemma hex4_code: "n < 256 \<Longrightarrow> hex4 (CHR ''0'') (CHR ''0'') (hex_char (n div 16)) (hex_char (n mod 16)) = Some n"
proof -
  assume "n < 256"
  then have "hex_val (hex_char (n div 16)) = Some (n div 16)" "hex_val (hex_char (n mod 16)) = Some (n mod 16)"
    by (simp_all add: hex_val_char less_mult_imp_div_less)
  moreover have "hex_val (CHR ''0'') = Some 0" by (simp add: hex_val_def is_digit_def code_def)
  ultimately show ?thesis by simp
qed

lemma char_of_code [simp]: "char_of (code c) = c"
  by (simp add: code_def)

lemma parse_string_escape:
  "parse_string (escape_char c @ t) = map_option (cons_fst c) (parse_string t)"
proof -
  consider "c \<in> {DQ, BSL, CHR 0x08, CHR 0x0C, LF, CR, CHR 0x09}"
    | "c \<notin> {DQ, BSL, CHR 0x08, CHR 0x0C, LF, CR, CHR 0x09}" "code c < 32"
    | "c \<notin> {DQ, BSL, CHR 0x08, CHR 0x0C, LF, CR, CHR 0x09}" "\<not> code c < 32"
    by blast
  then show ?thesis
  proof cases
    case 1
    then show ?thesis by (auto simp: escape_char_def simple_escape_def)
  next
    case 2
    then show ?thesis
      using hex4_code [of "code c"] by (auto simp: escape_char_def simp del: hex4.simps)
  next
    case 3
    then show ?thesis by (auto simp: escape_char_def)
  qed
qed

lemma parse_string_quote:
  "parse_string (concat (map escape_char s) @ DQ # r) = Some (s, r)"
proof (induction s)
  case Nil
  show ?case by simp
next
  case (Cons c s)
  then show ?case
    using parse_string_escape [of c "concat (map escape_char s) @ DQ # r"] by (simp add: cons_fst_def)
qed

text \<open>What may follow a value inside a text: nothing, or the character that ends it.\<close>

definition ends_value :: "string \<Rightarrow> bool" where
  "ends_value r \<longleftrightarrow> r = [] \<or> hd r \<in> set '',]}''"

lemma ends_value_simps [simp]:
  "ends_value []" "ends_value (c # r) \<longleftrightarrow> c \<in> set '',]}''"
  by (simp_all add: ends_value_def)

lemma digit_char_0: "digit_char 0 = CHR ''0''"
  unfolding code_inj [symmetric] by (simp add: digit_char_def) (simp add: code_def)

lemma hd_show_nat: "hd (show_nat n) = CHR ''0'' \<longleftrightarrow> n = 0"
proof (induction n rule: show_nat.induct)
  case (1 n)
  have d: "digit_char n = CHR ''0'' \<longleftrightarrow> n = 0" if "n < 10"
    using that unfolding code_inj [symmetric] by (simp add: digit_char_def) (simp add: code_def)
  show ?case
  proof (cases "n < 10")
    case True
    with d show ?thesis by (subst show_nat.simps) simp
  next
    case False
    with 1 show ?thesis by (subst show_nat.simps) (auto simp: hd_append)
  qed
qed

lemma takeWhile_show_nat:
  assumes "ends_value r"
  shows "takeWhile is_digit (show_nat n @ r) = show_nat n" "dropWhile is_digit (show_nat n @ r) = r"
proof -
  have r: "r = [] \<or> \<not> is_digit (hd r)"
    using assms by (auto simp: ends_value_def is_digit_def code_def)
  have "list_all is_digit (show_nat n)" by simp
  then show "takeWhile is_digit (show_nat n @ r) = show_nat n" "dropWhile is_digit (show_nat n @ r) = r"
    using r by (cases r; auto simp: list_all_iff takeWhile_append dropWhile_append)+
qed

lemma show_nat_Cons: "\<exists>c cs. show_nat n = c # cs \<and> is_digit c"
  using digits_show_nat [of n] by (cases "show_nat n") auto

lemma parse_unsigned_show: "ends_value r \<Longrightarrow> parse_unsigned (show_nat n @ r) = Some (of_nat n, r)"
proof -
  assume r: "ends_value r"
  obtain c cs where c: "show_nat n = c # cs" "is_digit c" using show_nat_Cons by blast
  have i: "parse_int_part (show_nat n @ r) = Some (n, r)"
  proof (cases "n = 0")
    case True
    then have "show_nat n = [CHR ''0'']" by (simp add: show_nat.simps digit_char_0)
    with True show ?thesis by (simp add: parse_int_part_def)
  next
    case False
    then have "c \<noteq> CHR ''0''" using hd_show_nat [of n] c by simp
    moreover have "takeWhile is_digit (c # cs @ r) = show_nat n" "dropWhile is_digit (c # cs @ r) = r"
      using takeWhile_show_nat [OF r, of n] c by simp_all
    ultimately show ?thesis using c(2) unfolding c(1) parse_int_part_def
      by (simp del: takeWhile.simps dropWhile.simps) (simp add: c(1) [symmetric])
  qed
  have f: "parse_frac r = Some (0, r)" "parse_exp r = Some (1, r)"
    using r by (auto simp: parse_frac_def parse_exp_def ends_value_def split: list.splits)
  show ?thesis by (simp add: parse_unsigned_def i f)
qed

lemma parse_number_show: "ends_value r \<Longrightarrow> parse_number (show_int i @ r) = Some (JNum (of_int i), r)"
proof (cases "i < 0")
  case True
  then show "ends_value r \<Longrightarrow> ?thesis"
    using parse_unsigned_show [of r "nat (- i)"] by (simp add: show_int_def parse_number_def)
next
  case False
  obtain c cs where c: "show_nat (nat i) = c # cs" "is_digit c" using show_nat_Cons by blast
  then have "c \<noteq> CHR ''-''" by (auto simp: is_digit_def code_def)
  with False c show "ends_value r \<Longrightarrow> ?thesis"
    using parse_unsigned_show [of r "nat i"] by (simp add: show_int_def parse_number_def)
qed

text \<open>How the text of a value begins.\<close>

definition value_head :: "char \<Rightarrow> bool" where
  "value_head c \<longleftrightarrow> is_digit c \<or> c = DQ \<or> c \<in> set ''-{[tfn''"

lemma value_head_plain: "value_head c \<Longrightarrow> \<not> json_ws c \<and> c \<notin> set '',]}:''"
  by (auto simp: value_head_def json_ws_def is_digit_def code_def)

lemma stringify_head: "json_stringify v = Some t \<Longrightarrow> \<exists>c cs. t = c # cs \<and> value_head c"
proof (cases v)
  case (JNum r)
  assume "json_stringify v = Some t"
  with JNum have t: "t = show_int \<lfloor>r\<rfloor>" by (simp split: if_splits)
  obtain c cs where "show_nat (nat \<lfloor>r\<rfloor>) = c # cs" "is_digit c" using show_nat_Cons by blast
  with t show ?thesis by (auto simp: show_int_def value_head_def)
qed (auto simp: value_head_def quote_string_def split: if_splits)

lemma skip_value: "json_stringify v = Some t \<Longrightarrow> skip_ws (t @ r) = t @ r"
  using stringify_head [of v t] value_head_plain by (auto simp: skip_ws_def)

lemma skip_ends: "ends_value r \<Longrightarrow> skip_ws r = r"
  by (cases r) (auto simp: skip_ws_def json_ws_def)

lemma obj_set_new: "k \<notin> set (map fst kvs) \<Longrightarrow> obj_set k v kvs = kvs @ [(k, v)]"
  by (induction kvs) auto

lemma parse_value_number:
  assumes "ends_value r" "0 < n"
  shows "parse_value n (show_int i @ r) = Some (JNum (of_int i), r)"
proof -
  obtain m where m: "n = Suc m" using assms(2) by (cases n) auto
  obtain c cs where c: "show_int i @ r = c # cs" "is_digit c \<or> c = CHR ''-''"
    using show_nat_Cons [of "nat i"] by (cases "i < 0") (auto simp: show_int_def)
  have "c \<notin> {DQ, CHR ''{'', CHR ''['', CHR ''t'', CHR ''f'', CHR ''n''}"
    using c(2) by (auto simp: is_digit_def code_def)
  with c m have "parse_value n (show_int i @ r) = parse_number (show_int i @ r)" by auto
  with parse_number_show [OF assms(1)] show ?thesis by simp
qed

lemma parse_value_open:
  assumes "t \<noteq> []" "skip_ws t = t"
  shows "hd t \<noteq> CHR '']'' \<Longrightarrow> parse_value (Suc n) (CHR ''['' # t) = parse_elems n [] t"
    and "hd t \<noteq> CHR ''}'' \<Longrightarrow> parse_value (Suc n) (CHR ''{'' # t) = parse_members n [] t"
  using assms by (cases t; simp)+

lemma stringify_elems_head: "stringify_elems vs = Some t \<Longrightarrow> vs \<noteq> [] \<Longrightarrow> \<exists>c cs. t = c # cs \<and> value_head c"
  by (cases vs) (auto dest: stringify_head split: option.splits if_splits)

lemma stringify_members_head: "stringify_members kvs = Some t \<Longrightarrow> kvs \<noteq> [] \<Longrightarrow> \<exists>cs. t = DQ # cs"
  by (cases kvs) (auto simp: quote_string_def split: option.splits if_splits)

lemma parse_elems_step:
  assumes "parse_value n (t @ r) = Some (v, r)" "ends_value r" "r = c # cs"
  shows "c = CHR '','' \<Longrightarrow> parse_elems (Suc n) acc (t @ r) = parse_elems n (acc @ [v]) (skip_ws cs)"
    and "c = CHR '']'' \<Longrightarrow> parse_elems (Suc n) acc (t @ r) = Some (JArr (acc @ [v]), cs)"
  using assms skip_ends [of r] by simp_all

lemma parse_members_step:
  assumes "parse_value n (t @ r) = Some (v, r)" "json_stringify v = Some t" "ends_value r" "r = c # cs"
  shows "c = CHR '','' \<Longrightarrow> parse_members (Suc n) acc (quote_string k @ '':'' @ t @ r) =
           parse_members n (obj_set k v acc) (skip_ws cs)"
    and "c = CHR ''}'' \<Longrightarrow> parse_members (Suc n) acc (quote_string k @ '':'' @ t @ r) =
           Some (JObj (obj_set k v acc), cs)"
proof -
  have k: "parse_string (concat (map escape_char k) @ DQ # CHR '':'' # t @ r) = Some (k, CHR '':'' # t @ r)"
    by (rule parse_string_quote)
  have w: "skip_ws (CHR '':'' # t @ r) = CHR '':'' # t @ r" by (simp add: skip_ws_def json_ws_def)
  note facts = k w skip_value [OF assms(2)] assms(1) skip_ends [OF assms(3)]
  show "c = CHR '','' \<Longrightarrow> parse_members (Suc n) acc (quote_string k @ '':'' @ t @ r) =
           parse_members n (obj_set k v acc) (skip_ws cs)"
    "c = CHR ''}'' \<Longrightarrow> parse_members (Suc n) acc (quote_string k @ '':'' @ t @ r) =
           Some (JObj (obj_set k v acc), cs)"
    using facts assms(4) by (simp_all add: quote_string_def)
qed

text \<open>One constructor at a time, with the text of the parts already known to read back.\<close>

lemma parse_array:
  assumes "stringify_elems vs = Some ts"
    and "vs \<noteq> [] \<Longrightarrow> parse_elems m [] (ts @ CHR '']'' # r) = Some (JArr vs, r)"
  shows "parse_value (Suc m) (CHR ''['' # ts @ CHR '']'' # r) = Some (JArr vs, r)"
proof (cases "vs = []")
  case True
  with assms(1) show ?thesis by (simp add: skip_ws_def json_ws_def)
next
  case False
  from stringify_elems_head [OF assms(1) False] obtain c cs where c: "ts = c # cs" "value_head c" by blast
  then have "parse_value (Suc m) (CHR ''['' # ts @ CHR '']'' # r) = parse_elems m [] (ts @ CHR '']'' # r)"
    using parse_value_open(1) [of "ts @ CHR '']'' # r" m] value_head_plain [of c] by (auto simp: skip_ws_def)
  with assms(2) [OF False] show ?thesis by simp
qed

lemma parse_object:
  assumes "stringify_members kvs = Some ms"
    and "kvs \<noteq> [] \<Longrightarrow> parse_members m [] (ms @ CHR ''}'' # r) = Some (JObj kvs, r)"
  shows "parse_value (Suc m) (CHR ''{'' # ms @ CHR ''}'' # r) = Some (JObj kvs, r)"
proof (cases "kvs = []")
  case True
  with assms(1) show ?thesis by (simp add: skip_ws_def json_ws_def)
next
  case False
  from stringify_members_head [OF assms(1) False] obtain cs where "ms = DQ # cs" by blast
  then have "parse_value (Suc m) (CHR ''{'' # ms @ CHR ''}'' # r) = parse_members m [] (ms @ CHR ''}'' # r)"
    using parse_value_open(2) [of "ms @ CHR ''}'' # r" m] by (auto simp: skip_ws_def json_ws_def)
  with assms(2) [OF False] show ?thesis by simp
qed

lemma parse_elems_cons:
  assumes str: "stringify_elems (v # vs) = Some ts" "Suc (length ts) < n"
    and IHv: "\<And>t n r. json_stringify v = Some t \<Longrightarrow> length t < n \<Longrightarrow> ends_value r \<Longrightarrow>
        parse_value n (t @ r) = Some (v, r)"
    and IHvs: "\<And>ts n acc. stringify_elems vs = Some ts \<Longrightarrow> vs \<noteq> [] \<Longrightarrow> Suc (length ts) < n \<Longrightarrow>
        parse_elems n acc (ts @ CHR '']'' # r) = Some (JArr (acc @ vs), r)"
  shows "parse_elems n acc (ts @ CHR '']'' # r) = Some (JArr (acc @ v # vs), r)"
proof -
  from str(1) obtain t us where t: "json_stringify v = Some t" "stringify_elems vs = Some us"
      "ts = (if vs = [] then t else t @ '','' @ us)"
    by (auto split: option.splits)
  obtain m where m: "n = Suc m" using str(2) by (cases n) auto
  have len: "length t < m" using str(2) t(3) m by (auto split: if_splits)
  show ?thesis
  proof (cases "vs = []")
    case True
    from parse_elems_step(2) [OF IHv [OF t(1) len, of "CHR '']'' # r"]] True t(3) m show ?thesis by simp
  next
    case False
    let ?r = "CHR '','' # us @ CHR '']'' # r"
    note st = parse_elems_step(1) [OF IHv [OF t(1) len, of ?r]]
    obtain c cs where c: "us = c # cs" "value_head c" using stringify_elems_head [OF t(2) False] by blast
    then have sk: "skip_ws (us @ CHR '']'' # r) = us @ CHR '']'' # r"
      using value_head_plain by (simp add: skip_ws_def)
    have "t \<noteq> []" using stringify_head [OF t(1)] by auto
    then have "Suc (length us) < m" using str(2) t(3) m False by (cases t) auto
    with st sk t(3) False m IHvs [OF t(2) False, of m "acc @ [v]"] show ?thesis by simp
  qed
qed

lemma parse_members_cons:
  assumes str: "stringify_members ((k, v) # kvs) = Some ms" "Suc (length ms) < n"
    and new: "k \<notin> set (map fst acc)"
    and IHv: "\<And>t n r. json_stringify v = Some t \<Longrightarrow> length t < n \<Longrightarrow> ends_value r \<Longrightarrow>
        parse_value n (t @ r) = Some (v, r)"
    and IHkvs: "\<And>ms n. stringify_members kvs = Some ms \<Longrightarrow> kvs \<noteq> [] \<Longrightarrow> Suc (length ms) < n \<Longrightarrow>
        parse_members n (acc @ [(k, v)]) (ms @ CHR ''}'' # r) = Some (JObj ((acc @ [(k, v)]) @ kvs), r)"
  shows "parse_members n acc (ms @ CHR ''}'' # r) = Some (JObj (acc @ (k, v) # kvs), r)"
proof -
  from str(1) obtain t us where t: "json_stringify v = Some t" "stringify_members kvs = Some us"
      "ms = (if kvs = [] then quote_string k @ '':'' @ t else quote_string k @ '':'' @ t @ '','' @ us)"
    by (auto split: option.splits)
  obtain m where m: "n = Suc m" using str(2) by (cases n) auto
  have len: "length t < m" using str(2) t(3) m by (auto split: if_splits)
  note set = obj_set_new [OF new, of v]
  show ?thesis
  proof (cases "kvs = []")
    case True
    from parse_members_step(2) [OF IHv [OF t(1) len, of "CHR ''}'' # r"] t(1)] True t(3) m set
    show ?thesis by simp
  next
    case False
    let ?r = "CHR '','' # us @ CHR ''}'' # r"
    note st = parse_members_step(1) [OF IHv [OF t(1) len, of ?r] t(1)]
    have sk: "skip_ws (us @ CHR ''}'' # r) = us @ CHR ''}'' # r"
      using stringify_members_head [OF t(2) False] by (auto simp: skip_ws_def json_ws_def)
    have "Suc (length us) < m" using str(2) t(3) m False by (auto simp: quote_string_def)
    with st sk t(3) False m set IHkvs [OF t(2) False, of m] show ?thesis by simp
  qed
qed

lemma parse_stringify_all:
  "json_stringify v = Some t \<Longrightarrow> wf_json v \<Longrightarrow> length t < n \<Longrightarrow> ends_value r \<Longrightarrow>
     parse_value n (t @ r) = Some (v, r)"
  "stringify_elems vs = Some ts \<Longrightarrow> vs \<noteq> [] \<Longrightarrow> list_all wf_json vs \<Longrightarrow> Suc (length ts) < n \<Longrightarrow>
     parse_elems n acc (ts @ CHR '']'' # r) = Some (JArr (acc @ vs), r)"
  "stringify_members kvs = Some ms \<Longrightarrow> kvs \<noteq> [] \<Longrightarrow> list_all (\<lambda>kv. wf_json (snd kv)) kvs \<Longrightarrow>
     distinct (map fst (macc @ kvs)) \<Longrightarrow> Suc (length ms) < n \<Longrightarrow>
     parse_members n macc (ms @ CHR ''}'' # r) = Some (JObj (macc @ kvs), r)"
proof (induction v and vs and kvs arbitrary: t n r and ts n r acc and ms n r macc
    rule: json_stringify_stringify_elems_stringify_members.induct)
  case (2 b t n r)
  then show ?case by (cases n; cases b) auto
next
  case (3 q t n r)
  then have "t = show_int \<lfloor>q\<rfloor>" "of_int \<lfloor>q\<rfloor> = q" by (auto split: if_splits)
  with 3 parse_value_number [of r n "\<lfloor>q\<rfloor>"] show ?case by simp
next
  case (4 s t n r)
  then show ?case using parse_string_quote [of s r] by (cases n) (auto simp: quote_string_def)
next
  case (5 vs t n r)
  then obtain ts m where "stringify_elems vs = Some ts" "t = ''['' @ ts @ '']''" "n = Suc m"
    by (cases n) auto
  with 5 parse_array [of vs ts m r] show ?case by simp
next
  case (6 kvs t n r)
  then obtain ms m where "stringify_members kvs = Some ms" "t = ''{'' @ ms @ ''}''" "n = Suc m"
    by (cases n) auto
  with 6 parse_object [of kvs ms m r] show ?case by simp
next
  case (8 v vs ts n r acc)
  show ?case
    by (rule parse_elems_cons [OF "8.prems"(1,4)]) (use 8 in auto)
next
  case (10 k v kvs ms n r macc)
  show ?case
    by (rule parse_members_cons [OF "10.prems"(1,5)]) (use 10 in auto)
next
  case (1 t n r)
  then show ?case by (cases n) auto
qed simp_all

lemma parse_stringify:
  assumes "json_stringify v = Some t" "wf_json v"
  shows "json_parse t = Some v"
proof -
  have "parse_value (Suc (length t)) (t @ []) = Some (v, [])"
    using assms by (intro parse_stringify_all(1)) auto
  moreover have "skip_ws t = t" using skip_value [OF assms(1), of "[]"] by simp
  ultimately show ?thesis by (simp add: json_parse_def skip_ws_def)
qed

end
