(* ===== verification/Js_Values.thy ===== *)
theory Js_Values imports Json begin

text \<open>
  JavaScript's conversions on the values \<open>JSON.parse\<close> can return: truthiness, property access,
  \<open>Object.entries\<close> and \<open>ToNumber\<close>, as the message handlers rely on them. Numbers are exact: the
  rounding of doubles is not modelled.
\<close>

fun truthy :: "json \<Rightarrow> bool" where
  "truthy JNull = False"
| "truthy (JBool b) = b"
| "truthy (JNum r) = (r \<noteq> 0)"
| "truthy (JStr s) = (s \<noteq> [])"
| "truthy (JArr vs) = True"
| "truthy (JObj kvs) = True"

definition truthy_str :: "string option \<Rightarrow> bool" where
  "truthy_str s \<longleftrightarrow> (case s of None \<Rightarrow> False | Some t \<Rightarrow> t \<noteq> [])"

text \<open>\<open>v.name\<close> for a name no built-in prototype has; \<open>None\<close> is \<open>undefined\<close>.\<close>

fun get_prop :: "string \<Rightarrow> json \<Rightarrow> json option" where
  "get_prop k (JObj kvs) = map_of kvs k"
| "get_prop k _ = None"

text \<open>\<open>v[0]\<close>.\<close>

fun elem0 :: "json \<Rightarrow> json option" where
  "elem0 (JArr (v # vs)) = Some v"
| "elem0 (JStr (c # cs)) = Some (JStr [c])"
| "elem0 (JObj kvs) = map_of kvs ''0''"
| "elem0 _ = None"

definition indexed :: "'a list \<Rightarrow> (string \<times> 'a) list" where
  "indexed xs = zip (map show_nat [0..<length xs]) xs"

text \<open>
  \<open>Object.entries\<close>. JavaScript lists integer-like keys of an object first; no handler has such a
  name, so the order of the keys that matter is the object's own.
\<close>

fun entries :: "json \<Rightarrow> (string \<times> json) list" where
  "entries (JObj kvs) = kvs"
| "entries (JArr vs) = indexed vs"
| "entries (JStr s) = indexed (map (\<lambda>c. JStr [c]) s)"
| "entries _ = []"

section \<open>ToNumber\<close>

datatype jsnum = Fin rat | PInf | NInf | NaN

definition pos_num :: "jsnum \<Rightarrow> bool" where
  "pos_num n \<longleftrightarrow> (case n of Fin r \<Rightarrow> 0 < r | PInf \<Rightarrow> True | _ \<Rightarrow> False)"

definition neg_num :: "jsnum \<Rightarrow> jsnum" where
  "neg_num n = (case n of Fin r \<Rightarrow> Fin (- r) | PInf \<Rightarrow> NInf | NInf \<Rightarrow> PInf | NaN \<Rightarrow> NaN)"

text \<open>\<open>digits[.digits][exponent]\<close> or \<open>.digits[exponent]\<close>, and nothing after it.\<close>

definition str_decimal :: "string \<Rightarrow> jsnum" where
  "str_decimal s =
     (let is = takeWhile is_digit s; r1 = dropWhile is_digit s;
          fs = (if starts_with ''.'' r1 then takeWhile is_digit (tl r1) else []);
          r2 = (if starts_with ''.'' r1 then dropWhile is_digit (tl r1) else r1) in
      if is = [] \<and> fs = [] then NaN
      else (case parse_exp r2 of
              Some (e, []) \<Rightarrow> Fin ((of_nat (dec_val is) + of_nat (dec_val fs) / 10 ^ length fs) * e)
            | _ \<Rightarrow> NaN))"

definition radix_val :: "nat \<Rightarrow> string \<Rightarrow> nat option" where
  "radix_val b s =
     (if s = [] then None
      else foldl (\<lambda>acc c. case (acc, hex_val c) of
                            (Some n, Some d) \<Rightarrow> if d < b then Some (n * b + d) else None
                          | _ \<Rightarrow> None) (Some 0) s)"

definition str_radix :: "nat \<Rightarrow> string \<Rightarrow> jsnum" where
  "str_radix b s = (case radix_val b s of None \<Rightarrow> NaN | Some n \<Rightarrow> Fin (of_nat n))"

definition str_unsigned :: "string \<Rightarrow> jsnum" where
  "str_unsigned s = (if s = ''Infinity'' then PInf else str_decimal s)"

text \<open>\<open>Number(s)\<close> for a string.\<close>

definition string_to_number :: "string \<Rightarrow> jsnum" where
  "string_to_number str =
     (let s = js_trim str in
      if s = [] then Fin 0
      else if starts_with ''0x'' s \<or> starts_with ''0X'' s then str_radix 16 (drop 2 s)
      else if starts_with ''0o'' s \<or> starts_with ''0O'' s then str_radix 8 (drop 2 s)
      else if starts_with ''0b'' s \<or> starts_with ''0B'' s then str_radix 2 (drop 2 s)
      else if starts_with ''-'' s then neg_num (str_unsigned (tl s))
      else if starts_with ''+'' s then str_unsigned (tl s)
      else str_unsigned s)"

text \<open>
  An array converts through its text: empty is 0, one element is that element's text (an empty one
  for \<open>null\<close>), more have a comma and are no number.
\<close>

fun to_number :: "json \<Rightarrow> jsnum" where
  "to_number JNull = Fin 0"
| "to_number (JBool b) = Fin (if b then 1 else 0)"
| "to_number (JNum r) = Fin r"
| "to_number (JStr s) = string_to_number s"
| "to_number (JArr []) = Fin 0"
| "to_number (JArr [v]) = (case v of JNull \<Rightarrow> Fin 0 | JBool _ \<Rightarrow> NaN | _ \<Rightarrow> to_number v)"
| "to_number (JArr (v # w # vs)) = NaN"
| "to_number (JObj kvs) = NaN"

text \<open>\<open>v > 0\<close>, where \<open>undefined\<close> converts to NaN.\<close>

definition gt_zero :: "json option \<Rightarrow> bool" where
  "gt_zero v \<longleftrightarrow> (case v of None \<Rightarrow> False | Some w \<Rightarrow> pos_num (to_number w))"

end
