(* ===== verification/Terminal_Utils.thy ===== *)
theory Terminal_Utils imports JS_Prelude begin

text \<open>
  \<^verbatim>\<open>docker/coolify-realtime/terminal-utils.js\<close>: how the terminal server takes an SSH command line
  apart, decides whether it may be run, and strips what it must not pass on. One definition per
  function of the file, in its order; the two loops that work on an index are recursions on the
  argument list. What the validation is meant to accept is stated in \<open>Ssh_Policy\<close>.
\<close>

section \<open>Constants and command metadata\<close>

definition MAX_TERMINAL_SESSION_TIMEOUT_SECONDS :: int where
  "MAX_TERMINAL_SESSION_TIMEOUT_SECONDS = 8 * 60 * 60"

definition getTerminalSessionTimeout :: int where
  "getTerminalSessionTimeout = MAX_TERMINAL_SESSION_TIMEOUT_SECONDS"

text \<open>\<open>/timeout (\d+)/\<close>.\<close>

definition extractTimeout :: "string \<Rightarrow> nat option" where
  "extractTimeout commandString =
     map_option dec_val (first_match (match_lit ''timeout '' (match_run is_digit)) commandString)"

section \<open>Shell quoting\<close>

text \<open>\<open>replace(/q([^q]*)q/g, '$1')\<close> for a quotation mark \<open>q\<close>.\<close>

function strip_pairs :: "char \<Rightarrow> string \<Rightarrow> string" where
  "strip_pairs q s =
     (let pre = takeWhile (\<lambda>c. c \<noteq> q) s; rest = dropWhile (\<lambda>c. c \<noteq> q) s in
      case rest of [] \<Rightarrow> pre
      | _ # body \<Rightarrow>
          (let inner = takeWhile (\<lambda>c. c \<noteq> q) body; after = dropWhile (\<lambda>c. c \<noteq> q) body in
           case after of [] \<Rightarrow> pre @ rest | _ # more \<Rightarrow> pre @ inner @ strip_pairs q more))"
  by pat_completeness auto
termination
proof (relation "measure (\<lambda>(q, s). length s)", goal_cases)
  case (2 q s pre rest c body inner after d more)
  have "length (d # more) \<le> length body" "length (c # body) \<le> length s"
    using 2 by (metis length_dropWhile_le)+
  then show ?case by simp
qed simp

declare strip_pairs.simps [simp del]

definition normalizeShellArgument :: "string \<Rightarrow> string" where
  "normalizeShellArgument argument =
     (if argument = [] then argument else strip_pairs DQ (strip_pairs SQ argument))"

section \<open>Splitting the ssh command line\<close>

record split_state =
  sshArgs :: "string list"
  current :: string
  inQuotes :: bool
  quoteChar :: "char option"

definition split_init :: split_state where
  "split_init = \<lparr>sshArgs = [], current = [], inQuotes = False, quoteChar = None\<rparr>"

text \<open>The body of the \<open>while\<close> loop, for one character.\<close>

definition split_step :: "split_state \<Rightarrow> char \<Rightarrow> split_state" where
  "split_step st ch =
     (if \<not> inQuotes st \<and> (ch = DQ \<or> ch = SQ)
      then st\<lparr>inQuotes := True, quoteChar := Some ch, current := current st @ [ch]\<rparr>
      else if inQuotes st \<and> quoteChar st = Some ch
      then st\<lparr>inQuotes := False, current := current st @ [ch], quoteChar := None\<rparr>
      else if \<not> inQuotes st \<and> ch = SP
      then (if js_trim (current st) \<noteq> []
            then st\<lparr>sshArgs := sshArgs st @ [js_trim (current st)], current := []\<rparr> else st)
      else st\<lparr>current := current st @ [ch]\<rparr>)"

definition split_args :: "string \<Rightarrow> string list" where
  "split_args argsString =
     (let st = foldl split_step split_init argsString in
      if js_trim (current st) \<noteq> [] then sshArgs st @ [js_trim (current st)] else sshArgs st)"

text \<open>\<open>/ssh (.+?) 'bash -se'/\<close>.\<close>

definition BASH_SE :: string where
  "BASH_SE = [SP, SQ] @ ''bash -se'' @ [SQ]"

definition sshCommandMatch :: "string \<Rightarrow> string option" where
  "sshCommandMatch =
     first_match (match_lit ''ssh '' (lazy_plus (\<lambda>c. \<not> is_line_term c) BASH_SE))"

definition force_tty :: "string \<Rightarrow> string" where
  "force_tty arg = (if arg = ''RequestTTY=no'' then ''RequestTTY=yes'' else arg)"

definition add_request_tty :: "string list \<Rightarrow> string list" where
  "add_request_tty args =
     (if ''RequestTTY=yes'' \<notin> set args \<and> \<not> list_ex (includes_str ''RequestTTY='') args
      then args @ [''-o'', ''RequestTTY=yes''] else args)"

definition extractSshArgs :: "string \<Rightarrow> string list" where
  "extractSshArgs commandString =
     (case sshCommandMatch commandString of
        None \<Rightarrow> []
      | Some argsString \<Rightarrow>
          add_request_tty (map force_tty (map normalizeShellArgument (split_args argsString))))"

section \<open>The here document\<close>

text \<open>The character class \<open>[/\-\\^$*+?.()|[\]{}]\<close> the delimiter is escaped for.\<close>

definition regex_special :: "char \<Rightarrow> bool" where
  "regex_special c \<longleftrightarrow> c = BSL \<or> c \<in> set ''/-^$*+?.()|[]{}''"

definition escape_regex :: "string \<Rightarrow> string" where
  "escape_regex s = concat (map (\<lambda>c. if regex_special c then [BSL, c] else [c]) s)"

text \<open>
  \<open>new RegExp(source)\<close> for a source made of literal characters and escaped special ones, the only
  sources the code builds: the literal it matches. A bare special character is no literal.
\<close>

fun regex_literal :: "string \<Rightarrow> string option" where
  "regex_literal [] = Some []"
| "regex_literal (c # cs) =
     (if c = BSL then
        (case cs of [] \<Rightarrow> None
         | d # ds \<Rightarrow> if regex_special d then map_option ((#) d) (regex_literal ds) else None)
      else if regex_special c then None
      else map_option ((#) c) (regex_literal cs))"

definition escapedDelimiter :: "string \<Rightarrow> string option" where
  "escapedDelimiter commandString =
     map_option (\<lambda>delimiter. escape_regex (js_trim (tl delimiter)))
       (first_match (match_lit ''<< '' (match_run (\<lambda>c. \<not> is_ws c))) commandString)"

definition hereDocRegex :: "string \<Rightarrow> string \<Rightarrow> string option" where
  "hereDocRegex lit commandString =
     first_match (match_lit (''<< '' @ [BSL] @ lit) (lazy_star (\<lambda>_. True) lit)) commandString"

definition extractHereDocContent :: "string \<Rightarrow> string" where
  "extractHereDocContent commandString =
     (case escapedDelimiter commandString of
        None \<Rightarrow> []
      | Some esc \<Rightarrow>
          if esc = [] then []
          else (case regex_literal esc of
                  None \<Rightarrow> []
                | Some lit \<Rightarrow>
                    (case hereDocRegex lit commandString of None \<Rightarrow> [] | Some body \<Rightarrow> body)))"

section \<open>Hosts\<close>

definition quoted_by :: "char \<Rightarrow> string \<Rightarrow> bool" where
  "quoted_by q s \<longleftrightarrow> starts_with [q] s \<and> ends_with [q] s"

function unquote_host :: "string \<Rightarrow> string" where
  "unquote_host h =
     (if 2 \<le> length h \<and> (quoted_by SQ h \<or> quoted_by DQ h)
      then unquote_host (js_trim (slice_inner h)) else h)"
  by pat_completeness auto
termination
proof (relation "measure length", goal_cases)
  case (2 h)
  have "length (js_trim (slice_inner h)) \<le> length (slice_inner h)" by (rule length_js_trim)
  also have "\<dots> < length h" using 2 by (auto simp: slice_inner_def)
  finally show ?case by simp
qed simp

declare unquote_host.simps [simp del]

definition strip_brackets :: "string \<Rightarrow> string" where
  "strip_brackets h = (if starts_with ''['' h \<and> ends_with '']'' h then slice_inner h else h)"

definition normalizeHostForAuthorization :: "string option \<Rightarrow> string option" where
  "normalizeHostForAuthorization host =
     (case host of
        None \<Rightarrow> None
      | Some h \<Rightarrow> if h = [] then None
                 else Some (js_lower (strip_brackets (unquote_host (js_trim h)))))"

text \<open>\<open>/^[^@]+@[^@]+$/\<close>.\<close>

definition user_at_host :: "string \<Rightarrow> bool" where
  "user_at_host arg \<longleftrightarrow>
     (case index_of ''@'' arg of
        None \<Rightarrow> False
      | Some i \<Rightarrow> 0 < i \<and> drop (Suc i) arg \<noteq> [] \<and> CHR ''@'' \<notin> set (drop (Suc i) arg))"

definition host_part :: "string \<Rightarrow> string" where
  "host_part arg = tl (dropWhile (\<lambda>c. c \<noteq> CHR ''@'') arg)"

definition KEYS_PATH :: string where
  "KEYS_PATH = ''storage/app/ssh/keys/''"

definition extractTargetHost :: "string list \<Rightarrow> string option" where
  "extractTargetHost args =
     (case find (\<lambda>arg. \<not> includes_str KEYS_PATH arg \<and> user_at_host arg) args of
        None \<Rightarrow> None
      | Some userAtHost \<Rightarrow> normalizeHostForAuthorization (Some (host_part userAtHost)))"

definition isAuthorizedTargetHost :: "string option \<Rightarrow> string list \<Rightarrow> bool" where
  "isAuthorizedTargetHost targetHost authorizedHosts \<longleftrightarrow>
     (case normalizeHostForAuthorization targetHost of
        None \<Rightarrow> False
      | Some h \<Rightarrow> h \<noteq> [] \<and>
          Some h \<in> set (map (\<lambda>host. normalizeHostForAuthorization (Some host)) authorizedHosts))"

section \<open>SSH options\<close>

definition REQUIRED_SSH_OPTIONS :: "string list" where
  "REQUIRED_SSH_OPTIONS =
     [''StrictHostKeyChecking'', ''UserKnownHostsFile'', ''PasswordAuthentication'',
      ''ConnectTimeout'', ''ServerAliveInterval'', ''RequestTTY'', ''LogLevel'']"

definition fixedOptions :: "(string \<times> string) list" where
  "fixedOptions =
     [(''StrictHostKeyChecking'', ''no''),
      (''UserKnownHostsFile'', ''/dev/null''),
      (''PasswordAuthentication'', ''no''),
      (''LogLevel'', ''ERROR''),
      (''ControlMaster'', ''auto''),
      (''ProxyCommand'', ''cloudflared access ssh --hostname %h'')]"

definition key_char :: "char \<Rightarrow> bool" where
  "key_char c \<longleftrightarrow> is_alnum c \<or> c = CHR ''_'' \<or> c = CHR ''-''"

text \<open>\<open>/^prefix[a-zA-Z0-9_-]+$/\<close>.\<close>

definition path_with_key :: "string \<Rightarrow> string \<Rightarrow> bool" where
  "path_with_key p s \<longleftrightarrow>
     starts_with p s \<and> drop (length p) s \<noteq> [] \<and> list_all key_char (drop (length p) s)"

definition MUX_PATH :: string where
  "MUX_PATH = ''/var/www/html/storage/app/ssh/mux/mux_''"

definition IDENTITY_PATH :: string where
  "IDENTITY_PATH = ''/var/www/html/storage/app/ssh/keys/ssh_key@''"

definition isAllowedSshOption :: "string \<Rightarrow> string \<Rightarrow> bool" where
  "isAllowedSshOption name v =
     (case map_of fixedOptions name of
        Some fixed \<Rightarrow> v = fixed
      | None \<Rightarrow>
          if name = ''RequestTTY'' then v = ''yes'' \<or> v = ''no''
          else if name = ''ConnectTimeout'' \<or> name = ''ServerAliveInterval'' \<or> name = ''ControlPersist''
          then all_digits v \<and> 0 < dec_val v
          else if name = ''ControlPath'' then path_with_key MUX_PATH v
          else False)"

section \<open>Validation\<close>

record validation =
  seenOptions :: "string list"
  hasIdentityFile :: bool
  hasPort :: bool
  targetHost :: "string option"

definition validation_init :: validation where
  "validation_init = \<lparr>seenOptions = [], hasIdentityFile = False, hasPort = False, targetHost = None\<rparr>"

text \<open>\<open>/[\0\r\n]/\<close>.\<close>

definition has_control :: "string \<Rightarrow> bool" where
  "has_control s \<longleftrightarrow> list_ex (\<lambda>c. c = CHR 0x00 \<or> c = CR \<or> c = LF) s"

definition identity_ok :: "string \<Rightarrow> bool" where
  "identity_ok f \<longleftrightarrow> path_with_key IDENTITY_PATH f"

definition port_ok :: "string \<Rightarrow> bool" where
  "port_ok p \<longleftrightarrow> all_digits p \<and> 1 \<le> dec_val p \<and> dec_val p \<le> 65535"

definition option_name :: "string \<Rightarrow> string" where
  "option_name opt = takeWhile (\<lambda>c. c \<noteq> CHR ''='') opt"

definition option_value :: "string \<Rightarrow> string" where
  "option_value opt = tl (dropWhile (\<lambda>c. c \<noteq> CHR ''='') opt)"

text \<open>\<open>indexOf('=')\<close> is at least 1, and the two slices around it are an allowed option.\<close>

definition option_ok :: "string \<Rightarrow> bool" where
  "option_ok opt \<longleftrightarrow>
     (case index_of ''='' opt of
        None \<Rightarrow> False
      | Some i \<Rightarrow> 1 \<le> i \<and> isAllowedSshOption (take i opt) (drop (Suc i) opt))"

text \<open>\<open>/^[a-zA-Z0-9_][a-zA-Z0-9._-]*@[^@]+$/\<close>.\<close>

definition destination_ok :: "string \<Rightarrow> bool" where
  "destination_ok a \<longleftrightarrow>
     (case index_of ''@'' a of
        None \<Rightarrow> False
      | Some i \<Rightarrow>
          (case take i a of
             [] \<Rightarrow> False
           | c # cs \<Rightarrow> (is_alnum c \<or> c = CHR ''_'') \<and>
               list_all (\<lambda>d. is_alnum d \<or> d \<in> set ''._-'') cs)
          \<and> drop (Suc i) a \<noteq> [] \<and> CHR ''@'' \<notin> set (drop (Suc i) a))"

text \<open>The \<open>for\<close> loop over the arguments; an option that takes a value consumes two of them.\<close>

fun validate_loop :: "validation \<Rightarrow> string list \<Rightarrow> validation option" where
  "validate_loop st [] = Some st"
| "validate_loop st (a # rest) =
     (if has_control a then None
      else if a = ''-i'' then
        (case rest of
           [] \<Rightarrow> None
         | f # rest' \<Rightarrow>
             if hasIdentityFile st \<or> \<not> identity_ok f then None
             else validate_loop (st\<lparr>hasIdentityFile := True\<rparr>) rest')
      else if a = ''-p'' then
        (case rest of
           [] \<Rightarrow> None
         | p # rest' \<Rightarrow>
             if hasPort st \<or> \<not> port_ok p then None
             else validate_loop (st\<lparr>hasPort := True\<rparr>) rest')
      else if a = ''-o'' then
        (case rest of
           [] \<Rightarrow> None
         | opt # rest' \<Rightarrow>
             if option_name opt \<in> set (seenOptions st) \<or> \<not> option_ok opt then None
             else validate_loop (st\<lparr>seenOptions := seenOptions st @ [option_name opt]\<rparr>) rest')
      else if destination_ok a \<and> targetHost st = None
      then validate_loop (st\<lparr>targetHost := extractTargetHost [a]\<rparr>) rest
      else None)"

definition MUX_OPTIONS :: "string list" where
  "MUX_OPTIONS = [''ControlMaster'', ''ControlPath'', ''ControlPersist'']"

definition validation_complete :: "validation \<Rightarrow> string list \<Rightarrow> bool" where
  "validation_complete st authorizedHosts \<longleftrightarrow>
     hasIdentityFile st \<and> hasPort st \<and> targetHost st \<noteq> None
     \<and> list_all (\<lambda>opt. opt \<in> set (seenOptions st)) REQUIRED_SSH_OPTIONS
     \<and> (\<not> list_ex (\<lambda>opt. opt \<in> set (seenOptions st)) MUX_OPTIONS
        \<or> list_all (\<lambda>opt. opt \<in> set (seenOptions st)) MUX_OPTIONS)
     \<and> isAuthorizedTargetHost (targetHost st) authorizedHosts"

definition validateSshArgs :: "string list \<Rightarrow> string list \<Rightarrow> bool" where
  "validateSshArgs args authorizedHosts \<longleftrightarrow>
     (if args = [] then False
      else (case validate_loop validation_init args of
              None \<Rightarrow> False
            | Some st \<Rightarrow> validation_complete st authorizedHosts))"

section \<open>Sanitising\<close>

text \<open>
  The loop looks at \<open>sshArgs[index + 1]?.split('=', 1)[0]\<close>; at the end of the array the name is
  \<open>undefined\<close>, which is no multiplexing option.
\<close>

fun sanitizeSshArgs :: "string list \<Rightarrow> string list" where
  "sanitizeSshArgs [] = []"
| "sanitizeSshArgs (a # rest) =
     (if a = ''-o'' then
        (case rest of
           [] \<Rightarrow> [a]
         | opt # rest' \<Rightarrow>
             if option_name opt \<in> set MUX_OPTIONS then sanitizeSshArgs rest'
             else a # sanitizeSshArgs rest)
      else a # sanitizeSshArgs rest)"

end
