(* ===== verification/Ssh_Policy.thy ===== *)
theory Ssh_Policy imports Terminal_Utils begin

text \<open>
  The policy behind \<open>validateSshArgs\<close> and \<open>sanitizeSshArgs\<close>, stated on command lines as lists of
  items rather than as an index loop over words: an identity file, a port, options, destinations.
  The loop is shown to accept exactly the renderings of the item lists the policy accepts
  (\<open>validate_iff_policy\<close>), and the safety properties of an accepted command line are read off the
  policy. The locale \<open>command_filter\<close> is what the terminal server relies on.
\<close>

section \<open>Items\<close>

datatype ssh_item = Identity string | Port string | Opt string | Dest string

fun render_item :: "ssh_item \<Rightarrow> string list" where
  "render_item (Identity f) = [''-i'', f]"
| "render_item (Port p) = [''-p'', p]"
| "render_item (Opt opt) = [''-o'', opt]"
| "render_item (Dest d) = [d]"

definition render :: "ssh_item list \<Rightarrow> string list" where
  "render items = concat (map render_item items)"

fun item_ok :: "ssh_item \<Rightarrow> bool" where
  "item_ok (Identity f) = identity_ok f"
| "item_ok (Port p) = port_ok p"
| "item_ok (Opt opt) = option_ok opt"
| "item_ok (Dest d) = (destination_ok d \<and> \<not> has_control d)"

fun identities :: "ssh_item list \<Rightarrow> string list" where
  "identities [] = []"
| "identities (Identity f # is) = f # identities is"
| "identities (_ # is) = identities is"

fun ports :: "ssh_item list \<Rightarrow> string list" where
  "ports [] = []"
| "ports (Port p # is) = p # ports is"
| "ports (_ # is) = ports is"

fun option_names :: "ssh_item list \<Rightarrow> string list" where
  "option_names [] = []"
| "option_names (Opt opt # is) = option_name opt # option_names is"
| "option_names (_ # is) = option_names is"

fun destinations :: "ssh_item list \<Rightarrow> string list" where
  "destinations [] = []"
| "destinations (Dest d # is) = d # destinations is"
| "destinations (_ # is) = destinations is"

text \<open>
  The code stops looking for a destination once one has a target host; a destination whose text
  contains the key directory has none. So every destination but the last is of that kind.
\<close>

definition accepted_destinations :: "string list \<Rightarrow> string list \<Rightarrow> bool" where
  "accepted_destinations ds hosts \<longleftrightarrow>
     ds \<noteq> [] \<and> list_all (\<lambda>d. extractTargetHost [d] = None) (butlast ds)
     \<and> isAuthorizedTargetHost (extractTargetHost [last ds]) hosts"

definition accepted_items :: "ssh_item list \<Rightarrow> string list \<Rightarrow> bool" where
  "accepted_items items hosts \<longleftrightarrow>
     list_all item_ok items
     \<and> length (identities items) = 1 \<and> length (ports items) = 1
     \<and> distinct (option_names items)
     \<and> set REQUIRED_SSH_OPTIONS \<subseteq> set (option_names items)
     \<and> (set MUX_OPTIONS \<inter> set (option_names items) = {} \<or> set MUX_OPTIONS \<subseteq> set (option_names items))
     \<and> accepted_destinations (destinations items) hosts"

section \<open>Reading the words back\<close>

fun parse_items :: "string list \<Rightarrow> ssh_item list option" where
  "parse_items [] = Some []"
| "parse_items (a # rest) =
     (if a = ''-i'' then
        (case rest of [] \<Rightarrow> None | f # r \<Rightarrow> map_option ((#) (Identity f)) (parse_items r))
      else if a = ''-p'' then
        (case rest of [] \<Rightarrow> None | p # r \<Rightarrow> map_option ((#) (Port p)) (parse_items r))
      else if a = ''-o'' then
        (case rest of [] \<Rightarrow> None | opt # r \<Rightarrow> map_option ((#) (Opt opt)) (parse_items r))
      else map_option ((#) (Dest a)) (parse_items rest))"

fun scan :: "validation \<Rightarrow> ssh_item list \<Rightarrow> validation option" where
  "scan st [] = Some st"
| "scan st (Identity f # is) =
     (if hasIdentityFile st \<or> \<not> identity_ok f then None else scan (st\<lparr>hasIdentityFile := True\<rparr>) is)"
| "scan st (Port p # is) =
     (if hasPort st \<or> \<not> port_ok p then None else scan (st\<lparr>hasPort := True\<rparr>) is)"
| "scan st (Opt opt # is) =
     (if option_name opt \<in> set (seenOptions st) \<or> \<not> option_ok opt then None
      else scan (st\<lparr>seenOptions := seenOptions st @ [option_name opt]\<rparr>) is)"
| "scan st (Dest d # is) =
     (if destination_ok d \<and> \<not> has_control d \<and> targetHost st = None
      then scan (st\<lparr>targetHost := extractTargetHost [d]\<rparr>) is else None)"

lemma flags_no_control [simp]:
  "\<not> has_control ''-i''" "\<not> has_control ''-p''" "\<not> has_control ''-o''"
  by (simp_all add: has_control_def)

lemma flags_no_destination [simp]:
  "\<not> destination_ok ''-i''" "\<not> destination_ok ''-p''" "\<not> destination_ok ''-o''"
  by (simp_all add: destination_ok_def starts_with_def)

lemma validate_loop_scan: "validate_loop st args = Option.bind (parse_items args) (scan st)"
proof (induction st args rule: validate_loop.induct)
  case (1 st)
  show ?case by simp
next
  case (2 st a rest)
  consider "a = ''-i''" | "a = ''-p''" | "a = ''-o''" | "a \<notin> {''-i'', ''-p'', ''-o''}" by blast
  then show ?case
  proof cases
    case 1
    show ?thesis
    proof (cases rest)
      case (Cons f r)
      with 1 2(1) show ?thesis by (cases "parse_items r") (simp_all)
    qed (simp add: 1)
  next
    case 2
    show ?thesis
    proof (cases rest)
      case (Cons p r)
      with 2 "2.IH"(2) show ?thesis by (cases "parse_items r") (simp_all)
    qed (simp add: 2)
  next
    case 3
    show ?thesis
    proof (cases rest)
      case (Cons opt r)
      with 3 "2.IH"(3) show ?thesis by (cases "parse_items r") (simp_all)
    qed (simp add: 3)
  next
    case 4
    with "2.IH"(4) show ?thesis by (cases "parse_items rest") (simp_all)
  qed
qed

lemma render_simps [simp]: "render [] = []" "render (i # is) = render_item i @ render is"
  by (simp_all add: render_def)

lemma parse_items_render: "parse_items args = Some items \<Longrightarrow> args = render items"
proof (induction args arbitrary: items rule: parse_items.induct)
  case 1
  then show ?case by simp
next
  case (2 a rest)
  then show ?case by (cases rest) (auto split: if_splits)
qed

lemma render_parse_items: "list_all item_ok items \<Longrightarrow> parse_items (render items) = Some items"
proof (induction items)
  case Nil
  then show ?case by simp
next
  case (Cons i items)
  then show ?case by (cases i) auto
qed

section \<open>What the scan accepts\<close>

text \<open>The destinations alone, from the target host found so far.\<close>

fun scan_dests :: "string option \<Rightarrow> string list \<Rightarrow> string option option" where
  "scan_dests t [] = Some t"
| "scan_dests t (d # ds) = (if t = None then scan_dests (extractTargetHost [d]) ds else None)"

definition once :: "bool \<Rightarrow> 'a list \<Rightarrow> bool" where
  "once seen xs \<longleftrightarrow> xs = [] \<or> (\<not> seen \<and> length xs = 1)"

lemma once_simps [simp]:
  "once seen []" "once seen (x # xs) \<longleftrightarrow> \<not> seen \<and> xs = []" "once True xs \<longleftrightarrow> xs = []"
  by (auto simp: once_def)

lemma scan_Some:
  "scan st items = Some st' \<longleftrightarrow>
     list_all item_ok items
     \<and> once (hasIdentityFile st) (identities items) \<and> once (hasPort st) (ports items)
     \<and> distinct (option_names items) \<and> set (option_names items) \<inter> set (seenOptions st) = {}
     \<and> scan_dests (targetHost st) (destinations items) = Some (targetHost st')
     \<and> seenOptions st' = seenOptions st @ option_names items
     \<and> hasIdentityFile st' = (hasIdentityFile st \<or> identities items \<noteq> [])
     \<and> hasPort st' = (hasPort st \<or> ports items \<noteq> [])"
proof (induction items arbitrary: st)
  case Nil
  then show ?case by (cases st, cases st') auto
next
  case (Cons i items)
  show ?case
  proof (cases i)
    case (Opt opt)
    then show ?thesis using Cons by auto
  qed (use Cons in auto)
qed

lemma scan_dests_Some:
  "scan_dests None ds = Some (Some h) \<longleftrightarrow>
     ds \<noteq> [] \<and> list_all (\<lambda>d. extractTargetHost [d] = None) (butlast ds)
     \<and> extractTargetHost [last ds] = Some h"
proof (induction ds)
  case Nil
  then show ?case by simp
next
  case (Cons d ds)
  show ?case
  proof (cases "extractTargetHost [d]")
    case None
    with Cons show ?thesis by auto
  next
    case (Some g)
    then show ?thesis by (cases ds) auto
  qed
qed

lemma authorized_Some: "isAuthorizedTargetHost t hosts \<Longrightarrow> \<exists>h. t = Some h"
  by (cases t) (auto simp: isAuthorizedTargetHost_def normalizeHostForAuthorization_def)

lemma scan_dests_accepted:
  "(\<exists>t. scan_dests None ds = Some t \<and> isAuthorizedTargetHost t hosts) \<longleftrightarrow> accepted_destinations ds hosts"
  unfolding accepted_destinations_def by (metis authorized_Some scan_dests_Some)

lemma scan_init:
  "(\<exists>st. scan validation_init items = Some st \<and> validation_complete st hosts) \<longleftrightarrow>
     accepted_items items hosts"
proof
  assume "\<exists>st. scan validation_init items = Some st \<and> validation_complete st hosts"
  then obtain st where st: "scan validation_init items = Some st" "validation_complete st hosts" by blast
  from st(1) have sc: "scan_dests None (destinations items) = Some (targetHost st)"
    "list_all item_ok items" "once False (identities items)" "once False (ports items)"
    "distinct (option_names items)" "seenOptions st = option_names items"
    "hasIdentityFile st = (identities items \<noteq> [])" "hasPort st = (ports items \<noteq> [])"
    by (auto simp: scan_Some validation_init_def)
  have "accepted_destinations (destinations items) hosts"
    using sc(1) st(2) scan_dests_accepted unfolding validation_complete_def by blast
  with sc st(2) show "accepted_items items hosts"
    by (auto simp: accepted_items_def validation_complete_def once_def list_all_iff list_ex_iff)
next
  assume a: "accepted_items items hosts"
  then obtain t where t: "scan_dests None (destinations items) = Some t" "isAuthorizedTargetHost t hosts"
    unfolding accepted_items_def by (metis scan_dests_accepted)
  let ?st = "\<lparr>seenOptions = option_names items, hasIdentityFile = True, hasPort = True, targetHost = t\<rparr>"
  have "scan validation_init items = Some ?st"
    using a t(1) by (auto simp: scan_Some validation_init_def accepted_items_def once_def)
  moreover have "validation_complete ?st hosts"
    using a t(2) authorized_Some [OF t(2)]
    by (auto simp: validation_complete_def accepted_items_def list_all_iff list_ex_iff)
  ultimately show "\<exists>st. scan validation_init items = Some st \<and> validation_complete st hosts" by blast
qed

lemma accepted_nonempty: "accepted_items items hosts \<Longrightarrow> render items \<noteq> []"
  by (cases items) (auto simp: accepted_items_def split: ssh_item.splits elim: render_item.elims)

lemma validate_policy: "validateSshArgs args hosts \<longleftrightarrow> (\<exists>items. args = render items \<and> accepted_items items hosts)"
proof -
  have "validateSshArgs args hosts \<longleftrightarrow> args \<noteq> [] \<and>
      (\<exists>items. parse_items args = Some items \<and> accepted_items items hosts)"
    by (auto simp: validateSshArgs_def validate_loop_scan scan_init [symmetric]
        split: option.splits bind_splits)
  also have "\<dots> \<longleftrightarrow> (\<exists>items. args = render items \<and> accepted_items items hosts)"
    by (metis accepted_items_def accepted_nonempty parse_items_render render_parse_items)
  finally show ?thesis .
qed

section \<open>Words of an accepted command line\<close>

definition option_whitelist :: "string list" where
  "option_whitelist = REQUIRED_SSH_OPTIONS @ MUX_OPTIONS @ [''ProxyCommand'']"

lemma allowed_whitelist: "isAllowedSshOption name v \<Longrightarrow> name \<in> set option_whitelist"
  by (auto simp: isAllowedSshOption_def fixedOptions_def option_whitelist_def REQUIRED_SSH_OPTIONS_def
      MUX_OPTIONS_def split: if_splits option.splits)

lemma option_ok_split:
  "option_ok opt \<Longrightarrow> opt = option_name opt @ CHR ''='' # option_value opt
     \<and> isAllowedSshOption (option_name opt) (option_value opt)"
proof -
  assume ok: "option_ok opt"
  then obtain i where i: "index_of ''='' opt = Some i" "1 \<le> i"
      "isAllowedSshOption (take i opt) (drop (Suc i) opt)"
    by (auto simp: option_ok_def split: option.splits)
  from index_of_char [OF i(1)] have n: "i < length opt" "opt ! i = CHR ''=''" "CHR ''='' \<notin> set (take i opt)"
    by auto
  then have o: "opt = take i opt @ CHR ''='' # drop (Suc i) opt" by (metis id_take_nth_drop)
  have tw: "takeWhile (\<lambda>c. c \<noteq> CHR ''='') (u @ CHR ''='' # v) = u"
      "dropWhile (\<lambda>c. c \<noteq> CHR ''='') (u @ CHR ''='' # v) = CHR ''='' # v"
    if "CHR ''='' \<notin> set u" for u v :: string
    using that by (induction u) auto
  have "option_name opt = take i opt" "option_value opt = drop (Suc i) opt"
    using tw [OF n(3), of "drop (Suc i) opt"] o by (metis option_name_def, metis list.sel(3) option_value_def)
  with o i(3) show ?thesis by simp
qed

lemma key_char_no_control: "key_char c \<Longrightarrow> c \<noteq> CHR 0x00 \<and> c \<noteq> CR \<and> c \<noteq> LF"
  by (auto simp: key_char_def is_alnum_def is_digit_def is_upper_def is_lower_def code_def)

lemma digit_no_control: "is_digit c \<Longrightarrow> c \<noteq> CHR 0x00 \<and> c \<noteq> CR \<and> c \<noteq> LF"
  by (auto simp: is_digit_def code_def)

lemma has_control_append: "has_control (u @ v) \<longleftrightarrow> has_control u \<or> has_control v"
  by (simp add: has_control_def)

lemma digits_no_control: "all_digits s \<Longrightarrow> \<not> has_control s"
  using digit_no_control by (auto simp: all_digits_def has_control_def list_all_iff list_ex_iff)

lemma path_no_control: "path_with_key p s \<Longrightarrow> \<not> has_control p \<Longrightarrow> \<not> has_control s"
proof -
  assume a: "path_with_key p s" "\<not> has_control p"
  then obtain t where t: "s = p @ t" "list_all key_char t"
    by (auto simp: path_with_key_def starts_with_iff)
  then have "\<not> has_control t"
    using key_char_no_control by (auto simp: has_control_def list_all_iff list_ex_iff)
  with a t show ?thesis by (simp add: has_control_append)
qed

lemma fixed_values_no_control:
  "map_of fixedOptions name = Some v \<Longrightarrow> \<not> has_control v"
  by (auto simp: fixedOptions_def has_control_def split: if_splits)

lemma allowed_value_no_control: "isAllowedSshOption name v \<Longrightarrow> \<not> has_control v"
  using fixed_values_no_control digits_no_control path_no_control [of MUX_PATH v]
  by (auto simp: isAllowedSshOption_def MUX_PATH_def has_control_def split: option.splits if_splits)

lemma whitelist_words:
  "name \<in> set option_whitelist \<Longrightarrow> \<not> has_control name \<and> name \<noteq> [] \<and> hd name \<noteq> CHR ''-''"
  by (auto simp: option_whitelist_def REQUIRED_SSH_OPTIONS_def MUX_OPTIONS_def has_control_def)

lemma option_word:
  assumes "option_ok opt"
  shows "\<not> has_control opt" and "opt \<noteq> []" and "hd opt \<noteq> CHR ''-''"
proof -
  note o = option_ok_split [OF assms]
  with whitelist_words [OF allowed_whitelist] have n: "\<not> has_control (option_name opt)"
    "option_name opt \<noteq> []" "hd (option_name opt) \<noteq> CHR ''-''" by blast+
  from o have v: "\<not> has_control (CHR ''='' # option_value opt)"
    using allowed_value_no_control by (auto simp: has_control_def)
  from o n v show "\<not> has_control opt" by (metis has_control_append)
  from o n show "opt \<noteq> []" "hd opt \<noteq> CHR ''-''" by (metis append_is_Nil_conv, metis hd_append2)
qed

lemma destination_word: "destination_ok d \<Longrightarrow> d \<noteq> [] \<and> hd d \<noteq> CHR ''-''"
  by (cases d) (auto simp: destination_ok_def is_alnum_def is_digit_def is_upper_def is_lower_def
      code_def split: option.splits list.splits if_splits)

lemma port_word: "port_ok p \<Longrightarrow> p \<noteq> [] \<and> hd p \<noteq> CHR ''-'' \<and> \<not> has_control p"
  using digits_no_control
  by (cases p) (auto simp: port_ok_def all_digits_def is_digit_def code_def)

lemma identity_word: "identity_ok f \<Longrightarrow> f \<noteq> [] \<and> hd f \<noteq> CHR ''-'' \<and> \<not> has_control f"
  using path_no_control [of IDENTITY_PATH f]
  by (auto simp: identity_ok_def path_with_key_def IDENTITY_PATH_def starts_with_iff has_control_def)

lemma item_ok_words:
  assumes "item_ok i" "w \<in> set (render_item i)"
  shows "\<not> has_control w" and "w \<in> {''-i'', ''-p'', ''-o''} \<or> (w \<noteq> [] \<and> hd w \<noteq> CHR ''-'')"
proof -
  have "\<not> has_control w \<and> (w \<in> {''-i'', ''-p'', ''-o''} \<or> (w \<noteq> [] \<and> hd w \<noteq> CHR ''-''))"
  proof (cases i)
    case (Identity f)
    with assms show ?thesis using identity_word [of f] by auto
  next
    case (Port p)
    with assms show ?thesis using port_word [of p] by auto
  next
    case (Opt opt)
    with assms show ?thesis using option_word [of opt] by auto
  next
    case (Dest d)
    with assms show ?thesis using destination_word [of d] by auto
  qed
  then show "\<not> has_control w" "w \<in> {''-i'', ''-p'', ''-o''} \<or> (w \<noteq> [] \<and> hd w \<noteq> CHR ''-'')"
    by blast+
qed

lemma accepted_words:
  assumes "accepted_items items hosts" "w \<in> set (render items)"
  shows "\<not> has_control w" and "w \<in> {''-i'', ''-p'', ''-o''} \<or> (w \<noteq> [] \<and> hd w \<noteq> CHR ''-'')"
proof -
  from assms obtain i where "item_ok i" "w \<in> set (render_item i)"
    by (auto simp: accepted_items_def render_def list_all_iff)
  then show "\<not> has_control w" "w \<in> {''-i'', ''-p'', ''-o''} \<or> (w \<noteq> [] \<and> hd w \<noteq> CHR ''-'')"
    by (rule item_ok_words)+
qed

section \<open>Sanitising an accepted command line\<close>

fun mux_item :: "ssh_item \<Rightarrow> bool" where
  "mux_item (Opt opt) = (option_name opt \<in> set MUX_OPTIONS)"
| "mux_item _ = False"

lemma not_flag: "w \<noteq> [] \<Longrightarrow> hd w \<noteq> CHR ''-'' \<Longrightarrow> w \<noteq> ''-o''"
  by auto

lemma sanitize_render:
  "list_all item_ok items \<Longrightarrow>
     sanitizeSshArgs (render items) = render (filter (\<lambda>i. \<not> mux_item i) items)"
proof (induction items)
  case Nil
  then show ?case by simp
next
  case (Cons i items)
  then have IH: "sanitizeSshArgs (render items) = render (filter (\<lambda>i. \<not> mux_item i) items)" by simp
  from Cons.prems have ok: "item_ok i" by simp
  show ?case
  proof (cases i)
    case (Identity f)
    with ok have "f \<noteq> ''-o''" using identity_word not_flag by auto
    with Identity IH show ?thesis by simp
  next
    case (Port p)
    with ok have "p \<noteq> ''-o''" using port_word not_flag by auto
    with Port IH show ?thesis by simp
  next
    case (Opt opt)
    with ok have "opt \<noteq> ''-o''" using option_word not_flag by auto
    with Opt IH show ?thesis by simp
  next
    case (Dest d)
    with ok have "d \<noteq> ''-o''" using destination_word not_flag by auto
    with Dest IH show ?thesis by simp
  qed
qed

lemma filter_mux [simp]:
  "identities (filter (\<lambda>i. \<not> mux_item i) items) = identities items"
  "ports (filter (\<lambda>i. \<not> mux_item i) items) = ports items"
  "destinations (filter (\<lambda>i. \<not> mux_item i) items) = destinations items"
  "option_names (filter (\<lambda>i. \<not> mux_item i) items) =
     filter (\<lambda>n. n \<notin> set MUX_OPTIONS) (option_names items)"
proof -
  have "identities (filter (\<lambda>i. \<not> mux_item i) items) = identities items \<and>
    ports (filter (\<lambda>i. \<not> mux_item i) items) = ports items \<and>
    destinations (filter (\<lambda>i. \<not> mux_item i) items) = destinations items \<and>
    option_names (filter (\<lambda>i. \<not> mux_item i) items) =
     filter (\<lambda>n. n \<notin> set MUX_OPTIONS) (option_names items)"
  proof (induction items)
    case (Cons i items)
    then show ?case by (cases i) auto
  qed simp
  then show "identities (filter (\<lambda>i. \<not> mux_item i) items) = identities items"
    "ports (filter (\<lambda>i. \<not> mux_item i) items) = ports items"
    "destinations (filter (\<lambda>i. \<not> mux_item i) items) = destinations items"
    "option_names (filter (\<lambda>i. \<not> mux_item i) items) =
     filter (\<lambda>n. n \<notin> set MUX_OPTIONS) (option_names items)" by auto
qed

lemma required_no_mux: "set REQUIRED_SSH_OPTIONS \<inter> set MUX_OPTIONS = {}"
  by (auto simp: REQUIRED_SSH_OPTIONS_def MUX_OPTIONS_def)

lemma accepted_filter_mux:
  "accepted_items items hosts \<Longrightarrow> accepted_items (filter (\<lambda>i. \<not> mux_item i) items) hosts"
  using required_no_mux by (auto simp: accepted_items_def list_all_iff)

text \<open>What the server may pass to \<open>ssh\<close>: an accepted command line without multiplexing options.\<close>

definition safe_command :: "string list \<Rightarrow> string list \<Rightarrow> bool" where
  "safe_command args hosts \<longleftrightarrow>
     (\<exists>items. args = render items \<and> accepted_items items hosts
        \<and> set MUX_OPTIONS \<inter> set (option_names items) = {})"

lemma sanitize_safe: "validateSshArgs args hosts \<Longrightarrow> safe_command (sanitizeSshArgs args) hosts"
proof -
  assume "validateSshArgs args hosts"
  then obtain items where i: "args = render items" "accepted_items items hosts"
    by (auto simp: validate_policy)
  let ?is = "filter (\<lambda>i. \<not> mux_item i) items"
  have "sanitizeSshArgs args = render ?is"
    using i by (simp add: sanitize_render accepted_items_def)
  moreover have "accepted_items ?is hosts" using i(2) by (rule accepted_filter_mux)
  moreover have "set MUX_OPTIONS \<inter> set (option_names ?is) = {}" by auto
  ultimately show ?thesis unfolding safe_command_def by blast
qed

text \<open>The interface the terminal server relies on: what passes the check is safe once cleaned.\<close>

locale command_filter =
  fixes accepts :: "'w list \<Rightarrow> 'h list \<Rightarrow> bool"
    and clean :: "'w list \<Rightarrow> 'w list"
    and safe :: "'w list \<Rightarrow> 'h list \<Rightarrow> bool"
  assumes clean_safe: "accepts args hosts \<Longrightarrow> safe (clean args) hosts"
    and safe_accepts: "safe args hosts \<Longrightarrow> accepts args hosts"
begin

lemma clean_accepts: "accepts args hosts \<Longrightarrow> accepts (clean args) hosts"
  by (rule safe_accepts [OF clean_safe])

end

interpretation ssh: command_filter validateSshArgs sanitizeSshArgs safe_command
proof unfold_locales
  show "validateSshArgs args hosts \<Longrightarrow> safe_command (sanitizeSshArgs args) hosts" for args hosts
    by (rule sanitize_safe)
  show "safe_command args hosts \<Longrightarrow> validateSshArgs args hosts" for args hosts
    by (auto simp: safe_command_def validate_policy)
qed

end
