(* ===== verification/Terminal_Server.thy ===== *)
theory Terminal_Server imports Js_Values Ssh_Policy begin

text \<open>
  \<^verbatim>\<open>docker/coolify-realtime/terminal-server.js\<close>: the WebSocket server that authenticates a browser
  with the backend, turns its messages into operations on a pseudo-terminal running \<open>ssh\<close>, and
  ends that terminal when the session does.

  The server is an event machine. One step is one callback of the Node event loop together with the
  promise continuations it releases, which run before the next callback. JavaScript objects are
  numbered: a connection number stands for both its socket and its session object, and
  \<open>userSessions\<close> maps a user id to that number as the source's \<open>Map\<close> does. What \<open>ws\<close>, \<open>node-pty\<close>,
  the cookie parser and the backend do enters as events; what the server asks of them is recorded
  in the state. An exception no one catches ends the Node process: the flag \<open>crashed\<close>. One that is
  thrown by a callback does so at once; one that rejects a promise nobody handles does so when the
  callback and its continuations are done, and until then is noted in \<open>rejected\<close>.
\<close>

section \<open>Replies of the backend\<close>

datatype http_reply = Reply "nat option" "string option" string | RequestError

record http_response =
  status :: nat
  data :: json

text \<open>\<open>None\<close> is the exception of \<open>JSON.parse\<close>.\<close>

definition parseResponseData :: "string \<Rightarrow> string \<Rightarrow> json option" where
  "parseResponseData contentType responseText =
     (if responseText = [] then Some JNull
      else if includes_str ''application/json'' contentType then json_parse responseText
      else Some (JStr responseText))"

text \<open>\<open>None\<close> is the rejected promise.\<close>

definition postToCoolify :: "http_reply \<Rightarrow> http_response option" where
  "postToCoolify r =
     (case r of
        RequestError \<Rightarrow> None
      | Reply statusCode contentType text \<Rightarrow>
          map_option (\<lambda>d. \<lparr>status = (case statusCode of None \<Rightarrow> 0 | Some n \<Rightarrow> n), data = d\<rparr>)
            (parseResponseData (case contentType of None \<Rightarrow> [] | Some t \<Rightarrow> t) text))"

section \<open>Configuration and plain HTTP\<close>

definition terminalDebugEnabled :: "string \<Rightarrow> string \<Rightarrow> string \<Rightarrow> bool" where
  "terminalDebugEnabled app_env node_env terminal_debug \<longleftrightarrow>
     js_lower (if app_env \<noteq> [] then app_env else node_env) \<in> set [''local'', ''development'']
     \<or> js_lower terminal_debug \<in> set [''1'', ''true'', ''yes'', ''on'']"

text \<open>The text of the error for a reply that is not 200, and what \<open>logTerminal\<close> prints.\<close>

definition createHttpError :: "http_response \<Rightarrow> string" where
  "createHttpError response = ''Request failed with status code '' @ show_nat (status response)"

text \<open>\<open>generateUserId\<close>: nine characters of a random number's text in base 36, which is an argument.\<close>

definition generateUserId :: "(rat \<Rightarrow> string) \<Rightarrow> rat \<Rightarrow> string" where
  "generateUserId text36 random = take (11 - 2) (drop 2 (text36 random))"

definition log_server :: "bool \<Rightarrow> string \<Rightarrow> string \<Rightarrow> (string \<times> string) list \<Rightarrow> (string \<times> string \<times> (string \<times> string) list option) list" where
  "log_server enabled level text context_values =
     (if enabled
      then [(level, ''[TerminalServer] '' @ text, if context_values \<noteq> [] then Some context_values else None)] else [])"

definition http_server :: "string \<Rightarrow> nat \<times> string" where
  "http_server url = (if url = ''/ready'' then (200, ''OK'') else (404, ''Not Found''))"

section \<open>Authentication\<close>

text \<open>The cookies are those the \<open>cookie\<close> package reads from the request, by name.\<close>

record session_cookie =
  sessionCookieName :: string
  xsrfToken :: "string option"
  laravelSession :: "string option"

definition getSessionCookie :: "string \<Rightarrow> (string \<Rightarrow> string option) \<Rightarrow> session_cookie" where
  "getSessionCookie app_name cookies =
     (let appName = (if app_name \<noteq> [] then app_name else ''laravel'');
          name = js_lower (map (\<lambda>c. if is_alnum c then c else CHR ''_'') appName) @ ''_session'' in
      \<lparr>sessionCookieName = name, xsrfToken = cookies ''XSRF-TOKEN'', laravelSession = cookies name\<rparr>)"

definition has_tokens :: "session_cookie \<Rightarrow> bool" where
  "has_tokens c \<longleftrightarrow> truthy_str (laravelSession c) \<and> truthy_str (xsrfToken c)"

datatype verdict = Accept | Reject nat string

definition verifyClient :: "session_cookie \<Rightarrow> http_reply \<Rightarrow> verdict" where
  "verifyClient c r =
     (if \<not> has_tokens c then Reject 401 ''Unauthorized: Missing required tokens''
      else (case postToCoolify r of
              None \<Rightarrow> Reject 500 ''Internal Server Error''
            | Some response \<Rightarrow>
                if status response = 200 then Accept
                else Reject 401 ''Unauthorized: Invalid credentials''))"

text \<open>
  \<open>response.data.ipAddresses || []\<close>, whatever value that is; \<open>None\<close> is the exception for \<open>null\<close> data.
\<close>

definition ipAddresses :: "json \<Rightarrow> json option" where
  "ipAddresses d =
     (if d = JNull then None
      else Some (case get_prop ''ipAddresses'' d of None \<Rightarrow> JArr [] | Some v \<Rightarrow> if truthy v then v else JArr []))"

definition fetch_ips :: "http_reply \<Rightarrow> json option" where
  "fetch_ips r =
     (case postToCoolify r of
        None \<Rightarrow> None
      | Some response \<Rightarrow> if status response \<noteq> 200 then None else ipAddresses (data response))"

text \<open>
  \<open>isAuthorizedTargetHost(targetHost, userSession.authorizedIPs)\<close> on the value the backend sent.
  Reading it as a list of hosts throws, \<open>None\<close>, where it is no array (\<open>map\<close>) or an element is neither a
  string nor false (\<open>trim\<close>); an element that is false normalises to \<open>null\<close>, as the empty text does. The
  list is not read for a target that is empty.
\<close>

definition is_string :: "json \<Rightarrow> bool" where
  "is_string v = (case v of JStr t \<Rightarrow> True | _ \<Rightarrow> False)"

definition host_list :: "json \<Rightarrow> string list option" where
  "host_list v =
     (case v of
        JArr vs \<Rightarrow>
          if list_ex (\<lambda>x. truthy x \<and> \<not> is_string x) vs then None
          else Some (map (\<lambda>x. case x of JStr t \<Rightarrow> t | _ \<Rightarrow> []) vs)
      | _ \<Rightarrow> None)"

definition host_names :: "json \<Rightarrow> string list" where
  "host_names v = (case host_list v of None \<Rightarrow> [] | Some hosts \<Rightarrow> hosts)"

definition check_target :: "string option \<Rightarrow> json \<Rightarrow> bool option" where
  "check_target target v =
     (if \<not> truthy_str (normalizeHostForAuthorization target) then Some False
      else map_option (isAuthorizedTargetHost target) (host_list v))"

lemma check_target_Some: "check_target t v = Some b \<Longrightarrow> b = isAuthorizedTargetHost t (host_names v)"
  by (auto simp: check_target_def host_names_def isAuthorizedTargetHost_def truthy_str_def split: if_splits option.splits)

lemma check_target_total:
  assumes "host_list v \<noteq> None"
  shows "check_target t v = Some (isAuthorizedTargetHost t (host_names v))"
proof -
  from assms obtain b where "check_target t v = Some b"
    by (cases "truthy_str (normalizeHostForAuthorization t)") (auto simp: check_target_def)
  then show ?thesis using check_target_Some by simp
qed

lemma authorized_checked:
  assumes "isAuthorizedTargetHost t (host_names v)"
  shows "check_target t v = Some True" "host_list v = Some (host_names v)"
proof -
  have "host_names v \<noteq> []" using assms by (auto simp: isAuthorizedTargetHost_def split: option.splits)
  then have "host_list v \<noteq> None" by (cases "host_list v") (simp_all add: host_names_def)
  then show "host_list v = Some (host_names v)" "check_target t v = Some True"
    using check_target_total [of v t] assms by (auto simp: host_names_def)
qed

section \<open>State\<close>

record session =
  userId :: string
  ptyProcess :: "nat option"
  isActive :: bool
  authorizedIPs :: json
  authReady :: bool
  pendingMessages :: "string list"
  terminalSessionTimer :: "nat option"
  awaitingIps :: bool

datatype sock_state = Open | Closing | Closed

record socket =
  sock_state :: sock_state
  isAlive :: bool

datatype out = OText string | OJson json | OClose nat string | OPing | OTerminate

datatype pty_op = PWrite json | PResize json json | PPause | PResume

record pty =
  pty_owner :: nat
  pty_ws :: nat
  pty_args :: "string list"
  pty_live :: bool
  pty_ops :: "pty_op list"

text \<open>What awaits the result of \<open>killPtyProcess\<close>: nothing, \<open>handleClose\<close>, or \<open>handleCommand\<close>.\<close>

datatype kill_cont = KIgnore | KDelete string | KCommand nat json

record kill_task =
  kt_session :: nat
  kt_attempts :: nat
  kt_cont :: kill_cont

record server =
  userSessions :: "string \<Rightarrow> nat option"
  sessions :: "nat \<Rightarrow> session option"
  sockets :: "nat \<Rightarrow> socket option"
  ptys :: "nat \<Rightarrow> pty option"
  kills :: "nat \<Rightarrow> kill_task option"
  timers :: "nat \<Rightarrow> (string \<times> int) option"
  sent :: "(nat \<times> out) list"
  handled :: "(nat \<times> string) list"
  next_id :: nat
  rejected :: bool
  crashed :: bool

definition server_init :: server where
  "server_init =
     \<lparr>userSessions = Map.empty, sessions = Map.empty, sockets = Map.empty, ptys = Map.empty,
      kills = Map.empty, timers = Map.empty, sent = [], handled = [], next_id = 0, rejected = False, crashed = False\<rparr>"

section \<open>Elementary actions\<close>

definition upd_session :: "nat \<Rightarrow> (session \<Rightarrow> session) \<Rightarrow> server \<Rightarrow> server" where
  "upd_session cid f s = s\<lparr>sessions := (sessions s)(cid := map_option f (sessions s cid))\<rparr>"

definition upd_socket :: "nat \<Rightarrow> (socket \<Rightarrow> socket) \<Rightarrow> server \<Rightarrow> server" where
  "upd_socket cid f s = s\<lparr>sockets := (sockets s)(cid := map_option f (sockets s cid))\<rparr>"

definition ws_send :: "nat \<Rightarrow> out \<Rightarrow> server \<Rightarrow> server" where
  "ws_send cid x s = s\<lparr>sent := sent s @ [(cid, x)]\<rparr>"

definition ws_close :: "nat \<Rightarrow> nat \<Rightarrow> string \<Rightarrow> server \<Rightarrow> server" where
  "ws_close cid closeCode reason s =
     upd_socket cid (\<lambda>k. if sock_state k = Open then k\<lparr>sock_state := Closing\<rparr> else k)
       (ws_send cid (OClose closeCode reason) s)"

definition pty_do :: "nat option \<Rightarrow> pty_op \<Rightarrow> server \<Rightarrow> server" where
  "pty_do pid x s =
     (case pid of
        None \<Rightarrow> s\<lparr>crashed := True\<rparr>
      | Some p \<Rightarrow> s\<lparr>ptys := (ptys s)(p := map_option (\<lambda>q. q\<lparr>pty_ops := pty_ops q @ [x]\<rparr>) (ptys s p))\<rparr>)"

definition crash :: "server \<Rightarrow> server" where
  "crash s = s\<lparr>crashed := True\<rparr>"

text \<open>An exception inside an \<open>async\<close> function whose promise nobody handles, and the end of a callback.\<close>

definition reject :: "server \<Rightarrow> server" where
  "reject s = s\<lparr>rejected := True\<rparr>"

definition end_turn :: "server \<Rightarrow> server" where
  "end_turn s = (if rejected s then crash s else s)"

definition session_of :: "server \<Rightarrow> nat \<Rightarrow> session" where
  "session_of s cid = the (sessions s cid)"

text \<open>\<open>if (session.terminalSessionTimer) { clearTimeout(...); session.terminalSessionTimer = null }\<close>.\<close>

definition clear_session_timer :: "nat \<Rightarrow> server \<Rightarrow> server" where
  "clear_session_timer cid s =
     (case sessions s cid of
        None \<Rightarrow> s
      | Some ss \<Rightarrow>
          (case terminalSessionTimer ss of
             None \<Rightarrow> s
           | Some t \<Rightarrow>
               upd_session cid (\<lambda>x. x\<lparr>terminalSessionTimer := None\<rparr>) (s\<lparr>timers := (timers s)(t := None)\<rparr>)))"

section \<open>Starting a terminal\<close>

text \<open>\<open>command[0].split\<close>; \<open>None\<close> is the TypeError when \<open>command[0]\<close> is no string.\<close>

definition command_text :: "json \<Rightarrow> string option" where
  "command_text command = (case elem0 command of Some (JStr t) \<Rightarrow> Some t | _ \<Rightarrow> None)"

definition spawn_pty :: "nat \<Rightarrow> nat \<Rightarrow> string list \<Rightarrow> server \<Rightarrow> server" where
  "spawn_pty ws cid args s =
     (let pid = next_id s; tid = Suc (next_id s);
          s1 = s\<lparr>ptys := (ptys s)(pid \<mapsto> \<lparr>pty_owner = cid, pty_ws = ws, pty_args = args, pty_live = True, pty_ops = []\<rparr>),
                 timers := (timers s)(tid \<mapsto> (userId (session_of s cid), getTerminalSessionTimeout * 1000)),
                 next_id := Suc tid\<rparr>
      in ws_send ws (OText ''pty-ready'')
           (upd_session cid (\<lambda>x. x\<lparr>ptyProcess := Some pid, isActive := True, terminalSessionTimer := Some tid\<rparr>) s1))"

text \<open>
  \<open>handleCommand\<close> after a running terminal has been ended: the guards in the source's order, with
  \<open>cid\<close> the session the user id was found to have and \<open>ws\<close> the socket the command came from.
\<close>

definition run_command :: "nat \<Rightarrow> nat \<Rightarrow> json \<Rightarrow> server \<Rightarrow> server" where
  "run_command ws cid command s0 =
     (let s = clear_session_timer cid s0 in
      case command_text command of
        None \<Rightarrow> reject s
      | Some text \<Rightarrow>
          let commandString = replace_char LF SP text;
              args = extractSshArgs commandString;
              hereDocContent = extractHereDocContent commandString;
              target = extractTargetHost args;
              ips = authorizedIPs (session_of s cid)
          in if \<not> truthy_str target
             then ws_send ws (OText ''Invalid SSH command: No target host found'') s
             else (case check_target target ips of
                     None \<Rightarrow> reject s
                   | Some ok \<Rightarrow>
                       if \<not> ok
                       then ws_send ws (OText (''Unauthorized: Target host '' @ the target @ '' not in authorized list'')) s
                       else if \<not> validateSshArgs args (host_names ips)
                       then ws_send ws (OText ''Invalid SSH command: Unsupported SSH arguments'') s
                       else spawn_pty ws cid (sanitizeSshArgs args @ [hereDocContent]) s))"

section \<open>Ending a terminal\<close>

definition KILL_TEXT :: string where
  "KILL_TEXT = ''set +o history'' @ [LF] @ ''kill -TERM -$$ && exit'' @ [LF] @ ''set -o history'' @ [LF]"

definition maxAttempts :: nat where
  "maxAttempts = 5"

text \<open>The promise of \<open>killPtyProcess\<close> settles with \<open>ok\<close>.\<close>

definition kill_resolve :: "nat \<Rightarrow> kill_cont \<Rightarrow> bool \<Rightarrow> server \<Rightarrow> server" where
  "kill_resolve cid cont ok s =
     (case cont of
        KIgnore \<Rightarrow> s
      | KDelete uid \<Rightarrow> s\<lparr>userSessions := (userSessions s)(uid := None)\<rparr>
      | KCommand ws command \<Rightarrow>
          if ok then run_command ws cid command s else ws_send ws (OText ''unprocessable'') s)"

definition attemptKill :: "nat \<Rightarrow> nat \<Rightarrow> kill_cont \<Rightarrow> server \<Rightarrow> server" where
  "attemptKill cid killAttempts cont s =
     (let s1 = pty_do (ptyProcess (session_of s cid)) (PWrite (JStr KILL_TEXT)) s in
      s1\<lparr>kills := (kills s1)(next_id s1 \<mapsto>
            \<lparr>kt_session = cid, kt_attempts = Suc killAttempts, kt_cont = cont\<rparr>),
         next_id := Suc (next_id s1)\<rparr>)"

definition killPtyProcess :: "string \<Rightarrow> kill_cont \<Rightarrow> server \<Rightarrow> server" where
  "killPtyProcess uid cont s =
     (case userSessions s uid of
        None \<Rightarrow> kill_resolve 0 cont False s
      | Some cid \<Rightarrow>
          if ptyProcess (session_of s cid) = None then kill_resolve cid cont False s
          else attemptKill cid 0 cont s)"

text \<open>The 500 ms timer of one attempt.\<close>

definition kill_check :: "nat \<Rightarrow> server \<Rightarrow> server" where
  "kill_check kid s =
     (case kills s kid of
        None \<Rightarrow> s
      | Some t \<Rightarrow>
          let cid = kt_session t; ss = session_of s cid; s1 = s\<lparr>kills := (kills s)(kid := None)\<rparr> in
          if \<not> isActive ss \<or> ptyProcess ss = None
          then kill_resolve cid (kt_cont t) True (clear_session_timer cid s1)
          else if kt_attempts t < maxAttempts then attemptKill cid (kt_attempts t) (kt_cont t) s1
          else kill_resolve cid (kt_cont t) False s1)"

definition handleCommand :: "nat \<Rightarrow> json \<Rightarrow> string \<Rightarrow> server \<Rightarrow> server" where
  "handleCommand ws command uid s =
     (case userSessions s uid of
        None \<Rightarrow> reject s
      | Some cid \<Rightarrow>
          if isActive (session_of s cid) then killPtyProcess uid (KCommand ws command) s
          else run_command ws cid command s)"

definition handleError :: "string \<Rightarrow> server \<Rightarrow> server" where
  "handleError uid s = killPtyProcess uid KIgnore s"

definition handleClose :: "string \<Rightarrow> server \<Rightarrow> server" where
  "handleClose uid s = killPtyProcess uid (KDelete uid) s"

section \<open>Messages\<close>

datatype handler =
  HMessage | HResize | HPause | HResume | HPing | HCheckActive | HCommand | HInherited string

text \<open>
  \<open>messageHandlers\<close> is a plain object: looking a key up also finds what \<open>Object.prototype\<close> has.
\<close>

definition object_prototype :: "string list" where
  "object_prototype =
     [''constructor'', ''__defineGetter__'', ''__defineSetter__'', ''hasOwnProperty'',
      ''__lookupGetter__'', ''__lookupSetter__'', ''isPrototypeOf'', ''propertyIsEnumerable'',
      ''toString'', ''valueOf'', ''__proto__'', ''toLocaleString'']"

definition messageHandlers :: "string \<Rightarrow> handler option" where
  "messageHandlers key =
     (if key = ''message'' then Some HMessage
      else if key = ''resize'' then Some HResize
      else if key = ''pause'' then Some HPause
      else if key = ''resume'' then Some HResume
      else if key = ''ping'' then Some HPing
      else if key = ''checkActive'' then Some HCheckActive
      else if key = ''command'' then Some HCommand
      else if key \<in> set object_prototype then Some (HInherited key)
      else None)"

definition or_default :: "json option \<Rightarrow> json \<Rightarrow> json" where
  "or_default v d = (if gt_zero v then the v else d)"

text \<open>
  The call \<open>handler(userSession, value)\<close>, with \<open>this\<close> undefined. Of the inherited functions only
  \<open>Object\<close> itself and \<open>toString\<close> accept that; the others throw, and \<open>__proto__\<close> is no function.
\<close>

definition call_handler :: "handler \<Rightarrow> nat \<Rightarrow> json \<Rightarrow> server \<Rightarrow> server" where
  "call_handler h cid v s =
     (let ss = session_of s cid in
      case h of
        HMessage \<Rightarrow> pty_do (ptyProcess ss) (PWrite v) s
      | HResize \<Rightarrow>
          if v = JNull then crash s
          else pty_do (ptyProcess ss)
                 (PResize (or_default (get_prop ''cols'' v) (JNum 80)) (or_default (get_prop ''rows'' v) (JNum 30))) s
      | HPause \<Rightarrow> pty_do (ptyProcess ss) PPause s
      | HResume \<Rightarrow> pty_do (ptyProcess ss) PResume s
      | HPing \<Rightarrow> ws_send cid (OText ''pong'') s
      | HCheckActive \<Rightarrow>
          if v = JStr ''force'' \<and> isActive ss then killPtyProcess (userId ss) KIgnore s
          else ws_send cid (OJson (JBool (isActive ss))) s
      | HCommand \<Rightarrow> handleCommand cid v (userId ss) s
      | HInherited k \<Rightarrow> if k = ''constructor'' \<or> k = ''toString'' then s else crash s)"

definition always_handled :: "string \<Rightarrow> bool" where
  "always_handled key \<longleftrightarrow> key = ''checkActive'' \<or> key = ''command'' \<or> key = ''ping''"

definition handle_entry :: "nat \<Rightarrow> string \<times> json \<Rightarrow> server \<Rightarrow> server" where
  "handle_entry cid kv s =
     (if crashed s then s
      else case messageHandlers (fst kv) of
        None \<Rightarrow> s
      | Some h \<Rightarrow>
          if isActive (session_of s cid) \<or> always_handled (fst kv) then call_handler h cid (snd kv) s else s)"

definition parseMessage :: "string \<Rightarrow> json option" where
  "parseMessage message = json_parse message"

definition handleMessage :: "nat \<Rightarrow> string \<Rightarrow> server \<Rightarrow> server" where
  "handleMessage cid message s0 =
     (let s = s0\<lparr>handled := handled s0 @ [(cid, message)]\<rparr> in
      case parseMessage message of
        None \<Rightarrow> s
      | Some parsed \<Rightarrow> if truthy parsed then fold (handle_entry cid) (entries parsed) s else s)"

section \<open>Connections\<close>

definition new_session :: "string \<Rightarrow> session" where
  "new_session uid =
     \<lparr>userId = uid, ptyProcess = None, isActive = False, authorizedIPs = JArr [], authReady = False,
      pendingMessages = [], terminalSessionTimer = None, awaitingIps = True\<rparr>"

definition on_connection :: "nat \<Rightarrow> string \<Rightarrow> session_cookie \<Rightarrow> server \<Rightarrow> server" where
  "on_connection cid uid c s =
     (let s1 = s\<lparr>sessions := (sessions s)(cid \<mapsto> new_session uid),
                 sockets := (sockets s)(cid \<mapsto> \<lparr>sock_state = Open, isAlive = True\<rparr>)\<rparr> in
      if \<not> has_tokens c
      then ws_close cid 401 ''Unauthorized: Missing required tokens''
             (upd_session cid (\<lambda>x. x\<lparr>awaitingIps := False\<rparr>) s1)
      else s1)"

text \<open>The \<open>while\<close> loop that drains the buffered messages; an exception ends it.\<close>

fun drain :: "nat \<Rightarrow> string list \<Rightarrow> server \<Rightarrow> server" where
  "drain cid [] s = s"
| "drain cid (m # ms) s =
     (if crashed s then s
      else drain cid ms (handleMessage cid m (upd_session cid (\<lambda>x. x\<lparr>pendingMessages := ms\<rparr>) s)))"

text \<open>The backend's answer to \<open>/terminal/auth/ips\<close> and what the connection handler does with it.\<close>

definition on_ips :: "nat \<Rightarrow> http_reply \<Rightarrow> server \<Rightarrow> server" where
  "on_ips cid r s0 =
     (let s = upd_session cid (\<lambda>x. x\<lparr>awaitingIps := False\<rparr>) s0 in
      case fetch_ips r of
        None \<Rightarrow> ws_close cid 1011 ''Failed to fetch terminal authorization data'' s
      | Some ips \<Rightarrow>
          let s1 = upd_session cid (\<lambda>x. x\<lparr>authorizedIPs := ips, authReady := True\<rparr>)
                     (s\<lparr>userSessions := (userSessions s)(userId (session_of s cid) \<mapsto> cid)\<rparr>)
          in drain cid (pendingMessages (session_of s1 cid)) s1)"

definition on_message :: "nat \<Rightarrow> string \<Rightarrow> server \<Rightarrow> server" where
  "on_message cid message s =
     (if authReady (session_of s cid) then handleMessage cid message s
      else upd_session cid (\<lambda>x. x\<lparr>pendingMessages := pendingMessages x @ [message]\<rparr>) s)"

definition on_close :: "nat \<Rightarrow> server \<Rightarrow> server" where
  "on_close cid s =
     handleClose (userId (session_of s cid)) (upd_socket cid (\<lambda>k. k\<lparr>sock_state := Closed\<rparr>) s)"

definition on_error :: "nat \<Rightarrow> server \<Rightarrow> server" where
  "on_error cid s = handleError (userId (session_of s cid)) s"

definition on_pong :: "nat \<Rightarrow> server \<Rightarrow> server" where
  "on_pong cid s = upd_socket cid (\<lambda>k. k\<lparr>isAlive := True\<rparr>) s"

text \<open>One client's turn in \<open>wss.clients.forEach\<close>; the set holds the sockets not yet closed.\<close>

definition heartbeat_client :: "nat \<Rightarrow> server \<Rightarrow> server" where
  "heartbeat_client cid s =
     (case sockets s cid of
        None \<Rightarrow> s
      | Some k \<Rightarrow>
          if sock_state k = Closed then s
          else if \<not> isAlive k
          then upd_socket cid (\<lambda>k. k\<lparr>sock_state := Closing\<rparr>) (ws_send cid OTerminate s)
          else upd_socket cid (\<lambda>k. k\<lparr>isAlive := False\<rparr>) (ws_send cid OPing s))"

definition on_heartbeat :: "nat list \<Rightarrow> server \<Rightarrow> server" where
  "on_heartbeat clients s = fold heartbeat_client clients s"

definition on_pty_data :: "nat \<Rightarrow> string \<Rightarrow> server \<Rightarrow> server" where
  "on_pty_data pid d s =
     (case ptys s pid of None \<Rightarrow> s | Some p \<Rightarrow> ws_send (pty_ws p) (OText d) s)"

definition on_pty_exit :: "nat \<Rightarrow> server \<Rightarrow> server" where
  "on_pty_exit pid s =
     (case ptys s pid of
        None \<Rightarrow> s
      | Some p \<Rightarrow>
          let cid = pty_owner p;
              s1 = ws_send (pty_ws p) (OText ''pty-exited'') (s\<lparr>ptys := (ptys s)(pid \<mapsto> p\<lparr>pty_live := False\<rparr>)\<rparr>)
          in clear_session_timer cid (upd_session cid (\<lambda>x. x\<lparr>isActive := False\<rparr>) s1))"

definition on_session_timeout :: "nat \<Rightarrow> server \<Rightarrow> server" where
  "on_session_timeout tid s =
     (case timers s tid of
        None \<Rightarrow> s
      | Some (uid, _) \<Rightarrow> killPtyProcess uid KIgnore (s\<lparr>timers := (timers s)(tid := None)\<rparr>))"

section \<open>The event loop\<close>

datatype event =
    Connection nat string session_cookie
  | IpsReply nat http_reply
  | Message nat string
  | SockClose nat
  | SockError nat
  | Pong nat
  | Heartbeat "nat list"
  | PtyData nat string
  | PtyExit nat
  | KillTimer nat
  | SessionTimer nat

fun react :: "event \<Rightarrow> server \<Rightarrow> server" where
  "react (Connection cid uid c) s = on_connection cid uid c s"
| "react (IpsReply cid r) s = on_ips cid r s"
| "react (Message cid m) s = on_message cid m s"
| "react (SockClose cid) s = on_close cid s"
| "react (SockError cid) s = on_error cid s"
| "react (Pong cid) s = on_pong cid s"
| "react (Heartbeat clients) s = on_heartbeat clients s"
| "react (PtyData pid d) s = on_pty_data pid d s"
| "react (PtyExit pid) s = on_pty_exit pid s"
| "react (KillTimer kid) s = kill_check kid s"
| "react (SessionTimer tid) s = on_session_timeout tid s"

definition server_step :: "server \<Rightarrow> event \<Rightarrow> server" where
  "server_step s e = (if crashed s then s else end_turn (react e s))"

definition live_socket :: "server \<Rightarrow> nat \<Rightarrow> bool" where
  "live_socket s cid \<longleftrightarrow> (case sockets s cid of None \<Rightarrow> False | Some k \<Rightarrow> sock_state k \<noteq> Closed)"

text \<open>
  Which events can come: a connection is accepted by \<open>verifyClient\<close>, which checks the same request's
  tokens; the backend answers a request once; a socket is silent after its close event; a terminal
  speaks while it lives; timers fire while set. A user id is whatever \<open>generateUserId\<close> draws: that
  it is new is not assumed.
\<close>

fun event_ok :: "server \<Rightarrow> event \<Rightarrow> bool" where
  "event_ok s (Connection cid uid c) =
     (sessions s cid = None \<and> sockets s cid = None \<and> has_tokens c)"
| "event_ok s (IpsReply cid r) =
     (case sessions s cid of None \<Rightarrow> False | Some ss \<Rightarrow> awaitingIps ss)"
| "event_ok s (Message cid m) = (sessions s cid \<noteq> None \<and> live_socket s cid)"
| "event_ok s (SockClose cid) = (sessions s cid \<noteq> None \<and> live_socket s cid)"
| "event_ok s (SockError cid) = (sessions s cid \<noteq> None \<and> live_socket s cid)"
| "event_ok s (Pong cid) = live_socket s cid"
| "event_ok s (Heartbeat clients) = True"
| "event_ok s (PtyData pid d) = (case ptys s pid of None \<Rightarrow> False | Some p \<Rightarrow> pty_live p)"
| "event_ok s (PtyExit pid) = (case ptys s pid of None \<Rightarrow> False | Some p \<Rightarrow> pty_live p)"
| "event_ok s (KillTimer kid) = (kills s kid \<noteq> None)"
| "event_ok s (SessionTimer tid) = (timers s tid \<noteq> None)"

end
