(* ===== verification/Server_Safety.thy ===== *)
theory Server_Safety imports Terminal_Server begin

text \<open>
  The safety of the terminal server over every run of events. The invariant ties a session to its
  pseudo-terminal (active exactly while its own process lives), every process to an accepted and
  cleaned \<open>ssh\<close> command line for a host its session is authorised for, and every pending
  termination to a session that has a terminal.
\<close>

section \<open>The invariant\<close>

definition active_ok :: "server \<Rightarrow> bool" where
  "active_ok s \<longleftrightarrow> (\<forall>cid ss. sessions s cid = Some ss \<longrightarrow> isActive ss \<longrightarrow>
     terminalSessionTimer ss \<noteq> None \<and>
     (\<exists>pid p. ptyProcess ss = Some pid \<and> ptys s pid = Some p \<and> pty_live p \<and> pty_owner p = cid))"

definition live_ok :: "server \<Rightarrow> bool" where
  "live_ok s \<longleftrightarrow> (\<forall>pid p. ptys s pid = Some p \<longrightarrow> pty_live p \<longrightarrow>
     (\<exists>ss. sessions s (pty_owner p) = Some ss \<and> isActive ss \<and> ptyProcess ss = Some pid))"

definition args_ok :: "server \<Rightarrow> bool" where
  "args_ok s \<longleftrightarrow> (\<forall>pid p. ptys s pid = Some p \<longrightarrow>
     (\<exists>ss. sessions s (pty_owner p) = Some ss \<and> authReady ss \<and>
        (\<exists>args here. pty_args p = args @ [here] \<and> safe_command args (host_names (authorizedIPs ss)))))"

definition map_ok :: "server \<Rightarrow> bool" where
  "map_ok s \<longleftrightarrow> (\<forall>uid cid. userSessions s uid = Some cid \<longrightarrow>
     (\<exists>ss. sessions s cid = Some ss \<and> authReady ss))"

definition kill_ok :: "server \<Rightarrow> bool" where
  "kill_ok s \<longleftrightarrow> (\<forall>kid t. kills s kid = Some t \<longrightarrow>
     (\<exists>ss. sessions s (kt_session t) = Some ss \<and> authReady ss \<and> ptyProcess ss \<noteq> None))"

definition fresh_ok :: "server \<Rightarrow> bool" where
  "fresh_ok s \<longleftrightarrow> (\<forall>n. ptys s n \<noteq> None \<or> kills s n \<noteq> None \<longrightarrow> n < next_id s)"

definition wait_ok :: "server \<Rightarrow> bool" where
  "wait_ok s \<longleftrightarrow> (\<forall>cid ss. sessions s cid = Some ss \<longrightarrow> awaitingIps ss \<longrightarrow> \<not> authReady ss)"

definition server_inv :: "server \<Rightarrow> bool" where
  "server_inv s \<longleftrightarrow>
     active_ok s \<and> live_ok s \<and> args_ok s \<and> map_ok s \<and> kill_ok s \<and> fresh_ok s \<and> wait_ok s"

lemmas inv_parts = active_ok_def live_ok_def args_ok_def map_ok_def kill_ok_def fresh_ok_def wait_ok_def

named_theorems inv_intros \<open>preservation of the invariant\<close>

lemma server_inv_init: "server_inv server_init"
  by (simp add: server_inv_def inv_parts server_init_def)

section \<open>Frames\<close>

lemma server_inv_cong:
  assumes "server_inv s" "sessions t = sessions s" "ptys t = ptys s"
    "userSessions t = userSessions s" "kills t = kills s" "next_id s \<le> next_id t"
  shows "server_inv t"
proof -
  have "fresh_ok t" using assms(1,3,6) unfolding server_inv_def fresh_ok_def by (metis assms(5) less_le_trans)
  moreover have "active_ok t = active_ok s" "live_ok t = live_ok s" "args_ok t = args_ok s"
    "map_ok t = map_ok s" "kill_ok t = kill_ok s" "wait_ok t = wait_ok s"
    unfolding active_ok_def live_ok_def args_ok_def map_ok_def kill_ok_def wait_ok_def
    by (simp_all only: assms(2-5))
  ultimately show ?thesis using assms(1) by (simp add: server_inv_def)
qed

lemma ws_send_frame [simp]:
  "sessions (ws_send c x s) = sessions s" "ptys (ws_send c x s) = ptys s"
  "userSessions (ws_send c x s) = userSessions s" "kills (ws_send c x s) = kills s"
  "next_id (ws_send c x s) = next_id s" "crashed (ws_send c x s) = crashed s" "rejected (ws_send c x s) = rejected s"
  "sockets (ws_send c x s) = sockets s" "timers (ws_send c x s) = timers s"
  "handled (ws_send c x s) = handled s"
  by (simp_all add: ws_send_def)

lemma upd_socket_frame [simp]:
  "sessions (upd_socket c f s) = sessions s" "ptys (upd_socket c f s) = ptys s"
  "userSessions (upd_socket c f s) = userSessions s" "kills (upd_socket c f s) = kills s"
  "next_id (upd_socket c f s) = next_id s" "crashed (upd_socket c f s) = crashed s" "rejected (upd_socket c f s) = rejected s"
  "timers (upd_socket c f s) = timers s" "handled (upd_socket c f s) = handled s"
  by (simp_all add: upd_socket_def)

lemma upd_session_frame [simp]:
  "ptys (upd_session c f s) = ptys s" "userSessions (upd_session c f s) = userSessions s"
  "kills (upd_session c f s) = kills s" "next_id (upd_session c f s) = next_id s"
  "crashed (upd_session c f s) = crashed s" "rejected (upd_session c f s) = rejected s" "sockets (upd_session c f s) = sockets s"
  "timers (upd_session c f s) = timers s" "handled (upd_session c f s) = handled s"
  by (simp_all add: upd_session_def)

lemma sessions_upd_session [simp]:
  "sessions (upd_session c f s) d = (if d = c then map_option f (sessions s c) else sessions s d)"
  by (simp add: upd_session_def)

lemma ws_close_frame [simp]:
  "sessions (ws_close c n r s) = sessions s" "ptys (ws_close c n r s) = ptys s"
  "userSessions (ws_close c n r s) = userSessions s" "kills (ws_close c n r s) = kills s"
  "next_id (ws_close c n r s) = next_id s" "crashed (ws_close c n r s) = crashed s" "rejected (ws_close c n r s) = rejected s"
  "timers (ws_close c n r s) = timers s" "handled (ws_close c n r s) = handled s"
  by (simp_all add: ws_close_def)

lemma inv_ws_send [inv_intros]: "server_inv s \<Longrightarrow> server_inv (ws_send c x s)"
  by (erule server_inv_cong) simp_all

lemma inv_upd_socket [inv_intros]: "server_inv s \<Longrightarrow> server_inv (upd_socket c f s)"
  by (erule server_inv_cong) simp_all

lemma inv_ws_close [inv_intros]: "server_inv s \<Longrightarrow> server_inv (ws_close c n r s)"
  by (erule server_inv_cong) simp_all

lemma inv_crash [inv_intros]: "server_inv s \<Longrightarrow> server_inv (crash s)"
  by (erule server_inv_cong) (simp_all add: crash_def)

lemma inv_reject [inv_intros]: "server_inv s \<Longrightarrow> server_inv (reject s)"
  by (erule server_inv_cong) (simp_all add: reject_def)

lemma inv_end_turn [inv_intros]: "server_inv s \<Longrightarrow> server_inv (end_turn s)"
  by (simp add: end_turn_def inv_crash)

lemma inv_timers [inv_intros]: "server_inv s \<Longrightarrow> server_inv (s\<lparr>timers := x\<rparr>)"
  by (erule server_inv_cong) simp_all

lemma inv_handled [inv_intros]: "server_inv s \<Longrightarrow> server_inv (s\<lparr>handled := x\<rparr>)"
  by (erule server_inv_cong) simp_all

lemma inv_unset_user [inv_intros]:
  "server_inv s \<Longrightarrow> server_inv (s\<lparr>userSessions := (userSessions s)(uid := None)\<rparr>)"
  by (simp add: server_inv_def inv_parts)

lemma inv_unset_kill [inv_intros]:
  "server_inv s \<Longrightarrow> server_inv (s\<lparr>kills := (kills s)(kid := None)\<rparr>)"
  by (simp add: server_inv_def inv_parts)

text \<open>A session update that leaves the fields of the invariant alone.\<close>

lemma inv_upd_session:
  assumes inv: "server_inv s"
    and f: "\<And>x. sessions s cid = Some x \<Longrightarrow> ptyProcess (f x) = ptyProcess x \<and> isActive (f x) = isActive x
      \<and> authReady (f x) = authReady x \<and> authorizedIPs (f x) = authorizedIPs x
      \<and> (isActive x \<longrightarrow> terminalSessionTimer x \<noteq> None \<longrightarrow> terminalSessionTimer (f x) \<noteq> None)
      \<and> (awaitingIps (f x) \<longrightarrow> awaitingIps x)"
  shows "server_inv (upd_session cid f s)"
proof -
  from inv have parts: "active_ok s" "live_ok s" "args_ok s" "map_ok s" "kill_ok s" "fresh_ok s" "wait_ok s"
    by (auto simp: server_inv_def)
  have "active_ok (upd_session cid f s)"
    using parts(1) f unfolding active_ok_def by (auto split: if_splits)
  moreover have "live_ok (upd_session cid f s)"
    using parts(2) f unfolding live_ok_def by fastforce
  moreover have "args_ok (upd_session cid f s)"
    using parts(3) f unfolding args_ok_def by fastforce
  moreover have "map_ok (upd_session cid f s)"
    using parts(4) f unfolding map_ok_def by fastforce
  moreover have "kill_ok (upd_session cid f s)"
    using parts(5) f unfolding kill_ok_def by fastforce
  moreover have "fresh_ok (upd_session cid f s)"
    using parts(6) unfolding fresh_ok_def by simp
  moreover have "wait_ok (upd_session cid f s)"
    using parts(7) f unfolding wait_ok_def by (auto split: if_splits)
  ultimately show ?thesis by (simp add: server_inv_def)
qed

lemma inv_pending [inv_intros]:
  "server_inv s \<Longrightarrow> server_inv (upd_session cid (\<lambda>x. x\<lparr>pendingMessages := g x\<rparr>) s)"
  by (rule inv_upd_session) auto

lemma inv_awaiting [inv_intros]:
  "server_inv s \<Longrightarrow> server_inv (upd_session cid (\<lambda>x. x\<lparr>awaitingIps := False\<rparr>) s)"
  by (rule inv_upd_session) auto

lemma inv_clear_timer:
  assumes "server_inv s" "\<And>ss. sessions s cid = Some ss \<Longrightarrow> \<not> isActive ss"
  shows "server_inv (clear_session_timer cid s)"
proof -
  have "server_inv (upd_session cid (\<lambda>x. x\<lparr>terminalSessionTimer := None\<rparr>) (s\<lparr>timers := t\<rparr>))" for t
    using assms by (intro inv_upd_session inv_timers) auto
  with assms(1) show ?thesis by (simp add: clear_session_timer_def split: option.splits)
qed

lemma inv_pty_do [inv_intros]: "server_inv s \<Longrightarrow> server_inv (pty_do pid x s)"
proof (cases pid)
  case None
  then show "server_inv s \<Longrightarrow> ?thesis"
    by (auto simp: pty_do_def intro: server_inv_cong)
next
  case (Some p)
  assume inv: "server_inv s"
  let ?t = "pty_do (Some p) x s"
  have q: "ptys ?t q = (if q = p then map_option (\<lambda>q. q\<lparr>pty_ops := pty_ops q @ [x]\<rparr>) (ptys s p) else ptys s q)" for q
    by (simp add: pty_do_def)
  have r: "sessions ?t = sessions s" "userSessions ?t = userSessions s" "kills ?t = kills s"
    "next_id ?t = next_id s" by (simp_all add: pty_do_def)
  have "active_ok ?t" using inv unfolding server_inv_def active_ok_def q r by fastforce
  moreover have "live_ok ?t" using inv unfolding server_inv_def live_ok_def q r by (auto split: if_splits)
  moreover have "args_ok ?t" using inv unfolding server_inv_def args_ok_def q r by (auto split: if_splits)
  moreover have "map_ok ?t" "kill_ok ?t" "wait_ok ?t"
    using inv unfolding server_inv_def map_ok_def kill_ok_def wait_ok_def r by auto
  moreover have "fresh_ok ?t" using inv unfolding server_inv_def fresh_ok_def q r by (auto split: if_splits)
  ultimately show ?thesis using Some by (simp add: server_inv_def)
qed

section \<open>Starting and ending terminals\<close>

lemma pty_do_frame [simp]:
  "sessions (pty_do pid x s) = sessions s" "userSessions (pty_do pid x s) = userSessions s"
  "kills (pty_do pid x s) = kills s" "next_id (pty_do pid x s) = next_id s"
  "handled (pty_do pid x s) = handled s" "sockets (pty_do pid x s) = sockets s"
  "timers (pty_do pid x s) = timers s"
  by (simp_all add: pty_do_def split: option.splits)

lemma clear_timer_frame [simp]:
  "ptys (clear_session_timer c s) = ptys s" "userSessions (clear_session_timer c s) = userSessions s"
  "kills (clear_session_timer c s) = kills s" "next_id (clear_session_timer c s) = next_id s"
  "handled (clear_session_timer c s) = handled s" "sockets (clear_session_timer c s) = sockets s"
  "crashed (clear_session_timer c s) = crashed s" "rejected (clear_session_timer c s) = rejected s"
  by (simp_all add: clear_session_timer_def split: option.splits)

lemma sessions_clear_timer:
  "sessions (clear_session_timer c s) d =
     (if d = c then map_option (\<lambda>x. x\<lparr>terminalSessionTimer := None\<rparr>) (sessions s c) else sessions s d)"
  by (auto simp: clear_session_timer_def split: option.splits)

lemma ptys_spawn:
  "ptys (spawn_pty ws cid args s) q = (if q = next_id s
     then Some \<lparr>pty_owner = cid, pty_ws = ws, pty_args = args, pty_live = True, pty_ops = []\<rparr> else ptys s q)"
  by (simp add: spawn_pty_def Let_def)

lemma sessions_spawn:
  "sessions (spawn_pty ws cid args s) d = (if d = cid
     then map_option (\<lambda>x. x\<lparr>ptyProcess := Some (next_id s), isActive := True,
       terminalSessionTimer := Some (Suc (next_id s))\<rparr>) (sessions s cid) else sessions s d)"
  by (simp add: spawn_pty_def Let_def)

lemma spawn_frame [simp]:
  "userSessions (spawn_pty ws cid args s) = userSessions s" "kills (spawn_pty ws cid args s) = kills s"
  "next_id (spawn_pty ws cid args s) = Suc (Suc (next_id s))" "handled (spawn_pty ws cid args s) = handled s"
  "sockets (spawn_pty ws cid args s) = sockets s" "crashed (spawn_pty ws cid args s) = crashed s" "rejected (spawn_pty ws cid args s) = rejected s"
  by (simp_all add: spawn_pty_def Let_def)

lemma fresh_pty: "fresh_ok s \<Longrightarrow> ptys s (next_id s) = None"
  unfolding fresh_ok_def by blast

lemma spawn_active:
  assumes "active_ok s" "fresh_ok s"
  shows "active_ok (spawn_pty ws cid args s)"
  unfolding active_ok_def
proof (intro allI impI)
  let ?t = "spawn_pty ws cid args s"
  fix d x assume d: "sessions ?t d = Some x" "isActive x"
  show "terminalSessionTimer x \<noteq> None \<and>
    (\<exists>pid p. ptyProcess x = Some pid \<and> ptys ?t pid = Some p \<and> pty_live p \<and> pty_owner p = d)"
  proof (cases "d = cid")
    case True
    with d show ?thesis by (auto simp: sessions_spawn ptys_spawn)
  next
    case False
    with d have "sessions s d = Some x" by (simp add: sessions_spawn)
    with d(2) assms(1) obtain pid p where "terminalSessionTimer x \<noteq> None" "ptyProcess x = Some pid"
      "ptys s pid = Some p" "pty_live p" "pty_owner p = d"
      unfolding active_ok_def by blast
    moreover from this fresh_pty [OF assms(2)] have "pid \<noteq> next_id s" by auto
    ultimately show ?thesis by (simp add: ptys_spawn)
  qed
qed

lemma spawn_live:
  assumes "live_ok s" "sessions s cid = Some ss" "\<not> isActive ss"
  shows "live_ok (spawn_pty ws cid args s)"
  unfolding live_ok_def
proof (intro allI impI)
  let ?t = "spawn_pty ws cid args s"
  fix q p assume q: "ptys ?t q = Some p" "pty_live p"
  show "\<exists>x. sessions ?t (pty_owner p) = Some x \<and> isActive x \<and> ptyProcess x = Some q"
  proof (cases "q = next_id s")
    case True
    with q assms(2) show ?thesis by (auto simp: ptys_spawn sessions_spawn)
  next
    case False
    with q have "ptys s q = Some p" by (simp add: ptys_spawn)
    with q(2) assms(1) obtain x where x: "sessions s (pty_owner p) = Some x" "isActive x" "ptyProcess x = Some q"
      unfolding live_ok_def by blast
    with assms(2,3) have "pty_owner p \<noteq> cid" by auto
    with x show ?thesis by (simp add: sessions_spawn)
  qed
qed

lemma spawn_args:
  assumes "args_ok s" "sessions s cid = Some ss" "authReady ss" "safe_command args (host_names (authorizedIPs ss))"
  shows "args_ok (spawn_pty ws cid (args @ [here]) s)"
  unfolding args_ok_def
proof (intro allI impI)
  let ?t = "spawn_pty ws cid (args @ [here]) s"
  fix q p assume q: "ptys ?t q = Some p"
  show "\<exists>x. sessions ?t (pty_owner p) = Some x \<and> authReady x \<and>
    (\<exists>args here. pty_args p = args @ [here] \<and> safe_command args (host_names (authorizedIPs x)))"
  proof (cases "q = next_id s")
    case True
    with q assms(2-4) show ?thesis by (auto simp: ptys_spawn sessions_spawn)
  next
    case False
    with q have "ptys s q = Some p" by (simp add: ptys_spawn)
    with assms(1) obtain x args' here' where "sessions s (pty_owner p) = Some x" "authReady x"
      "pty_args p = args' @ [here']" "safe_command args' (host_names (authorizedIPs x))"
      unfolding args_ok_def by blast
    then show ?thesis by (auto simp: sessions_spawn)
  qed
qed

lemma spawn_rest:
  assumes "map_ok s" "kill_ok s" "fresh_ok s" "wait_ok s"
  shows "map_ok (spawn_pty ws cid args s)" "kill_ok (spawn_pty ws cid args s)"
    "fresh_ok (spawn_pty ws cid args s)" "wait_ok (spawn_pty ws cid args s)"
proof -
  show "map_ok (spawn_pty ws cid args s)"
    using assms(1) unfolding map_ok_def sessions_spawn spawn_frame by force
  show "kill_ok (spawn_pty ws cid args s)"
    using assms(2) unfolding kill_ok_def sessions_spawn spawn_frame by force
  show "fresh_ok (spawn_pty ws cid args s)"
    using assms(3) unfolding fresh_ok_def ptys_spawn spawn_frame by (auto simp: less_Suc_eq)
  show "wait_ok (spawn_pty ws cid args s)"
    using assms(4) unfolding wait_ok_def sessions_spawn by (auto split: if_splits)
qed

lemma inv_spawn:
  assumes "server_inv s" "sessions s cid = Some ss" "authReady ss" "\<not> isActive ss"
    and "safe_command args (host_names (authorizedIPs ss))"
  shows "server_inv (spawn_pty ws cid (args @ [here]) s)"
  using assms unfolding server_inv_def by (simp add: spawn_active spawn_live spawn_args spawn_rest)

lemma inv_run_command:
  assumes inv: "server_inv s" and ss: "sessions s cid = Some ss" "authReady ss" "\<not> isActive ss"
  shows "server_inv (run_command ws cid command s)"
proof -
  let ?s = "clear_session_timer cid s"
  have i: "server_inv ?s" using inv ss by (intro inv_clear_timer) auto
  have c: "sessions ?s cid = Some (ss\<lparr>terminalSessionTimer := None\<rparr>)" using ss by (simp add: sessions_clear_timer)
  then have so: "authorizedIPs (session_of ?s cid) = authorizedIPs ss" by (simp add: session_of_def)
  have sp: "server_inv (spawn_pty ws cid (sanitizeSshArgs args @ [here]) ?s)"
    if "validateSshArgs args (host_names (authorizedIPs ss))" for args here
    using inv_spawn [OF i c] ss ssh.clean_safe [OF that] by simp
  show ?thesis
    unfolding run_command_def Let_def so using i sp
    by (auto intro: inv_intros split: option.splits)
qed

lemma run_command_rejected:
  assumes "command_text command = Some t" "sessions s cid = Some ss" "host_list (authorizedIPs ss) \<noteq> None"
  shows "rejected (run_command ws cid command s) = rejected s"
  using assms by (simp add: run_command_def Let_def session_of_def sessions_clear_timer check_target_total)

lemma inv_attemptKill:
  assumes inv: "server_inv s" and ss: "sessions s cid = Some ss" "authReady ss" "ptyProcess ss \<noteq> None"
  shows "server_inv (attemptKill cid k cont s)"
proof -
  let ?s = "pty_do (ptyProcess (session_of s cid)) (PWrite (JStr KILL_TEXT)) s"
  have i: "server_inv ?s" using inv by (rule inv_pty_do)
  have fresh: "fresh_ok (attemptKill cid k cont s)"
    using i unfolding server_inv_def fresh_ok_def attemptKill_def Let_def by (auto intro: less_SucI)
  have "kill_ok (attemptKill cid k cont s)"
    using i ss unfolding server_inv_def kill_ok_def attemptKill_def Let_def by (auto split: if_splits)
  with i fresh show ?thesis
    unfolding server_inv_def active_ok_def live_ok_def args_ok_def map_ok_def wait_ok_def
      attemptKill_def Let_def by simp
qed

lemma inv_kill_resolve:
  assumes "server_inv s"
    and "ok \<Longrightarrow> \<exists>ss. sessions s cid = Some ss \<and> authReady ss \<and> \<not> isActive ss"
  shows "server_inv (kill_resolve cid cont ok s)"
  using assms unfolding kill_resolve_def
  by (auto intro: inv_intros inv_run_command split: kill_cont.splits)

lemma map_session:
  assumes "server_inv s" "userSessions s uid = Some cid"
  obtains ss where "sessions s cid = Some ss" "authReady ss" "session_of s cid = ss"
  using assms unfolding server_inv_def map_ok_def session_of_def by force

lemma inv_killPtyProcess [inv_intros]: "server_inv s \<Longrightarrow> server_inv (killPtyProcess uid cont s)"
proof (cases "userSessions s uid")
  case None
  then show "server_inv s \<Longrightarrow> ?thesis" by (simp add: killPtyProcess_def inv_kill_resolve)
next
  case (Some cid)
  assume inv: "server_inv s"
  obtain ss where ss: "sessions s cid = Some ss" "authReady ss" "session_of s cid = ss"
    using map_session [OF inv Some] .
  show ?thesis
  proof (cases "ptyProcess ss = None")
    case True
    with inv Some ss show ?thesis by (simp add: killPtyProcess_def inv_kill_resolve)
  next
    case False
    then have "killPtyProcess uid cont s = attemptKill cid 0 cont s"
      using Some ss by (auto simp: killPtyProcess_def)
    with inv_attemptKill [OF inv ss(1,2) False] show ?thesis by simp
  qed
qed

lemma inv_kill_check [inv_intros]: "server_inv s \<Longrightarrow> server_inv (kill_check kid s)"
proof (cases "kills s kid")
  case None
  then show "server_inv s \<Longrightarrow> ?thesis" by (simp add: kill_check_def)
next
  case (Some t)
  assume inv: "server_inv s"
  then obtain ss where ss: "sessions s (kt_session t) = Some ss" "authReady ss" "ptyProcess ss \<noteq> None"
    using Some unfolding server_inv_def kill_ok_def by blast
  then have so: "session_of s (kt_session t) = ss" by (simp add: session_of_def)
  let ?s = "s\<lparr>kills := (kills s)(kid := None)\<rparr>"
  have i: "server_inv ?s" using inv by (rule inv_unset_kill)
  have s1: "sessions ?s (kt_session t) = Some ss" using ss by simp
  show ?thesis
  proof (cases "isActive ss")
    case False
    have "server_inv (kill_resolve (kt_session t) (kt_cont t) True (clear_session_timer (kt_session t) ?s))"
      using i s1 ss False
      by (intro inv_kill_resolve inv_clear_timer) (auto simp: sessions_clear_timer)
    with Some so False show ?thesis by (simp add: kill_check_def Let_def)
  next
    case True
    have "server_inv (attemptKill (kt_session t) k c ?s)" for k c
      using i s1 ss(2,3) by (rule inv_attemptKill)
    moreover have "server_inv (kill_resolve (kt_session t) c False ?s)" for c
      using i by (intro inv_kill_resolve) auto
    ultimately show ?thesis using Some so True ss(3) by (auto simp: kill_check_def Let_def)
  qed
qed

section \<open>Messages and connections\<close>

lemma inv_handleCommand [inv_intros]:
  assumes "server_inv s"
  shows "server_inv (handleCommand ws command uid s)"
proof (cases "userSessions s uid")
  case (Some cid)
  then obtain ss where "sessions s cid = Some ss" "authReady ss" "session_of s cid = ss"
    using map_session [OF assms] by blast
  with Some assms show ?thesis
    by (simp add: handleCommand_def inv_run_command inv_killPtyProcess)
qed (simp add: handleCommand_def assms inv_reject)

lemma inv_call_handler [inv_intros]: "server_inv s \<Longrightarrow> server_inv (call_handler h cid v s)"
  by (simp add: call_handler_def Let_def inv_intros split: handler.split)

lemma inv_handle_entry: "server_inv s \<Longrightarrow> server_inv (handle_entry cid kv s)"
  by (simp add: handle_entry_def inv_call_handler split: option.split)

lemma inv_entries: "server_inv s \<Longrightarrow> server_inv (fold (handle_entry cid) kvs s)"
  by (induction kvs arbitrary: s) (simp_all add: inv_handle_entry)

lemma inv_handleMessage [inv_intros]: "server_inv s \<Longrightarrow> server_inv (handleMessage cid m s)"
  by (simp add: handleMessage_def Let_def inv_entries inv_handled split: option.split)

lemma inv_drain: "server_inv s \<Longrightarrow> server_inv (drain cid ms s)"
proof (induction ms arbitrary: s)
  case (Cons m ms)
  then show ?case by (simp add: inv_handleMessage inv_pending)
qed simp

lemma inv_heartbeat: "server_inv s \<Longrightarrow> server_inv (on_heartbeat clients s)"
proof -
  have "server_inv t \<Longrightarrow> server_inv (heartbeat_client cid t)" for cid t
    by (simp add: heartbeat_client_def inv_upd_socket inv_ws_send split: option.split)
  then show "server_inv s \<Longrightarrow> ?thesis"
    unfolding on_heartbeat_def by (induction clients arbitrary: s) simp_all
qed

lemma inv_new_session:
  assumes "server_inv s" "sessions s cid = None"
  shows "server_inv (s\<lparr>sessions := (sessions s)(cid \<mapsto> new_session uid), sockets := k\<rparr>)" (is "server_inv ?t")
proof -
  have keep: "sessions s d = Some x \<Longrightarrow> sessions ?t d = Some x" for d x
    using assms(2) by auto
  have new: "sessions ?t d = Some x \<Longrightarrow> sessions s d = Some x \<or> x = new_session uid" for d x
    by (auto split: if_splits)
  have rest: "ptys ?t = ptys s" "userSessions ?t = userSessions s" "kills ?t = kills s" "next_id ?t = next_id s"
    by simp_all
  have "active_ok ?t" using assms(1) new unfolding server_inv_def active_ok_def rest
    by (fastforce simp: new_session_def)
  moreover have "live_ok ?t" using assms(1) keep unfolding server_inv_def live_ok_def rest by blast
  moreover have "args_ok ?t" using assms(1) keep unfolding server_inv_def args_ok_def rest by blast
  moreover have "map_ok ?t" using assms(1) keep unfolding server_inv_def map_ok_def rest by blast
  moreover have "kill_ok ?t" using assms(1) keep unfolding server_inv_def kill_ok_def rest by blast
  moreover have "fresh_ok ?t" using assms(1) unfolding server_inv_def fresh_ok_def rest by blast
  moreover have "wait_ok ?t" using assms(1) new unfolding server_inv_def wait_ok_def
    by (fastforce simp: new_session_def)
  ultimately show ?thesis by (simp add: server_inv_def)
qed

text \<open>A session that still waits for its hosts owns no terminal, so they can be set.\<close>

lemma waiting_owns_nothing:
  assumes "server_inv s" "sessions s cid = Some ss" "\<not> authReady ss"
  shows "\<not> isActive ss" "\<And>pid p. ptys s pid = Some p \<Longrightarrow> pty_owner p \<noteq> cid"
proof -
  show own: "\<And>pid p. ptys s pid = Some p \<Longrightarrow> pty_owner p \<noteq> cid"
    using assms unfolding server_inv_def args_ok_def by fastforce
  show "\<not> isActive ss"
  proof
    assume "isActive ss"
    with assms obtain pid p where "ptys s pid = Some p" "pty_owner p = cid"
      unfolding server_inv_def active_ok_def by blast
    with own show False by blast
  qed
qed

lemma inv_authorize:
  assumes inv: "server_inv s" and ss: "sessions s cid = Some ss" "\<not> authReady ss" "\<not> awaitingIps ss"
  shows "server_inv (upd_session cid (\<lambda>x. x\<lparr>authorizedIPs := ips, authReady := True\<rparr>)
           (s\<lparr>userSessions := (userSessions s)(uid \<mapsto> cid)\<rparr>))" (is "server_inv ?t")
proof -
  note w = waiting_owns_nothing [OF inv ss(1,2)]
  have st: "sessions ?t d = (if d = cid then Some (ss\<lparr>authorizedIPs := ips, authReady := True\<rparr>) else sessions s d)" for d
    using ss by simp
  have rest: "ptys ?t = ptys s" "kills ?t = kills s" "next_id ?t = next_id s"
    "userSessions ?t = (userSessions s)(uid \<mapsto> cid)" by simp_all
  have "active_ok ?t" using inv w(1) unfolding server_inv_def active_ok_def st rest by (auto split: if_splits)
  moreover have "live_ok ?t" using inv w(2) unfolding server_inv_def live_ok_def st rest by simp
  moreover have "args_ok ?t" using inv w(2) unfolding server_inv_def args_ok_def st rest by simp
  moreover have "map_ok ?t" using inv unfolding server_inv_def map_ok_def st rest by auto
  moreover have "kill_ok ?t" using inv ss(1,2) unfolding server_inv_def kill_ok_def st rest by fastforce
  moreover have "fresh_ok ?t" using inv unfolding server_inv_def fresh_ok_def rest by blast
  moreover have "wait_ok ?t" using inv ss(3) unfolding server_inv_def wait_ok_def st by (auto split: if_splits)
  ultimately show ?thesis by (simp add: server_inv_def)
qed

lemma inv_on_ips:
  assumes inv: "server_inv s" and ss: "sessions s cid = Some ss" "awaitingIps ss"
  shows "server_inv (on_ips cid r s)"
proof -
  let ?s = "upd_session cid (\<lambda>x. x\<lparr>awaitingIps := False\<rparr>) s"
  have i: "server_inv ?s" using inv by (rule inv_awaiting)
  have n: "\<not> authReady ss" using inv ss unfolding server_inv_def wait_ok_def by blast
  have c: "sessions ?s cid = Some (ss\<lparr>awaitingIps := False\<rparr>)" using ss by simp
  have "server_inv (upd_session cid (\<lambda>x. x\<lparr>authorizedIPs := ips, authReady := True\<rparr>)
           (?s\<lparr>userSessions := (userSessions ?s)(uid \<mapsto> cid)\<rparr>))" for ips uid
    using inv_authorize [OF i c] n by simp
  with i show ?thesis unfolding on_ips_def Let_def
    by (auto intro: inv_drain inv_ws_close split: option.split)
qed

lemma inv_pty_exit:
  assumes inv: "server_inv s" and p: "ptys s pid = Some p" "pty_live p"
  shows "server_inv (on_pty_exit pid s)"
proof -
  let ?cid = "pty_owner p"
  obtain ss where ss: "sessions s ?cid = Some ss" "ptyProcess ss = Some pid"
    using inv p unfolding server_inv_def live_ok_def by blast
  let ?t = "upd_session ?cid (\<lambda>x. x\<lparr>isActive := False\<rparr>)
    (ws_send (pty_ws p) (OText ''pty-exited'') (s\<lparr>ptys := (ptys s)(pid \<mapsto> p\<lparr>pty_live := False\<rparr>)\<rparr>))"
  have st: "sessions ?t d = (if d = ?cid then Some (ss\<lparr>isActive := False\<rparr>) else sessions s d)" for d
    using ss by simp
  have ps: "ptys ?t q = (if q = pid then Some (p\<lparr>pty_live := False\<rparr>) else ptys s q)" for q by simp
  have rest: "kills ?t = kills s" "next_id ?t = next_id s" "userSessions ?t = userSessions s" by simp_all
  have "active_ok ?t" unfolding active_ok_def
  proof (intro allI impI)
    fix d x assume d: "sessions ?t d = Some x" "isActive x"
    then have "d \<noteq> ?cid" "sessions s d = Some x" unfolding st by (auto split: if_splits)
    with d(2) inv obtain q r where "terminalSessionTimer x \<noteq> None" "ptyProcess x = Some q"
      "ptys s q = Some r" "pty_live r" "pty_owner r = d"
      unfolding server_inv_def active_ok_def by blast
    moreover from this p \<open>d \<noteq> ?cid\<close> have "q \<noteq> pid" by auto
    ultimately show "terminalSessionTimer x \<noteq> None \<and>
      (\<exists>q r. ptyProcess x = Some q \<and> ptys ?t q = Some r \<and> pty_live r \<and> pty_owner r = d)"
      unfolding ps by auto
  qed
  moreover have "live_ok ?t" using inv ss unfolding server_inv_def live_ok_def st ps
    by (auto split: if_splits) (metis option.inject)
  moreover have "args_ok ?t" using inv p ss unfolding server_inv_def args_ok_def st ps
    by (auto split: if_splits; metis option.inject)
  moreover have "map_ok ?t" using inv ss unfolding server_inv_def map_ok_def st rest by fastforce
  moreover have "kill_ok ?t" using inv ss unfolding server_inv_def kill_ok_def st rest by fastforce
  moreover have "fresh_ok ?t" using inv p unfolding server_inv_def fresh_ok_def ps rest by auto
  moreover have "wait_ok ?t" using inv ss unfolding server_inv_def wait_ok_def st by (auto split: if_splits)
  ultimately have "server_inv ?t" by (simp add: server_inv_def)
  then have "server_inv (clear_session_timer ?cid ?t)"
    by (rule inv_clear_timer) (auto simp: ss)
  then show ?thesis using p by (simp add: on_pty_exit_def Let_def)
qed

lemma react_inv: "server_inv s \<Longrightarrow> event_ok s e \<Longrightarrow> server_inv (react e s)"
proof (cases e)
  case (Connection cid uid c)
  then show "server_inv s \<Longrightarrow> event_ok s e \<Longrightarrow> ?thesis"
    by (simp add: on_connection_def Let_def inv_new_session)
next
  case (IpsReply cid r)
  then show "server_inv s \<Longrightarrow> event_ok s e \<Longrightarrow> ?thesis"
    by (auto simp: inv_on_ips split: option.splits)
next
  case (PtyExit pid)
  then show "server_inv s \<Longrightarrow> event_ok s e \<Longrightarrow> ?thesis"
    by (auto simp: inv_pty_exit split: option.splits)
qed (auto simp: on_message_def on_close_def handleClose_def on_error_def handleError_def
    on_pong_def on_pty_data_def on_session_timeout_def inv_intros inv_heartbeat split: option.splits)

lemma inv_step: "server_inv s \<Longrightarrow> event_ok s e \<Longrightarrow> server_inv (server_step s e)"
  by (simp add: server_step_def inv_end_turn react_inv)

interpretation srv: invariant_machine server_step event_ok server_inv
  by unfold_locales (rule inv_step)

end
