(* ===== verification/Server_Log.thy ===== *)
theory Server_Log imports Server_Safety begin

text \<open>
  The terminal server together with the log of the events it has seen. The invariant of this
  machine relates each connection to its own events: its messages are handled once, in the order
  they came, none lost while the list of hosts is fetched; and the hosts it is authorised for are
  those the backend answered for this very connection.
\<close>

section \<open>The mailbox of a connection\<close>

definition mail :: "server \<Rightarrow> nat \<Rightarrow> (string list \<times> bool \<times> json) option" where
  "mail s cid = map_option (\<lambda>ss. (pendingMessages ss, authReady ss, authorizedIPs ss)) (sessions s cid)"

definition handled_by :: "nat \<Rightarrow> server \<Rightarrow> string list" where
  "handled_by cid s = map snd (filter (\<lambda>x. fst x = cid) (handled s))"

named_theorems mail_frame \<open>actions that leave every mailbox alone\<close>

lemma mail_cong: "sessions t = sessions s \<Longrightarrow> mail t = mail s"
  by (simp add: mail_def fun_eq_iff)

lemma mail_upd_session:
  "(\<And>x. pendingMessages (f x) = pendingMessages x \<and> authReady (f x) = authReady x
     \<and> authorizedIPs (f x) = authorizedIPs x) \<Longrightarrow> mail (upd_session cid f s) = mail s"
  by (auto simp: mail_def fun_eq_iff option.map_comp comp_def)

lemma mail_basic [mail_frame]:
  "mail (ws_send c x s) = mail s" "mail (upd_socket c g s) = mail s" "mail (ws_close c n r s) = mail s"
  "mail (pty_do pid y s) = mail s" "mail (crash s) = mail s" "mail (reject s) = mail s" "mail (end_turn s) = mail s" "mail (s\<lparr>timers := t\<rparr>) = mail s"
  "mail (s\<lparr>kills := k\<rparr>) = mail s" "mail (s\<lparr>userSessions := u\<rparr>) = mail s" "mail (s\<lparr>ptys := p\<rparr>) = mail s"
  "mail (s\<lparr>handled := h\<rparr>) = mail s" "handled (crash s) = handled s"
  "handled (reject s) = handled s" "handled (end_turn s) = handled s"
  by (auto intro!: mail_cong simp: crash_def reject_def end_turn_def)

lemma mail_clear_timer [mail_frame]: "mail (clear_session_timer c s) = mail s"
  by (auto simp: mail_def fun_eq_iff sessions_clear_timer option.map_comp comp_def)

lemma mail_spawn [mail_frame]: "mail (spawn_pty ws cid args s) = mail s"
  by (auto simp: mail_def fun_eq_iff sessions_spawn option.map_comp comp_def)

lemma mail_run_command [mail_frame]:
  "mail (run_command ws cid command s) = mail s" "handled (run_command ws cid command s) = handled s"
  by (simp_all add: run_command_def Let_def mail_frame split: option.split)

lemma mail_kill_resolve [mail_frame]:
  "mail (kill_resolve cid cont ok s) = mail s" "handled (kill_resolve cid cont ok s) = handled s"
  by (simp_all add: kill_resolve_def mail_frame split: kill_cont.split)

lemma mail_attemptKill [mail_frame]:
  "mail (attemptKill cid k cont s) = mail s" "handled (attemptKill cid k cont s) = handled s"
  by (simp_all add: attemptKill_def Let_def mail_def fun_eq_iff)

lemma mail_killPtyProcess [mail_frame]:
  "mail (killPtyProcess uid cont s) = mail s" "handled (killPtyProcess uid cont s) = handled s"
  by (simp_all add: killPtyProcess_def mail_frame split: option.split)

lemma mail_kill_check [mail_frame]:
  "mail (kill_check kid s) = mail s" "handled (kill_check kid s) = handled s"
  by (simp_all add: kill_check_def Let_def mail_frame split: option.split)

lemma mail_handleCommand [mail_frame]:
  "mail (handleCommand ws command uid s) = mail s" "handled (handleCommand ws command uid s) = handled s"
  by (simp_all add: handleCommand_def mail_frame split: option.split)

lemma mail_call_handler [mail_frame]:
  "mail (call_handler h cid v s) = mail s" "handled (call_handler h cid v s) = handled s"
  by (simp_all add: call_handler_def Let_def mail_frame split: handler.split)

lemma mail_entries [mail_frame]:
  "mail (fold (handle_entry cid) kvs s) = mail s" "handled (fold (handle_entry cid) kvs s) = handled s"
proof -
  have "mail (handle_entry cid kv s) = mail s" "handled (handle_entry cid kv s) = handled s" for kv s
    by (simp_all add: handle_entry_def mail_frame split: option.split)
  then have "mail (fold (handle_entry cid) kvs s) = mail s \<and> handled (fold (handle_entry cid) kvs s) = handled s"
    by (induction kvs arbitrary: s) simp_all
  then show "mail (fold (handle_entry cid) kvs s) = mail s" "handled (fold (handle_entry cid) kvs s) = handled s"
    by auto
qed

lemma mail_handleMessage [mail_frame]:
  "mail (handleMessage cid m s) = mail s" "handled (handleMessage cid m s) = handled s @ [(cid, m)]"
  by (simp_all add: handleMessage_def Let_def mail_frame split: option.split)

lemma mail_heartbeat [mail_frame]:
  "mail (on_heartbeat cs s) = mail s" "handled (on_heartbeat cs s) = handled s"
proof -
  have "mail (heartbeat_client c s) = mail s" "handled (heartbeat_client c s) = handled s" for c s
    by (simp_all add: heartbeat_client_def mail_frame split: option.split)
  then have "mail (on_heartbeat cs s) = mail s \<and> handled (on_heartbeat cs s) = handled s"
    unfolding on_heartbeat_def by (induction cs arbitrary: s) simp_all
  then show "mail (on_heartbeat cs s) = mail s" "handled (on_heartbeat cs s) = handled s" by auto
qed

lemma mail_pty_exit [mail_frame]:
  "mail (on_pty_exit pid s) = mail s" "handled (on_pty_exit pid s) = handled s"
  by (simp_all add: on_pty_exit_def Let_def mail_frame mail_upd_session split: option.split)

section \<open>Draining\<close>

lemma mail_set_pending:
  "mail s cid = Some (p, r, i) \<Longrightarrow>
     mail (upd_session cid (\<lambda>x. x\<lparr>pendingMessages := ms\<rparr>) s) = (mail s)(cid \<mapsto> (ms, r, i))"
  by (auto simp: mail_def fun_eq_iff)

lemma drain_crashed: "crashed s \<Longrightarrow> drain cid ms s = s"
  by (cases ms) auto

lemma drain_mail:
  "mail s cid = Some (ms, r, i) \<Longrightarrow> \<exists>p. mail (drain cid ms s) = (mail s)(cid \<mapsto> (p, r, i))
     \<and> (\<not> crashed (drain cid ms s) \<longrightarrow> p = [] \<and> handled (drain cid ms s) = handled s @ map (Pair cid) ms)
     \<and> (\<forall>d. d \<noteq> cid \<longrightarrow> handled_by d (drain cid ms s) = handled_by d s)"
proof (induction ms arbitrary: s)
  case Nil
  then show ?case by (intro exI [of _ "[]"]) (simp add: fun_upd_idem)
next
  case (Cons m ms)
  show ?case
  proof (cases "crashed s")
    case True
    with Cons.prems show ?thesis by (intro exI [of _ "m # ms"]) (simp add: fun_upd_idem)
  next
    case False
    let ?s = "handleMessage cid m (upd_session cid (\<lambda>x. x\<lparr>pendingMessages := ms\<rparr>) s)"
    have m: "mail ?s = (mail s)(cid \<mapsto> (ms, r, i))"
      using Cons.prems by (simp add: mail_frame mail_set_pending)
    have h: "handled ?s = handled s @ [(cid, m)]" by (simp add: mail_frame)
    then have o: "d \<noteq> cid \<Longrightarrow> handled_by d ?s = handled_by d s" for d by (simp add: handled_by_def)
    from m have "mail ?s cid = Some (ms, r, i)" by simp
    from Cons.IH [OF this] show ?thesis using False o unfolding m h fun_upd_upd by simp
  qed
qed

section \<open>The log\<close>

definition log_step :: "server \<times> event list \<Rightarrow> event \<Rightarrow> server \<times> event list" where
  "log_step st e = (server_step (fst st) e, snd st @ [e])"

definition log_ok :: "server \<times> event list \<Rightarrow> event \<Rightarrow> bool" where
  "log_ok st e = event_ok (fst st) e"

fun received :: "nat \<Rightarrow> event list \<Rightarrow> string list" where
  "received cid [] = []"
| "received cid (Message d m # es) = (if d = cid then m # received cid es else received cid es)"
| "received cid (_ # es) = received cid es"

lemma received_append [simp]: "received cid (es @ fs) = received cid es @ received cid fs"
  by (induction cid es rule: received.induct) auto

definition conn_ok :: "server \<Rightarrow> event list \<Rightarrow> nat \<Rightarrow> bool" where
  "conn_ok s es cid \<longleftrightarrow>
     (case mail s cid of
        None \<Rightarrow> received cid es = [] \<and> handled_by cid s = []
      | Some (p, ready, ips) \<Rightarrow>
          (ready \<longrightarrow> (\<exists>r. IpsReply cid r \<in> set es \<and> fetch_ips r = Some ips))
          \<and> (\<not> crashed s \<longrightarrow> received cid es = handled_by cid s @ p \<and> (ready \<longrightarrow> p = [])))"

definition log_inv :: "server \<times> event list \<Rightarrow> bool" where
  "log_inv st \<longleftrightarrow> server_inv (fst st) \<and> (\<forall>cid. conn_ok (fst st) (snd st) cid)"

lemma run_log:
  "run_events log_step (s, es) fs = (run_events server_step s fs, es @ fs)"
  "run_ok log_step log_ok (s, es) fs = run_ok server_step event_ok s fs"
  by (induction fs arbitrary: s es) (simp_all add: log_step_def log_ok_def)

text \<open>Events that touch no mailbox and are no message keep the relation.\<close>

lemma conn_ok_frame:
  assumes "conn_ok s es cid" "mail t = mail s" "handled t = handled s" "crashed s \<Longrightarrow> crashed t"
    and "received cid [e] = []"
  shows "conn_ok t (es @ [e]) cid"
  using assms unfolding conn_ok_def handled_by_def by (auto split: option.splits)

lemma conn_ok_crashed:
  assumes "conn_ok s es cid" "crashed s" "event_ok s e"
  shows "conn_ok s (es @ [e]) cid"
  using assms by (cases e) (auto simp: conn_ok_def mail_def split: option.splits)

lemma conn_ok_end_turn: "conn_ok s es cid \<Longrightarrow> conn_ok (end_turn s) es cid"
  by (cases "rejected s") (auto simp: conn_ok_def end_turn_def handled_by_def mail_frame crash_def [THEN arg_cong [of _ _ crashed]]
      split: option.splits)

lemma conn_connection:
  assumes "\<forall>d. conn_ok s es d" "sessions s c = None" "has_tokens k" "\<not> crashed s"
  shows "conn_ok (on_connection c uid k s) (es @ [Connection c uid k]) cid"
proof -
  let ?t = "on_connection c uid k s"
  have m: "mail ?t = (mail s)(c \<mapsto> ([], False, JArr []))"
    using assms(3) by (auto simp: on_connection_def Let_def mail_def new_session_def fun_eq_iff)
  have h: "handled ?t = handled s" "crashed ?t = crashed s"
    using assms(3) by (simp_all add: on_connection_def Let_def)
  from assms(1,2) have "received c es = [] \<and> handled_by c s = []"
    by (auto simp: conn_ok_def mail_def dest: spec [of _ c])
  with spec [OF assms(1), of cid] m h show ?thesis
    unfolding conn_ok_def handled_by_def by (auto split: option.splits)
qed

lemma conn_message:
  assumes "\<forall>d. conn_ok s es d" "sessions s c = Some ss" "\<not> crashed s"
  shows "conn_ok (on_message c m s) (es @ [Message c m]) cid"
proof (cases "authReady ss")
  case True
  then have t: "on_message c m s = handleMessage c m s" using assms(2) by (simp add: on_message_def session_of_def)
  from assms True have "received c es = handled_by c s \<and> pendingMessages ss = []"
    by (auto simp: conn_ok_def mail_def dest: spec [of _ c])
  moreover from this assms True have "\<exists>r. IpsReply c r \<in> set es \<and> fetch_ips r = Some (authorizedIPs ss)"
    by (auto simp: conn_ok_def mail_def dest: spec [of _ c])
  ultimately show ?thesis
    using assms(2,3) True spec [OF assms(1), of cid] unfolding t conn_ok_def handled_by_def
    by (auto simp: mail_frame mail_def split: option.splits)
next
  case False
  let ?t = "upd_session c (\<lambda>x. x\<lparr>pendingMessages := pendingMessages x @ [m]\<rparr>) s"
  have t: "on_message c m s = ?t" using assms(2) False by (simp add: on_message_def session_of_def)
  have ml: "mail ?t = (mail s)(c \<mapsto> (pendingMessages ss @ [m], False, authorizedIPs ss))"
    using assms(2) False by (auto simp: mail_def fun_eq_iff)
  from assms False have "received c es = handled_by c s @ pendingMessages ss"
    by (auto simp: conn_ok_def mail_def dest: spec [of _ c])
  with assms(3) spec [OF assms(1), of cid] show ?thesis unfolding t conn_ok_def ml handled_by_def
    by (auto split: option.splits)
qed

lemma conn_ips:
  assumes "\<forall>d. conn_ok s es d" "server_inv s" "sessions s c = Some ss" "awaitingIps ss" "\<not> crashed s"
  shows "conn_ok (on_ips c r s) (es @ [IpsReply c r]) cid"
proof (cases "fetch_ips r")
  case None
  then show ?thesis using assms(1)
    by (intro conn_ok_frame [where s = s]) (auto simp: on_ips_def Let_def mail_frame mail_upd_session)
next
  case (Some ips)
  from assms(2-4) have n: "\<not> authReady ss" unfolding server_inv_def wait_ok_def by blast
  let ?u = "upd_session c (\<lambda>x. x\<lparr>awaitingIps := False\<rparr>) s"
  let ?t = "upd_session c (\<lambda>x. x\<lparr>authorizedIPs := ips, authReady := True\<rparr>)
     (?u\<lparr>userSessions := (userSessions ?u)(userId (session_of ?u c) \<mapsto> c)\<rparr>)"
  have ml: "mail ?t = (mail s)(c \<mapsto> (pendingMessages ss, True, ips))"
    using assms(3) by (auto simp: mail_def fun_eq_iff)
  have on: "on_ips c r s = drain c (pendingMessages ss) ?t"
    using assms(3) by (simp add: on_ips_def Let_def Some session_of_def)
  from ml have "mail ?t c = Some (pendingMessages ss, True, ips)" by simp
  from drain_mail [OF this] obtain p where
    p: "mail (on_ips c r s) = (mail s)(c \<mapsto> (p, True, ips))"
       "\<not> crashed (on_ips c r s) \<Longrightarrow> p = [] \<and> handled (on_ips c r s) = handled ?t @ map (Pair c) (pendingMessages ss)"
       "\<And>d. d \<noteq> c \<Longrightarrow> handled_by d (on_ips c r s) = handled_by d ?t"
    unfolding on [symmetric] ml by auto
  have h: "handled ?t = handled s" "handled_by d ?t = handled_by d s" for d by (simp_all add: handled_by_def)
  from assms(1,3,5) n have "received c es = handled_by c s @ pendingMessages ss"
    by (auto simp: conn_ok_def mail_def dest: spec [of _ c])
  moreover have "handled_by c (on_ips c r s) = handled_by c s @ pendingMessages ss" if "\<not> crashed (on_ips c r s)"
    using p(2) [OF that] h by (simp add: handled_by_def comp_def filter_map)
  ultimately show ?thesis using p h(2) Some assms(5) spec [OF assms(1), of cid] unfolding conn_ok_def
    by (cases "cid = c") (auto split: option.splits)
qed

lemma log_inv_step: "log_inv st \<Longrightarrow> log_ok st e \<Longrightarrow> log_inv (log_step st e)"
proof -
  assume inv: "log_inv st" and ok: "log_ok st e"
  obtain s es where st: "st = (s, es)" by (cases st)
  from inv ok st have i: "server_inv s" "\<forall>d. conn_ok s es d" "event_ok s e"
    by (auto simp: log_inv_def log_ok_def)
  have "conn_ok (server_step s e) (es @ [e]) cid" for cid
  proof (cases "crashed s")
    case True
    with i show ?thesis by (simp add: server_step_def conn_ok_crashed)
  next
    case False
    have frame: "mail (react e s) = mail s \<Longrightarrow> handled (react e s) = handled s \<Longrightarrow> received cid [e] = [] \<Longrightarrow>
        conn_ok (react e s) (es @ [e]) cid"
      by (rule conn_ok_frame [OF spec [OF i(2)]]) (simp_all add: False)
    have "conn_ok (react e s) (es @ [e]) cid"
      using i False frame
      by (cases e) (auto simp: conn_connection conn_message conn_ips on_close_def handleClose_def on_error_def
          handleError_def on_pong_def on_pty_data_def on_session_timeout_def mail_frame split: option.splits)
    then show ?thesis using False by (simp add: server_step_def conn_ok_end_turn)
  qed
  with i st show ?thesis by (simp add: log_inv_def log_step_def inv_step)
qed

interpretation srv_log: invariant_machine log_step log_ok log_inv
  by unfold_locales (rule log_inv_step)

lemma log_inv_init: "log_inv (server_init, [])"
  using server_inv_init by (simp add: log_inv_def conn_ok_def mail_def server_init_def handled_by_def)

lemma run_log_inv:
  "run_ok server_step event_ok server_init es \<Longrightarrow> log_inv (run_events server_step server_init es, es)"
  using srv_log.run_inv [OF log_inv_init, of es] by (simp add: run_log)

end
