(* ===== verification/Ssh_Parsing.thy ===== *)
theory Ssh_Parsing imports Ssh_Policy begin

text \<open>
  What the parsing half of \<^verbatim>\<open>terminal-utils.js\<close> computes: quotation marks are removed in pairs, the
  splitting loop is inverse to joining shell words with spaces, the escaped here-document delimiter
  denotes itself, and host comparison ignores letter case.
\<close>

section \<open>Searching\<close>

lemma first_match_lit:
  "index_of p s = Some i \<Longrightarrow> k (drop (i + length p) s) = Some x \<Longrightarrow> first_match (match_lit p k) s = Some x"
proof (induction s arbitrary: i)
  case Nil
  then show ?case by (auto simp: match_lit_def split: if_splits)
next
  case (Cons c cs)
  show ?case
  proof (cases "starts_with p (c # cs)")
    case True
    with Cons.prems show ?thesis by (simp add: match_lit_def)
  next
    case False
    with Cons.prems obtain j where "i = Suc j" "index_of p cs = Some j" by auto
    with False Cons show ?thesis by (simp add: match_lit_def)
  qed
qed

lemma first_match_lit_None: "index_of p s = None \<Longrightarrow> first_match (match_lit p k) s = None"
  by (induction s) (auto simp: match_lit_def split: if_splits)

lemma index_of_longer:
  "index_of p s = Some i \<Longrightarrow> starts_with (p @ q) (drop i s) \<Longrightarrow> index_of (p @ q) s = Some i"
proof (induction s arbitrary: i)
  case Nil
  then show ?case by (auto split: if_splits)
next
  case (Cons c cs)
  show ?case
  proof (cases "starts_with p (c # cs)")
    case True
    with Cons.prems show ?thesis by simp
  next
    case False
    with Cons.prems obtain j where j: "i = Suc j" "index_of p cs = Some j" by auto
    moreover from False have "\<not> starts_with (p @ q) (c # cs)" by (auto simp: starts_with_iff)
    ultimately show ?thesis using Cons by simp
  qed
qed

lemma starts_with_long: "length p \<le> length u \<Longrightarrow> starts_with p (u @ v) = starts_with p u"
  by (simp add: starts_with_def)

lemma index_of_here: "starts_with p s \<Longrightarrow> index_of p s = Some 0"
  by (cases s) auto

lemma index_of_extend:
  "index_of p (a @ p) = Some (length a) \<Longrightarrow> index_of p (a @ p @ b) = Some (length a)"
proof (induction a)
  case Nil
  show ?case by (simp add: index_of_here)
next
  case (Cons c a)
  then have no: "\<not> starts_with p (c # a @ p)" by (auto split: if_splits)
  with Cons.prems have "index_of p (a @ p) = Some (length a)" by auto
  moreover have "\<not> starts_with p (c # a @ p @ b)"
    using no starts_with_long [of p "c # a @ p" b] by simp
  ultimately show ?case using Cons.IH by simp
qed

lemma lazy_star_any: "lazy_star (\<lambda>_. True) p s = map_option (\<lambda>i. take i s) (index_of p s)"
  by (induction s) (auto simp: option.map_comp comp_def)

section \<open>Quotation marks\<close>

lemma count_takeWhile_neq [simp]: "count_list (takeWhile (\<lambda>c. c \<noteq> q) s) q = 0"
  by (induction s) auto

lemma count_dropWhile_neq: "count_list (dropWhile (\<lambda>c. c \<noteq> q) s) q = count_list s q"
  by (induction s) auto

lemma filter_split_at: "filter P s = filter P (takeWhile Q s) @ filter P (dropWhile Q s)"
  by (metis filter_append takeWhile_dropWhile_id)

lemma strip_pairs_cases [case_names none open_only pair]:
  obtains "q \<notin> set s"
  | pre body where "s = pre @ q # body" "q \<notin> set pre" "q \<notin> set body"
  | pre inner tail where "s = pre @ q # inner @ q # tail" "q \<notin> set pre" "q \<notin> set inner"
  by (metis split_list_first)

lemma takeWhile_neq_append [simp]:
  "q \<notin> set u \<Longrightarrow> takeWhile (\<lambda>c. c \<noteq> q) (u @ q # v) = u"
  "q \<notin> set u \<Longrightarrow> dropWhile (\<lambda>c. c \<noteq> q) (u @ q # v) = q # v"
  "q \<notin> set u \<Longrightarrow> takeWhile (\<lambda>c. c \<noteq> q) u = u"
  "q \<notin> set u \<Longrightarrow> dropWhile (\<lambda>c. c \<noteq> q) u = []"
  by (induction u) auto

lemma strip_pairs_eqs:
  "q \<notin> set s \<Longrightarrow> strip_pairs q s = s"
  "q \<notin> set pre \<Longrightarrow> q \<notin> set body \<Longrightarrow> strip_pairs q (pre @ q # body) = pre @ q # body"
  "q \<notin> set pre \<Longrightarrow> q \<notin> set inner \<Longrightarrow>
     strip_pairs q (pre @ q # inner @ q # tail) = pre @ inner @ strip_pairs q tail"
  by (subst strip_pairs.simps; simp add: Let_def)+

lemma filter_neq_id: "q \<notin> set s \<Longrightarrow> filter (\<lambda>c. c \<noteq> q) s = s"
  by (induction s) auto

lemma count_notin: "q \<notin> set s \<Longrightarrow> count_list s q = 0"
  by (induction s) auto

lemma strip_pairs_spec:
  "filter (\<lambda>c. c \<noteq> q) (strip_pairs q s) = filter (\<lambda>c. c \<noteq> q) s
   \<and> count_list (strip_pairs q s) q = count_list s q mod 2"
proof (induction s rule: measure_induct_rule [where f = length])
  case (less s)
  show ?case
  proof (cases q s rule: strip_pairs_cases)
    case none
    then show ?thesis by (simp add: strip_pairs_eqs count_notin)
  next
    case (open_only pre body)
    then show ?thesis by (simp add: strip_pairs_eqs count_notin)
  next
    case (pair pre inner tail)
    then show ?thesis using less [of tail] by (simp add: strip_pairs_eqs count_notin)
  qed
qed

lemma strip_pairs_even:
  assumes "even (count_list s q)"
  shows "strip_pairs q s = filter (\<lambda>c. c \<noteq> q) s"
proof -
  from assms strip_pairs_spec have "count_list (strip_pairs q s) q = 0" by auto
  then have "q \<notin> set (strip_pairs q s)" by (simp add: count_list_0_iff)
  then show ?thesis using strip_pairs_spec filter_neq_id by metis
qed

section \<open>Splitting is the inverse of joining shell words\<close>

fun word_state :: "char option \<Rightarrow> string \<Rightarrow> char option option" where
  "word_state q [] = Some q"
| "word_state None (c # cs) =
     (if c = DQ \<or> c = SQ then word_state (Some c) cs
      else if c = SP then None else word_state None cs)"
| "word_state (Some q) (c # cs) = (if c = q then word_state None cs else word_state (Some q) cs)"

text \<open>A shell word: not empty, trimmed, its quotation marks closed, spaces only inside them.\<close>

definition shell_word :: "string \<Rightarrow> bool" where
  "shell_word w \<longleftrightarrow> w \<noteq> [] \<and> js_trim w = w \<and> word_state None w = Some None"

fun join_sp :: "string list \<Rightarrow> string" where
  "join_sp [] = []"
| "join_sp [w] = w"
| "join_sp (w # v # ws) = w @ SP # join_sp (v # ws)"

text \<open>
  A tokeniser without the redundant flag: the open quotation mark is the whole state of quoting. The
  loop of the source refines it, as long as \<open>inQuotes\<close> says whether \<open>quoteChar\<close> is set.
\<close>

fun token_step :: "string list \<times> string \<times> char option \<Rightarrow> char \<Rightarrow> string list \<times> string \<times> char option" where
  "token_step (ws, cur, None) c =
     (if c = DQ \<or> c = SQ then (ws, cur @ [c], Some c)
      else if c = SP then (if js_trim cur \<noteq> [] then (ws @ [js_trim cur], [], None) else (ws, cur, None))
      else (ws, cur @ [c], None))"
| "token_step (ws, cur, Some q) c = (ws, cur @ [c], if c = q then None else Some q)"

definition split_abs :: "split_state \<Rightarrow> string list \<times> string \<times> char option" where
  "split_abs st = (sshArgs st, current st, quoteChar st)"

definition split_inv :: "split_state \<Rightarrow> bool" where
  "split_inv st \<longleftrightarrow> (inQuotes st \<longleftrightarrow> quoteChar st \<noteq> None)"

interpretation tokens: machine_refinement split_step token_step split_abs split_inv
proof unfold_locales
  show "split_inv st \<Longrightarrow> split_abs (split_step st c) = token_step (split_abs st) c" for st c
    by (cases "quoteChar st") (auto simp: split_inv_def split_abs_def split_step_def)
  show "split_inv st \<Longrightarrow> split_inv (split_step st c)" for st c
    by (cases "quoteChar st") (auto simp: split_inv_def split_step_def)
qed

lemma split_args_tokens:
  "split_args s = (case run_events token_step ([], [], None) s of
     (ws, cur, q) \<Rightarrow> if js_trim cur \<noteq> [] then ws @ [js_trim cur] else ws)"
proof -
  have "split_inv split_init" "split_abs split_init = ([], [], None)"
    by (simp_all add: split_init_def split_inv_def split_abs_def)
  then have "split_abs (run_events split_step split_init s) = run_events token_step ([], [], None) s"
    using tokens.run_sim by metis
  then have "run_events token_step ([], [], None) s =
      (sshArgs (foldl split_step split_init s), current (foldl split_step split_init s),
       quoteChar (foldl split_step split_init s))"
    by (simp add: run_events_def split_abs_def)
  then show ?thesis by (simp add: split_args_def Let_def)
qed

lemma token_word:
  "word_state q w = Some q' \<Longrightarrow> run_events token_step (args, cur, q) w = (args, cur @ w, q')"
proof (induction q w arbitrary: cur rule: word_state.induct)
  case (1 q)
  then show ?case by simp
next
  case (2 c cs)
  then show ?case by (auto split: if_splits)
next
  case (3 q c cs)
  then show ?case by (auto split: if_splits)
qed

lemma token_words:
  "list_all shell_word (w # ws) \<Longrightarrow>
     run_events token_step (args, [], None) (join_sp (w # ws)) = (args @ butlast (w # ws), last (w # ws), None)"
proof (induction ws arbitrary: w args)
  case Nil
  then show ?case using token_word [of None w None args "[]"] by (simp add: shell_word_def)
next
  case (Cons v ws)
  then have "run_events token_step (args, [], None) w = (args, w, None)"
    using token_word [of None w None args "[]"] by (simp add: shell_word_def)
  moreover have "token_step (args, w, None) SP = (args @ [w], [], None)"
    using Cons.prems by (simp add: shell_word_def)
  ultimately show ?case using Cons.IH [of v "args @ [w]"] Cons.prems by (simp add: run_events_append)
qed

lemma split_join: "list_all shell_word ws \<Longrightarrow> split_args (join_sp ws) = ws"
proof (cases ws)
  case Nil
  then show ?thesis by (simp add: split_args_tokens js_trim_def)
next
  case (Cons w vs)
  assume words: "list_all shell_word ws"
  then have "last ws \<noteq> []" "js_trim (last ws) = last ws"
    using Cons by (auto simp: list_all_iff shell_word_def)
  with token_words [of w vs "[]"] words Cons show ?thesis by (simp add: split_args_tokens)
qed

section \<open>The ssh arguments\<close>

lemma includes_request_tty: "includes_str ''RequestTTY='' ''RequestTTY=yes''"
  by (simp add: includes_str_def starts_with_def)

lemma add_request_tty_spec:
  "list_ex (includes_str ''RequestTTY='') (add_request_tty args)"
  "set (add_request_tty args) \<subseteq> set args \<union> {''-o'', ''RequestTTY=yes''}"
  using includes_request_tty by (auto simp: add_request_tty_def list_ex_iff)

lemma force_tty_not_no: "force_tty a \<noteq> ''RequestTTY=no''"
  by (simp add: force_tty_def)

lemma extractSshArgs_tty:
  "extractSshArgs s \<noteq> [] \<Longrightarrow>
     list_ex (includes_str ''RequestTTY='') (extractSshArgs s) \<and> ''RequestTTY=no'' \<notin> set (extractSshArgs s)"
proof -
  assume "extractSshArgs s \<noteq> []"
  then obtain a where a: "sshCommandMatch s = Some a"
    by (auto simp: extractSshArgs_def split: option.splits)
  let ?as = "map force_tty (map normalizeShellArgument (split_args a))"
  have "extractSshArgs s = add_request_tty ?as" using a by (simp add: extractSshArgs_def)
  moreover have "''RequestTTY=no'' \<notin> set ?as" using force_tty_not_no by (auto simp: eq_commute)
  ultimately show ?thesis using add_request_tty_spec [of ?as] by auto
qed

text \<open>
  A generated command line: \<open>ssh\<close>, shell words, the remote shell. Nothing before it may look like
  the start of the match, and the words may not contain the remote shell's text.
\<close>

lemma extractSshArgs_generated:
  assumes ws: "list_all shell_word ws" "ws \<noteq> []"
    and line: "list_all (\<lambda>c. \<not> is_line_term c) (join_sp ws)"
    and pre: "index_of ''ssh '' (pre @ ''ssh '') = Some (length pre)"
    and stop: "index_of BASH_SE (tl (join_sp ws) @ BASH_SE) = Some (length (tl (join_sp ws)))"
  shows "extractSshArgs (pre @ ''ssh '' @ join_sp ws @ BASH_SE @ post) =
     add_request_tty (map force_tty (map normalizeShellArgument ws))"
proof -
  let ?a = "join_sp ws"
  have ne: "?a \<noteq> []" using ws by (cases ws rule: join_sp.cases) (auto simp: shell_word_def)
  then obtain c cs where c: "?a = c # cs" by (cases ?a) auto
  have "lazy_star (\<lambda>c. \<not> is_line_term c) BASH_SE (cs @ BASH_SE @ post) = Some cs"
  proof (rule lazy_star_exact)
    show "list_all (\<lambda>c. \<not> is_line_term c) cs" using line c by simp
    have ix: "index_of BASH_SE (cs @ BASH_SE @ post) = Some (length cs)"
      using index_of_extend [of BASH_SE cs post] stop c by simp
    fix u v assume uv: "cs = u @ v" "v \<noteq> []"
    have skip: "index_of p (u @ w) = Some (length u + length v) \<Longrightarrow> v \<noteq> [] \<Longrightarrow> \<not> starts_with p w" for p w
      by (induction u) (auto simp: index_of_here split: if_splits)
    show "\<not> starts_with BASH_SE (v @ BASH_SE @ post)"
      using skip [of BASH_SE "v @ BASH_SE @ post"] ix uv by simp
  qed
  then have "lazy_plus (\<lambda>c. \<not> is_line_term c) BASH_SE (?a @ BASH_SE @ post) = Some ?a"
    using line c by simp
  moreover have "index_of ''ssh '' (pre @ ''ssh '' @ ?a @ BASH_SE @ post) = Some (length pre)"
    using index_of_extend [OF pre] by blast
  ultimately have "sshCommandMatch (pre @ ''ssh '' @ ?a @ BASH_SE @ post) = Some ?a"
    unfolding sshCommandMatch_def by (rule_tac first_match_lit) auto
  then show ?thesis by (simp add: extractSshArgs_def split_join [OF ws(1)])
qed

section \<open>The here document\<close>

lemma regex_literal_escape: "regex_literal (escape_regex s) = Some s"
  by (induction s) (auto simp: escape_regex_def regex_special_def)

lemma escape_regex_Nil [simp]: "escape_regex s = [] \<longleftrightarrow> s = []"
  by (cases s) (auto simp: escape_regex_def)

lemma hereDoc_generated:
  assumes d: "d \<noteq> []" "list_all (\<lambda>c. \<not> is_ws c) d"
    and body: "body \<noteq> []" "is_ws (hd body)" "index_of d (body @ d) = Some (length body)"
    and pre: "index_of ''<< '' (pre @ ''<< '') = Some (length pre)"
  shows "extractHereDocContent (pre @ ''<< '' @ [BSL] @ d @ body @ d @ post) = body"
proof -
  let ?s = "pre @ ''<< '' @ [BSL] @ d @ body @ d @ post"
  have ix: "index_of ''<< '' ?s = Some (length pre)" using index_of_extend [OF pre] by blast
  obtain b bs where b: "body = b # bs" using body(1) by (cases body) auto
  have ws: "list_all (\<lambda>c. \<not> is_ws c) (BSL # d)" using d(2) by (simp add: is_ws_def code_def)
  then have "match_run (\<lambda>c. \<not> is_ws c) ((BSL # d) @ body @ d @ post) = Some (BSL # d)"
    using body(2) b by (auto simp: match_run_Some)
  then have "first_match (match_lit ''<< '' (match_run (\<lambda>c. \<not> is_ws c))) ?s = Some (BSL # d)"
    by (intro first_match_lit [OF ix]) simp
  then have esc: "escapedDelimiter ?s = Some (escape_regex d)"
    using d(2) by (simp add: escapedDelimiter_def js_trim_no_ws)
  have "index_of (''<< '' @ [BSL] @ d) ?s = Some (length pre)"
    using index_of_longer [OF ix, of "[BSL] @ d"] by simp
  moreover have "lazy_star (\<lambda>_. True) d (body @ d @ post) = Some body"
    using index_of_extend [OF body(3)] by (simp add: lazy_star_any)
  ultimately have "hereDocRegex d ?s = Some body"
    unfolding hereDocRegex_def by (rule_tac first_match_lit) (auto simp: numeral_eq_Suc)
  with esc d(1) show ?thesis by (simp add: extractHereDocContent_def regex_literal_escape)
qed

section \<open>Hosts\<close>

lemma lower_special: "lower_char c = d \<longleftrightarrow> c = d" if "d \<in> {SQ, DQ, CHR ''['', CHR '']''}"
  using that unfolding code_inj [symmetric]
  by (auto simp: code_lower is_upper_def) (auto simp: code_def)

lemma edge_lower:
  assumes "d \<in> {SQ, DQ, CHR ''['', CHR '']''}"
  shows "starts_with [d] (js_lower h) = starts_with [d] h"
    and "ends_with [d] (js_lower h) = ends_with [d] h"
proof -
  show st: "starts_with [d] (js_lower h) = starts_with [d] h" for h
    using lower_special [OF assms] by (cases h) (simp_all add: js_lower_def eq_commute [of d])
  from st [of "rev h"] show "ends_with [d] (js_lower h) = ends_with [d] h"
    by (simp add: ends_with_def js_lower_def rev_map)
qed

lemma quoted_by_lower: "q \<in> {SQ, DQ} \<Longrightarrow> quoted_by q (js_lower h) = quoted_by q h"
  using edge_lower [of q h] by (auto simp: quoted_by_def)

lemma slice_lower: "slice_inner (js_lower h) = js_lower (slice_inner h)"
  by (simp add: slice_inner_def js_lower_def map_tl map_butlast)

lemma unquote_lower: "unquote_host (js_lower h) = js_lower (unquote_host h)"
proof (induction h rule: unquote_host.induct)
  case (1 h)
  show ?case
  proof (cases "2 \<le> length h \<and> (quoted_by SQ h \<or> quoted_by DQ h)")
    case True
    with 1 show ?thesis
      by (subst (1 2) unquote_host.simps) (auto simp: quoted_by_lower slice_lower js_lower_trim)
  next
    case False
    then show ?thesis by (subst (1 2) unquote_host.simps) (auto simp: quoted_by_lower)
  qed
qed

lemma brackets_lower: "strip_brackets (js_lower h) = js_lower (strip_brackets h)"
  by (simp add: strip_brackets_def edge_lower slice_lower)

lemma js_lower_Nil [simp]: "js_lower h = [] \<longleftrightarrow> h = []"
  by (simp add: js_lower_def)

lemma normalize_lower:
  "normalizeHostForAuthorization (Some (js_lower h)) = normalizeHostForAuthorization (Some h)"
  by (simp add: normalizeHostForAuthorization_def js_lower_trim unquote_lower brackets_lower)

lemma authorized_iff:
  "isAuthorizedTargetHost t hosts \<longleftrightarrow>
     (\<exists>n. n \<noteq> [] \<and> normalizeHostForAuthorization t = Some n
        \<and> (\<exists>host\<in>set hosts. normalizeHostForAuthorization (Some host) = Some n))"
  by (cases "normalizeHostForAuthorization t") (force simp: isAuthorizedTargetHost_def)+

end
