(* ===== verification/Ssh_Properties.thy ===== *)
theory Ssh_Properties imports Ssh_Parsing begin

text \<open>
  What the SSH utilities of the terminal server guarantee, as properties of their functions. The
  lemmas of the first section relate the words of an accepted command line to the items of the
  policy; a sample command line, the one the backend generates, serves the witnesses.
\<close>

section \<open>Where a destination can stand\<close>

lemma destination_split:
  assumes "destination_ok d"
  obtains u h where "d = u @ CHR ''@'' # h" "u \<noteq> []" "h \<noteq> []" "CHR ''@'' \<notin> set h"
    "\<And>c. c \<in> set u \<Longrightarrow> is_alnum c \<or> c \<in> set ''._-''" "CHR ''@'' \<notin> set u"
proof -
  from assms obtain i where i: "index_of ''@'' d = Some i" "drop (Suc i) d \<noteq> []"
      "CHR ''@'' \<notin> set (drop (Suc i) d)"
      "case take i d of [] \<Rightarrow> False | c # cs \<Rightarrow> (is_alnum c \<or> c = CHR ''_'') \<and>
         list_all (\<lambda>d. is_alnum d \<or> d \<in> set ''._-'') cs"
    by (auto simp: destination_ok_def split: option.splits)
  from index_of_char [OF i(1)] have n: "i < length d" "d ! i = CHR ''@''" "CHR ''@'' \<notin> set (take i d)" by auto
  then have "d = take i d @ CHR ''@'' # drop (Suc i) d" by (metis id_take_nth_drop)
  moreover have "take i d \<noteq> []" using i(4) by (cases i; cases d) auto
  moreover have "is_alnum c \<or> c \<in> set ''._-''" if "c \<in> set (take i d)" for c
    using i(4) that by (auto simp: list_all_iff split: list.splits)
  ultimately show thesis using i(2,3) n(3) that [of "take i d" "drop (Suc i) d"] by blast
qed

lemma alnum_plain: "is_alnum c \<or> c \<in> set ''._-'' \<Longrightarrow> c \<noteq> CHR ''='' \<and> c \<noteq> CHR ''/''"
  by (auto simp: is_alnum_def is_digit_def is_upper_def is_lower_def code_def)

lemma destination_option_name: "destination_ok d \<Longrightarrow> CHR ''@'' \<in> set (option_name d)"
proof -
  assume "destination_ok d"
  then obtain u h where d: "d = u @ CHR ''@'' # h" "\<forall>c\<in>set u. c \<noteq> CHR ''=''"
    using alnum_plain by (metis destination_split)
  then show ?thesis by (simp add: option_name_def takeWhile_append)
qed

lemma destination_user_at_host: "destination_ok d \<Longrightarrow> user_at_host d"
  by (erule destination_split) (simp add: user_at_host_def index_of_append)

lemma target_of_destination:
  assumes "destination_ok d" "\<not> includes_str KEYS_PATH d"
  shows "extractTargetHost [d] \<noteq> None"
proof -
  from assms(1) obtain u h where "d = u @ CHR ''@'' # h" "h \<noteq> []" "CHR ''@'' \<notin> set u"
    by (metis destination_split)
  then have "host_part d = h" by (simp add: host_part_def)
  with assms destination_user_at_host \<open>h \<noteq> []\<close> show ?thesis
    by (simp add: extractTargetHost_def normalizeHostForAuthorization_def)
qed

lemma no_at_user: "CHR ''@'' \<notin> set w \<Longrightarrow> \<not> user_at_host w"
  by (simp add: user_at_host_def index_of_None_char [symmetric] split: option.splits)

lemma key_char_no_at: "\<not> key_char (CHR ''@'')"
  by (auto simp: key_char_def is_alnum_def is_digit_def is_upper_def is_lower_def code_def)

lemma digits_no_at: "all_digits v \<Longrightarrow> CHR ''@'' \<notin> set v"
  by (auto simp: all_digits_def list_all_iff is_digit_def code_def)

lemma allowed_no_at: "isAllowedSshOption name v \<Longrightarrow> CHR ''@'' \<notin> set v"
proof -
  have "path_with_key MUX_PATH v \<Longrightarrow> CHR ''@'' \<notin> set v"
    using key_char_no_at
    by (auto simp: path_with_key_def starts_with_iff MUX_PATH_def list_all_iff)
  then show "isAllowedSshOption name v \<Longrightarrow> ?thesis"
    using digits_no_at by (auto simp: isAllowedSshOption_def fixedOptions_def split: if_splits option.splits)
qed

lemma whitelist_no_at: "name \<in> set option_whitelist \<Longrightarrow> CHR ''@'' \<notin> set name"
  by (auto simp: option_whitelist_def REQUIRED_SSH_OPTIONS_def MUX_OPTIONS_def)

lemma option_no_at: "option_ok opt \<Longrightarrow> CHR ''@'' \<notin> set opt"
proof -
  assume "option_ok opt"
  note o = option_ok_split [OF this]
  then have "CHR ''@'' \<notin> set (option_name opt)" "CHR ''@'' \<notin> set (option_value opt)"
    using allowed_no_at whitelist_no_at [OF allowed_whitelist] by blast+
  then have "CHR ''@'' \<notin> set (option_name opt @ CHR ''='' # option_value opt)" by simp
  with o show ?thesis by metis
qed

lemma identity_word_form: "identity_ok f \<Longrightarrow> includes_str KEYS_PATH f \<and> \<not> destination_ok f"
proof -
  assume "identity_ok f"
  then obtain t where f: "f = ''/var/www/html/'' @ KEYS_PATH @ ''ssh_key@'' @ t"
    by (auto simp: identity_ok_def path_with_key_def IDENTITY_PATH_def starts_with_iff KEYS_PATH_def)
  then have "includes_str KEYS_PATH f" by (metis includes_str_iff)
  moreover have "\<not> destination_ok f"
    by (simp add: f destination_ok_def KEYS_PATH_def starts_with_def is_alnum_def is_digit_def is_upper_def
        is_lower_def code_def)
  ultimately show ?thesis ..
qed

lemma accepted_item_form:
  assumes "item_ok i" "w \<in> set (render_item i)"
  shows "i = Dest w \<and> destination_ok w \<or> \<not> destination_ok w \<and> (includes_str KEYS_PATH w \<or> \<not> user_at_host w)"
proof (cases i)
  case (Identity f)
  with assms identity_word_form show ?thesis by (auto simp: user_at_host_def starts_with_def)
next
  case (Port p)
  with assms have "CHR ''@'' \<notin> set w" using digits_no_at by (auto simp: port_ok_def)
  with no_at_user destination_user_at_host show ?thesis by blast
next
  case (Opt opt)
  with assms have "CHR ''@'' \<notin> set w" using option_no_at by auto
  with no_at_user destination_user_at_host show ?thesis by blast
qed (use assms in auto)

section \<open>The target of an accepted command line\<close>

abbreviation (input) names_host :: "string \<Rightarrow> bool" where
  "names_host arg \<equiv> \<not> includes_str KEYS_PATH arg \<and> user_at_host arg"

lemma find_skip: "(\<forall>w\<in>set ws. \<not> P w) \<Longrightarrow> find P (ws @ vs) = find P vs"
  by (induction ws) auto

lemma find_render:
  "list_all item_ok items \<Longrightarrow> find (\<lambda>a. names_host a) (render items) = find (\<lambda>a. names_host a) (destinations items)"
proof (induction items)
  case Nil
  then show ?case by simp
next
  case (Cons i items)
  then have ok: "item_ok i" by simp
  show ?case
  proof (cases "\<exists>d. i = Dest d")
    case True
    with Cons show ?thesis by auto
  next
    case False
    with accepted_item_form [OF ok] have "\<forall>w\<in>set (render_item i). \<not> names_host w" by blast
    then have "find (\<lambda>a. names_host a) (render (i # items)) = find (\<lambda>a. names_host a) (render items)"
      by (simp only: render_simps find_skip)
    moreover have "destinations (i # items) = destinations items" using False by (cases i) auto
    ultimately show ?thesis using Cons by simp
  qed
qed

lemma destinations_ok: "list_all item_ok items \<Longrightarrow> d \<in> set (destinations items) \<Longrightarrow> destination_ok d"
proof (induction items)
  case (Cons i items)
  then show ?case by (cases i) auto
qed simp

lemma dest_in_destinations: "Dest d \<in> set items \<Longrightarrow> d \<in> set (destinations items)"
proof (induction items)
  case (Cons i items)
  then show ?case by (cases i) auto
qed simp

lemma target_find: "extractTargetHost args =
    (case find (\<lambda>a. names_host a) args of None \<Rightarrow> None | Some d \<Rightarrow> extractTargetHost [d])"
proof (cases "find (\<lambda>a. names_host a) args")
  case (Some d)
  then have "names_host d" by (auto simp: find_Some_iff)
  with Some show ?thesis by (simp add: extractTargetHost_def)
qed (simp add: extractTargetHost_def)

lemma accepted_last:
  assumes "accepted_destinations ds hosts" "d \<in> set ds" "extractTargetHost [d] \<noteq> None"
  shows "isAuthorizedTargetHost (extractTargetHost [d]) hosts"
proof -
  from assms(1) have ds: "ds = butlast ds @ [last ds]" "list_all (\<lambda>d. extractTargetHost [d] = None) (butlast ds)"
    "isAuthorizedTargetHost (extractTargetHost [last ds]) hosts"
    by (auto simp: accepted_destinations_def)
  from ds(1) assms(2) have "d \<in> set (butlast ds) \<or> d = last ds" by (metis append_is_Nil_conv in_set_conv_decomp rotate1.simps(2) set_ConsD set_rotate1)
  with ds(2,3) assms(3) show ?thesis by (auto simp: list_all_iff)
qed

lemma accepted_target:
  assumes "accepted_items items hosts"
  shows "isAuthorizedTargetHost (extractTargetHost (render items)) hosts"
proof -
  from assms have ok: "list_all item_ok items" and ds: "accepted_destinations (destinations items) hosts"
    by (auto simp: accepted_items_def)
  let ?l = "last (destinations items)"
  from ds have l: "?l \<in> set (destinations items)" "isAuthorizedTargetHost (extractTargetHost [?l]) hosts"
    by (auto simp: accepted_destinations_def)
  then have "extractTargetHost [?l] \<noteq> None" using authorized_Some by fastforce
  then have "names_host ?l" by (auto simp: extractTargetHost_def split: if_splits)
  then obtain d where d: "find (\<lambda>a. names_host a) (destinations items) = Some d"
    using l(1) by (cases "find (\<lambda>a. names_host a) (destinations items)") (auto simp: find_None_iff)
  then have "d \<in> set (destinations items)" "names_host d" by (auto simp: find_Some_iff)
  then have "extractTargetHost [d] \<noteq> None" using target_of_destination destinations_ok [OF ok] by blast
  with accepted_last [OF ds \<open>d \<in> _\<close>] d find_render [OF ok] show ?thesis
    by (simp add: target_find [of "render items"])
qed

lemma accepted_host:
  assumes "accepted_items items hosts" "w \<in> set (render items)" "destination_ok w" "\<not> includes_str KEYS_PATH w"
  shows "isAuthorizedTargetHost (extractTargetHost [w]) hosts"
proof -
  from assms(1,2) obtain i where i: "i \<in> set items" "item_ok i" "w \<in> set (render_item i)"
    by (auto simp: accepted_items_def render_def list_all_iff)
  with assms(3) accepted_item_form have "Dest w \<in> set items" by blast
  then have "w \<in> set (destinations items)" by (rule dest_in_destinations)
  with assms accepted_last target_of_destination show ?thesis unfolding accepted_items_def by blast
qed

section \<open>Safe command lines\<close>

lemma item_no_mux: "item_ok i \<Longrightarrow> \<not> mux_item i \<Longrightarrow> w \<in> set (render_item i) \<Longrightarrow> option_name w \<notin> set MUX_OPTIONS"
proof -
  have flag: "option_name ''-i'' \<notin> set MUX_OPTIONS" "option_name ''-p'' \<notin> set MUX_OPTIONS"
    "option_name ''-o'' \<notin> set MUX_OPTIONS"
    by (simp_all add: option_name_def MUX_OPTIONS_def)
  have start: "option_name w \<notin> set MUX_OPTIONS" if "w \<noteq> []" "\<not> is_upper (hd w)" for w
    using that by (cases w) (auto simp: option_name_def MUX_OPTIONS_def is_upper_def code_def)
  have p: "port_ok p \<Longrightarrow> p \<noteq> [] \<and> \<not> is_upper (hd p)" for p
    by (cases p) (auto simp: port_ok_def all_digits_def is_digit_def is_upper_def)
  have f: "identity_ok f \<Longrightarrow> f \<noteq> [] \<and> \<not> is_upper (hd f)" for f
    by (auto simp: identity_ok_def path_with_key_def IDENTITY_PATH_def starts_with_iff is_upper_def code_def)
  have at: "CHR ''@'' \<notin> set n" if "n \<in> set MUX_OPTIONS" for n using that by (auto simp: MUX_OPTIONS_def)
  assume "item_ok i" "\<not> mux_item i" "w \<in> set (render_item i)"
  then show ?thesis using flag start p f at destination_option_name [of w] by (cases i) auto
qed

lemma unmuxed_items: "set MUX_OPTIONS \<inter> set (option_names items) = {} \<Longrightarrow> i \<in> set items \<Longrightarrow> \<not> mux_item i"
proof (induction items)
  case (Cons j items)
  then show ?case by (cases j) auto
qed simp

lemma safe_no_mux:
  assumes "safe_command args hosts"
  shows "list_all (\<lambda>w. option_name w \<notin> set MUX_OPTIONS) args"
proof -
  from assms obtain items where i: "args = render items" "accepted_items items hosts"
    "set MUX_OPTIONS \<inter> set (option_names items) = {}" by (auto simp: safe_command_def)
  then have "\<forall>i\<in>set items. item_ok i \<and> \<not> mux_item i"
    using unmuxed_items by (auto simp: accepted_items_def list_all_iff)
  with item_no_mux i(1) show ?thesis by (fastforce simp: render_def list_all_iff)
qed

lemma safe_idem: "safe_command args hosts \<Longrightarrow> sanitizeSshArgs args = args"
proof -
  assume "safe_command args hosts"
  then obtain items where i: "args = render items" "accepted_items items hosts"
    "set MUX_OPTIONS \<inter> set (option_names items) = {}" by (auto simp: safe_command_def)
  then have "filter (\<lambda>i. \<not> mux_item i) items = items" using unmuxed_items by (auto intro: filter_True)
  with i sanitize_render show ?thesis by (auto simp: accepted_items_def)
qed

section \<open>A sample command line\<close>

definition sample_args :: "string list" where
  "sample_args =
     [''-i'', ''/var/www/html/storage/app/ssh/keys/ssh_key@k1'', ''-o'', ''ControlMaster=auto'',
      ''-o'', ''ControlPath=/var/www/html/storage/app/ssh/mux/mux_k1'', ''-o'', ''ControlPersist=3600'',
      ''-o'', ''StrictHostKeyChecking=no'', ''-o'', ''UserKnownHostsFile=/dev/null'',
      ''-o'', ''PasswordAuthentication=no'', ''-o'', ''ConnectTimeout=10'', ''-o'', ''ServerAliveInterval=20'',
      ''-o'', ''RequestTTY=yes'', ''-o'', ''LogLevel=ERROR'', ''-p'', ''22'', ''root@10.0.0.5'']"

lemmas ssh_eval = validateSshArgs_def validation_init_def validation_complete_def has_control_def
  identity_ok_def port_ok_def path_with_key_def IDENTITY_PATH_def MUX_PATH_def key_char_def option_ok_def
  option_name_def isAllowedSshOption_def fixedOptions_def destination_ok_def extractTargetHost_def
  user_at_host_def host_part_def KEYS_PATH_def normalizeHostForAuthorization_def strip_brackets_def
  unquote_host.simps quoted_by_def slice_inner_def isAuthorizedTargetHost_def REQUIRED_SSH_OPTIONS_def
  MUX_OPTIONS_def js_defs

lemma sample_valid: "validateSshArgs sample_args [''10.0.0.5'']"
  by (simp add: sample_args_def ssh_eval)

section \<open>Properties\<close>


text \<open>
  C6. Sanitising what was validated: the result still validates for the same hosts, sanitising again
  changes nothing, and no word of it sets or names a multiplexing option.
\<close>

theorem sanitized_command_line:
  assumes "validateSshArgs args hosts"
  shows "validateSshArgs (sanitizeSshArgs args) hosts
    \<and> sanitizeSshArgs (sanitizeSshArgs args) = sanitizeSshArgs args
    \<and> list_all (\<lambda>w. option_name w \<notin> set MUX_OPTIONS) (sanitizeSshArgs args)"
  using assms ssh.clean_accepts safe_idem safe_no_mux sanitize_safe by blast

theorem sanitized_command_line_witness:
  "validateSshArgs (sanitizeSshArgs sample_args) [''10.0.0.5'']
    \<and> sanitizeSshArgs (sanitizeSshArgs sample_args) = sanitizeSshArgs sample_args
    \<and> list_all (\<lambda>w. option_name w \<notin> set MUX_OPTIONS) (sanitizeSshArgs sample_args)"
  by (rule sanitized_command_line [OF sample_valid])

text \<open>
  C7. No option can be smuggled in: every word of an accepted command line is free of NUL, carriage
  return and line feed, and is one of the three flags \<open>-i\<close>, \<open>-p\<close>, \<open>-o\<close> unless it starts with a
  character other than a dash.
\<close>

theorem accepted_words_are_inert:
  assumes "validateSshArgs args hosts"
  shows "list_all (\<lambda>w. \<not> has_control w \<and>
    (if w \<noteq> [] \<and> hd w \<noteq> CHR ''-'' then True else w = ''-i'' \<or> w = ''-p'' \<or> w = ''-o'')) args"
  using assms accepted_words by (fastforce simp: validate_policy list_all_iff)

theorem accepted_words_are_inert_witness:
  "list_all (\<lambda>w. \<not> has_control w \<and>
    (if w \<noteq> [] \<and> hd w \<noteq> CHR ''-'' then True else w = ''-i'' \<or> w = ''-p'' \<or> w = ''-o'')) sample_args"
  by (rule accepted_words_are_inert [OF sample_valid])

text \<open>
  C8. The host the server extracts from an accepted command line is authorised, and so is the host
  of every destination in it whose text does not contain the key directory.
\<close>

theorem accepted_hosts_authorized:
  assumes "validateSshArgs args hosts"
  shows "isAuthorizedTargetHost (extractTargetHost args) hosts \<and>
    (\<forall>w\<in>set args. destination_ok w \<longrightarrow> \<not> includes_str KEYS_PATH w \<longrightarrow>
       isAuthorizedTargetHost (extractTargetHost [w]) hosts)"
  using assms accepted_target accepted_host by (auto simp: validate_policy)

theorem accepted_hosts_authorized_witness:
  "isAuthorizedTargetHost (extractTargetHost [''root@10.0.0.5'']) [''10.0.0.5'']"
proof -
  have "''root@10.0.0.5'' \<in> set sample_args" "destination_ok ''root@10.0.0.5''"
    "\<not> includes_str KEYS_PATH ''root@10.0.0.5''"
    by (simp_all add: sample_args_def ssh_eval)
  with accepted_hosts_authorized [OF sample_valid] show ?thesis by blast
qed

lemma accepted_before:
  assumes "accepted_items items hosts" "item_ok (Dest d)" "includes_str KEYS_PATH d"
  shows "accepted_items (Dest d # items) hosts"
proof -
  from assms(3) have "extractTargetHost [d] = None" by (simp add: extractTargetHost_def)
  with assms(1,2) show ?thesis by (auto simp: accepted_items_def accepted_destinations_def)
qed

text \<open>
  C9. The exception is real, and it reaches every accepted command line. Put any word that has the form
  of a destination and contains the key directory before an accepted command line: whatever its user
  and the rest of its host text, the longer line is accepted for the same hosts, the target host read from it
  is still the old one, and the word stays the first destination of the cleaned command line that is
  passed to \<open>ssh\<close>.
\<close>

theorem shadowed_destination_accepted:
  assumes "validateSshArgs args hosts" "destination_ok d" "\<not> has_control d" "includes_str KEYS_PATH d"
  shows "validateSshArgs (d # args) hosts \<and> extractTargetHost (d # args) = extractTargetHost args
    \<and> find destination_ok (sanitizeSshArgs (d # args)) = Some d"
proof (intro conjI)
  from assms(1) obtain items where i: "args = render items" "accepted_items items hosts"
    by (auto simp: validate_policy)
  have "accepted_items (Dest d # items) hosts" using i(2) assms(2-4) by (simp add: accepted_before)
  moreover have "d # args = render (Dest d # items)" using i(1) by simp
  ultimately show "validateSshArgs (d # args) hosts" unfolding validate_policy by blast
  show "extractTargetHost (d # args) = extractTargetHost args" using assms(4) by (simp add: extractTargetHost_def)
  have "d \<noteq> ''-o''" using destination_word [OF assms(2)] not_flag by blast
  with assms(2) show "find destination_ok (sanitizeSshArgs (d # args)) = Some d" by simp
qed

theorem shadowed_destination_accepted_witness:
  "validateSshArgs (''root@evil.example/storage/app/ssh/keys/'' # sample_args) [''10.0.0.5'']
   \<and> \<not> isAuthorizedTargetHost (Some (host_part ''root@evil.example/storage/app/ssh/keys/'')) [''10.0.0.5'']"
proof -
  let ?d = "''root@evil.example/storage/app/ssh/keys/''"
  have "destination_ok ?d" "\<not> has_control ?d" "includes_str KEYS_PATH ?d"
    "\<not> isAuthorizedTargetHost (Some (host_part ?d)) [''10.0.0.5'']"
    by (simp_all add: ssh_eval)
  with shadowed_destination_accepted [OF sample_valid] show ?thesis by blast
qed

text \<open>
  C10. What \<open>extractSshArgs\<close> reads from a generated command: if the words after the first \<open>ssh \<close> are
  shell words (closed quotation marks, spaces only inside them) and the first \<open> 'bash -se'\<close> behind
  them is the one that ends the line, it returns exactly those words, unquoted, with a terminal
  requested.
\<close>

theorem extract_generated_words:
  assumes "list_all shell_word ws" "ws \<noteq> []" "list_all (\<lambda>c. \<not> is_line_term c) (join_sp ws)"
    and "index_of ''ssh '' (pre @ ''ssh '') = Some (length pre)"
    and "index_of BASH_SE (tl (join_sp ws) @ BASH_SE) = Some (length (tl (join_sp ws)))"
  shows "extractSshArgs (pre @ ''ssh '' @ join_sp ws @ BASH_SE @ post) =
    add_request_tty (map force_tty (map normalizeShellArgument ws))"
  using assms by (rule extractSshArgs_generated)

theorem extract_generated_words_witness:
  "extractSshArgs (''timeout 60 '' @ ''ssh '' @ join_sp [''-p'', [SQ] @ ''22'' @ [SQ], ''r@h''] @ BASH_SE @ ''x'') =
    [''-p'', ''22'', ''r@h'', ''-o'', ''RequestTTY=yes'']"
proof -
  have "extractSshArgs (''timeout 60 '' @ ''ssh '' @ join_sp [''-p'', [SQ] @ ''22'' @ [SQ], ''r@h''] @ BASH_SE @ ''x'')
    = add_request_tty (map force_tty (map normalizeShellArgument [''-p'', [SQ] @ ''22'' @ [SQ], ''r@h'']))"
    by (rule extract_generated_words) (simp_all add: shell_word_def js_defs BASH_SE_def)
  also have "\<dots> = [''-p'', ''22'', ''r@h'', ''-o'', ''RequestTTY=yes'']"
    by (simp add: add_request_tty_def force_tty_def normalizeShellArgument_def strip_pairs.simps Let_def js_defs)
  finally show ?thesis .
qed

text \<open>
  C11. The here document of a generated command is returned whole: for a delimiter without white
  space, written with a backslash, and a body that starts with white space and does not contain it,
  \<open>extractHereDocContent\<close> returns the body. Escaping the delimiter makes every regular expression
  character in it a literal.
\<close>

theorem heredoc_of_generated_command:
  assumes "d \<noteq> []" "list_all (\<lambda>c. \<not> is_ws c) d"
    and "body \<noteq> []" "is_ws (hd body)" "index_of d (body @ d) = Some (length body)"
    and "index_of ''<< '' (pre @ ''<< '') = Some (length pre)"
  shows "extractHereDocContent (pre @ ''<< '' @ [BSL] @ d @ body @ d @ post) = body"
  using assms by (rule hereDoc_generated)

theorem heredoc_of_generated_command_witness:
  "extractHereDocContent (''ssh h '' @ ''<< '' @ [BSL] @ ''E.$'' @ '' ls '' @ ''E.$'' @ []) = '' ls ''"
  by (rule heredoc_of_generated_command) (simp_all add: js_defs)

text \<open>
  \<open>normalizeShellArgument\<close> on an argument whose two kinds of quotation mark are each balanced
  removes exactly the quotation marks.
\<close>

theorem normalize_removes_quotes:
  assumes "even (count_list a SQ)" "even (count_list a DQ)"
  shows "normalizeShellArgument a = filter (\<lambda>c. c \<noteq> SQ \<and> c \<noteq> DQ) a"
proof -
  have "count_list (filter (\<lambda>c. c \<noteq> SQ) a) DQ = count_list a DQ" by (induction a) auto
  with assms strip_pairs_even show ?thesis
    by (auto simp: normalizeShellArgument_def conj_commute)
qed

theorem normalize_removes_quotes_witness:
  "normalizeShellArgument ([SQ] @ ''a'' @ [DQ] @ ''b'' @ [DQ, SQ]) = ''ab''"
  using normalize_removes_quotes [of "[SQ] @ ''a'' @ [DQ] @ ''b'' @ [DQ, SQ]"] by simp

text \<open>
  Every non-empty argument list \<open>extractSshArgs\<close> returns mentions \<open>RequestTTY=\<close>, and none of its
  words is \<open>RequestTTY=no\<close>.
\<close>

theorem extract_requests_terminal:
  assumes "extractSshArgs commandString \<noteq> []"
  shows "list_ex (includes_str ''RequestTTY='') (extractSshArgs commandString)
    \<and> ''RequestTTY=no'' \<notin> set (extractSshArgs commandString)"
  using assms by (rule extractSshArgs_tty)

theorem extract_requests_terminal_witness:
  "''RequestTTY=no'' \<notin> set (extractSshArgs (''ssh h'' @ BASH_SE))"
proof -
  have "extractSshArgs (''ssh h'' @ BASH_SE) = [''h'', ''-o'', ''RequestTTY=yes'']"
    by (simp add: extractSshArgs_def sshCommandMatch_def BASH_SE_def split_args_def split_init_def split_step_def
        add_request_tty_def force_tty_def normalizeShellArgument_def strip_pairs.simps Let_def js_defs)
  then have "extractSshArgs (''ssh h'' @ BASH_SE) \<noteq> []" by simp
  then show ?thesis using extract_requests_terminal by blast
qed

text \<open>
  Authorisation compares normalised hosts: a target is authorised exactly when it and some host
  of the list have the same non-empty normal form, and letter case plays no part in that form.
\<close>

theorem authorization_by_normal_form:
  "(isAuthorizedTargetHost t hosts \<longleftrightarrow>
     (\<exists>n h. n \<noteq> [] \<and> h \<in> set hosts \<and> normalizeHostForAuthorization t = Some n
        \<and> normalizeHostForAuthorization (Some h) = Some n))
   \<and> normalizeHostForAuthorization (Some (js_lower g)) = normalizeHostForAuthorization (Some g)"
  using authorized_iff normalize_lower by blast

end
