(* ===== verification/Server_Properties.thy ===== *)
theory Server_Properties imports Server_Log Ssh_Properties begin

text \<open>
  What the terminal server guarantees over every run its environment can produce, what one command
  or one termination does, and three runs that end badly. The sample run at the start connects a
  client, authorises it and starts a terminal; its states are computed from the lemmas of the
  components, not by evaluating the JSON text.
\<close>

section \<open>A sample run\<close>

definition sample_cookie :: session_cookie where
  "sample_cookie = \<lparr>sessionCookieName = ''laravel_session'', xsrfToken = Some ''x'', laravelSession = Some ''y''\<rparr>"

definition sample_ips :: json where
  "sample_ips = JObj [(''ipAddresses'', JArr [JStr ''10.0.0.5''])]"

definition sample_reply :: http_reply where
  "sample_reply = Reply (Some 200) (Some ''application/json'') (the (json_stringify sample_ips))"

definition sample_command :: string where
  "sample_command = ''timeout 9 '' @ ''ssh '' @ join_sp sample_args @ BASH_SE @ '' << '' @ [BSL] @ ''E ls E''"

definition sample_message :: json where
  "sample_message = JObj [(''command'', JArr [JStr sample_command])]"

definition sample_text :: string where
  "sample_text = the (json_stringify sample_message)"

definition sample_run :: "event list" where
  "sample_run = [Connection 0 ''u'' sample_cookie, IpsReply 0 sample_reply, Message 0 sample_text]"

lemma sample_text_parses: "json_parse sample_text = Some sample_message"
proof -
  have "json_stringify sample_message = Some sample_text" "wf_json sample_message"
    by (simp_all add: sample_text_def sample_message_def)
  then show ?thesis by (rule parse_stringify)
qed

lemma sample_reply_parses: "fetch_ips sample_reply = Some (JArr [JStr ''10.0.0.5''])"
proof -
  have "json_stringify sample_ips = Some (the (json_stringify sample_ips))" "wf_json sample_ips"
    by (simp_all add: sample_ips_def)
  then have p: "json_parse (the (json_stringify sample_ips)) = Some sample_ips" by (rule parse_stringify)
  have "the (json_stringify sample_ips) \<noteq> []" by (simp add: sample_ips_def)
  with p show ?thesis
    by (simp add: sample_reply_def fetch_ips_def postToCoolify_def parseResponseData_def js_defs
        ipAddresses_def sample_ips_def)
qed

lemma sample_command_args: "extractSshArgs sample_command = sample_args"
proof -
  have "extractSshArgs sample_command = add_request_tty (map force_tty (map normalizeShellArgument sample_args))"
    unfolding sample_command_def
    by (rule extractSshArgs_generated) (simp_all add: sample_args_def shell_word_def js_defs BASH_SE_def)
  also have "map normalizeShellArgument sample_args = sample_args"
    by (simp add: sample_args_def normalizeShellArgument_def strip_pairs_eqs(1))
  also have "add_request_tty (map force_tty sample_args) = sample_args"
    by (simp add: sample_args_def force_tty_def add_request_tty_def)
  finally show ?thesis .
qed

lemma sample_command_line: "replace_char LF SP sample_command = sample_command"
  by (simp add: replace_char_def sample_command_def sample_args_def BASH_SE_def)

section \<open>One command\<close>

definition refusal :: "string list \<Rightarrow> string list \<Rightarrow> string" where
  "refusal args hosts =
     (if \<not> truthy_str (extractTargetHost args) then ''Invalid SSH command: No target host found''
      else if \<not> isAuthorizedTargetHost (extractTargetHost args) hosts
      then ''Unauthorized: Target host '' @ the (extractTargetHost args) @ '' not in authorized list''
      else ''Invalid SSH command: Unsupported SSH arguments'')"

lemma authorized_truthy: "isAuthorizedTargetHost t hosts \<Longrightarrow> truthy_str t"
  by (cases t) (auto simp: isAuthorizedTargetHost_def normalizeHostForAuthorization_def truthy_str_def)

text \<open>Looking for the target among the hosts throws: they are no list of strings.\<close>

definition hosts_unreadable :: "string list \<Rightarrow> json \<Rightarrow> bool" where
  "hosts_unreadable args v \<longleftrightarrow> truthy_str (extractTargetHost args) \<and> check_target (extractTargetHost args) v = None"

lemma readable_hosts: "host_list v \<noteq> None \<Longrightarrow> \<not> hosts_unreadable args v"
  by (simp add: hosts_unreadable_def check_target_total)

lemma run_command_cases:
  assumes "sessions s cid = Some ss" "command_text command = Some t"
    and "args = extractSshArgs (replace_char LF SP t)"
  shows "run_command ws cid command s =
    (if validateSshArgs args (host_names (authorizedIPs ss))
     then spawn_pty ws cid (sanitizeSshArgs args @ [extractHereDocContent (replace_char LF SP t)])
            (clear_session_timer cid s)
     else if hosts_unreadable args (authorizedIPs ss) then reject (clear_session_timer cid s)
     else ws_send ws (OText (refusal args (host_names (authorizedIPs ss)))) (clear_session_timer cid s))"
proof -
  let ?v = "authorizedIPs ss" and ?t = "extractTargetHost args"
  have valid: "check_target ?t ?v = Some True \<and> truthy_str ?t" if "validateSshArgs args (host_names ?v)"
  proof -
    have "isAuthorizedTargetHost ?t (host_names ?v)" using that accepted_target by (auto simp: validate_policy)
    then show ?thesis using authorized_truthy authorized_checked(1) by blast
  qed
  have ips: "authorizedIPs (session_of (clear_session_timer cid s) cid) = ?v"
    using assms(1) by (simp add: session_of_def sessions_clear_timer)
  show ?thesis
  proof (cases "check_target ?t ?v")
    case None
    then show ?thesis using assms(2,3) valid ips
      by (auto simp: run_command_def Let_def refusal_def hosts_unreadable_def)
  next
    case (Some b)
    from check_target_Some [OF this] Some show ?thesis using assms(2,3) valid ips
      by (auto simp: run_command_def Let_def refusal_def hosts_unreadable_def)
  qed
qed

text \<open>
  C12. One command on a session without a running terminal: if the arguments read from its text
  pass \<open>validateSshArgs\<close> for the hosts of the session, exactly one process is started, with the sanitised
  arguments and the here document, the session becomes active with its time limit set, and the client is told
  \<open>pty-ready\<close>; otherwise no process is started and the client is told why, or nothing is sent and the
  promise of the handler is rejected because the backend's value is no list of hosts. So the two earlier
  checks of the target host only choose the message.
\<close>

theorem command_starts_exactly_validated:
  assumes "sessions s cid = Some ss" "command_text command = Some t"
    and "args = extractSshArgs (replace_char LF SP t)" "hosts = host_names (authorizedIPs ss)"
  shows "if validateSshArgs args hosts
    then ptys (run_command ws cid command s) = (ptys s)(next_id s \<mapsto>
           \<lparr>pty_owner = cid, pty_ws = ws,
            pty_args = sanitizeSshArgs args @ [extractHereDocContent (replace_char LF SP t)],
            pty_live = True, pty_ops = []\<rparr>)
      \<and> sessions (run_command ws cid command s) cid = Some (ss\<lparr>ptyProcess := Some (next_id s), isActive := True,
           terminalSessionTimer := Some (Suc (next_id s))\<rparr>)
      \<and> timers (run_command ws cid command s) (Suc (next_id s)) = Some (userId ss, getTerminalSessionTimeout * 1000)
      \<and> sent (run_command ws cid command s) = sent s @ [(ws, OText ''pty-ready'')]
    else ptys (run_command ws cid command s) = ptys s
      \<and> sessions (run_command ws cid command s) cid = Some (ss\<lparr>terminalSessionTimer := None\<rparr>)
      \<and> (if hosts_unreadable args (authorizedIPs ss)
          then sent (run_command ws cid command s) = sent s \<and> rejected (run_command ws cid command s)
          else sent (run_command ws cid command s) = sent s @ [(ws, OText (refusal args hosts))])"
proof -
  have sent: "sent (clear_session_timer cid s) = sent s"
    by (simp add: clear_session_timer_def upd_session_def split: option.split)
  have ss: "sessions (clear_session_timer cid s) cid = Some (ss\<lparr>terminalSessionTimer := None\<rparr>)"
    using assms(1) by (simp add: sessions_clear_timer)
  show ?thesis
    unfolding run_command_cases [OF assms(1-3)] assms(4)
    using ss by (simp add: fun_eq_iff ptys_spawn sessions_spawn sent)
      (simp add: spawn_pty_def Let_def ws_send_def upd_session_def session_of_def sent reject_def)
qed

section \<open>The states of the sample run\<close>

definition sample_state2 :: server where
  "sample_state2 = run_events server_step server_init (butlast sample_run)"

definition sample_state3 :: server where
  "sample_state3 = run_events server_step server_init sample_run"

definition sample_session :: session where
  "sample_session = \<lparr>userId = ''u'', ptyProcess = None, isActive = False, authorizedIPs = JArr [JStr ''10.0.0.5''],
     authReady = True, pendingMessages = [], terminalSessionTimer = None, awaitingIps = False\<rparr>"

lemma sample_state2_eq:
  "sample_state2 = server_init\<lparr>userSessions := Map.empty(''u'' \<mapsto> 0),
     sessions := Map.empty(0 \<mapsto> sample_session),
     sockets := Map.empty(0 \<mapsto> \<lparr>sock_state = Open, isAlive = True\<rparr>)\<rparr>"
  by (simp add: sample_state2_def sample_run_def server_step_def end_turn_def server_init_def on_connection_def new_session_def
      has_tokens_def sample_cookie_def truthy_str_def Let_def on_ips_def sample_reply_parses session_of_def
      upd_session_def sample_session_def)

lemma sample_hosts: "host_list (authorizedIPs sample_session) = Some [''10.0.0.5'']"
  "host_names (authorizedIPs sample_session) = [''10.0.0.5'']"
  by (simp_all add: sample_session_def host_names_def host_list_def is_string_def)

lemma sample_command_text: "command_text (JArr [JStr sample_command]) = Some sample_command"
  by (simp add: command_text_def)

lemma sample_step:
  "react (Message 0 sample_text) sample_state2 =
     run_command 0 0 (JArr [JStr sample_command]) (sample_state2\<lparr>handled := [(0, sample_text)]\<rparr>)"
  by (simp add: on_message_def handleMessage_def parseMessage_def sample_text_parses sample_message_def
      sample_state2_eq session_of_def sample_session_def Let_def handle_entry_def server_init_def
      messageHandlers_def always_handled_def call_handler_def handleCommand_def)

lemma sample_run_split: "sample_run = butlast sample_run @ [Message 0 sample_text]"
  by (simp add: sample_run_def)

lemma sample_state3_step: "sample_state3 = react (Message 0 sample_text) sample_state2"
proof -
  have "sample_state3 = server_step sample_state2 (Message 0 sample_text)"
    unfolding sample_state3_def sample_state2_def
    by (subst sample_run_split) (simp add: run_events_append)
  moreover have "\<not> crashed sample_state2" "\<not> rejected sample_state2"
    by (simp_all add: sample_state2_eq server_init_def)
  ultimately show ?thesis
    using run_command_rejected [OF sample_command_text, of "sample_state2\<lparr>handled := [(0, sample_text)]\<rparr>" 0 sample_session]
    by (simp del: react.simps add: server_step_def end_turn_def sample_step sample_hosts) (simp add: sample_state2_eq)
qed

lemma sample_run_ok: "run_ok server_step event_ok server_init sample_run"
proof -
  have "run_ok server_step event_ok server_init (butlast sample_run)"
    by (simp add: sample_run_def server_step_def end_turn_def server_init_def on_connection_def new_session_def
        has_tokens_def sample_cookie_def truthy_str_def Let_def)
  moreover have "event_ok sample_state2 (Message 0 sample_text)"
    by (simp add: sample_state2_eq live_socket_def)
  ultimately show ?thesis by (metis run_ok_append run_ok.simps sample_run_split sample_state2_def)
qed

text \<open>The sample command is accepted in the sample state, so the third state has a terminal.\<close>

lemma sample_terminal:
  "ptys sample_state3 0 = Some \<lparr>pty_owner = 0, pty_ws = 0,
      pty_args = sanitizeSshArgs sample_args @ [extractHereDocContent sample_command],
      pty_live = True, pty_ops = []\<rparr>"
  "sessions sample_state3 0 = Some (sample_session\<lparr>ptyProcess := Some 0, isActive := True,
      terminalSessionTimer := Some 1\<rparr>)"
proof -
  let ?s = "sample_state2\<lparr>handled := [(0, sample_text)]\<rparr>"
  have ss: "sessions ?s 0 = Some sample_session" by (simp add: sample_state2_eq)
  have "run_command 0 0 (JArr [JStr sample_command]) ?s =
      spawn_pty 0 0 (sanitizeSshArgs sample_args @ [extractHereDocContent sample_command]) (clear_session_timer 0 ?s)"
    using run_command_cases [OF ss sample_command_text refl, of 0] sample_valid
    by (simp add: sample_command_line sample_command_args sample_hosts)
  then have eq: "sample_state3 =
      spawn_pty 0 0 (sanitizeSshArgs sample_args @ [extractHereDocContent sample_command]) (clear_session_timer 0 ?s)"
    by (simp only: sample_state3_step sample_step)
  have "next_id sample_state2 = 0" by (simp add: sample_state2_eq server_init_def)
  then show "ptys sample_state3 0 = Some \<lparr>pty_owner = 0, pty_ws = 0,
      pty_args = sanitizeSshArgs sample_args @ [extractHereDocContent sample_command],
      pty_live = True, pty_ops = []\<rparr>"
    "sessions sample_state3 0 = Some (sample_session\<lparr>ptyProcess := Some 0, isActive := True,
      terminalSessionTimer := Some 1\<rparr>)"
    using ss by (simp_all add: eq ptys_spawn sessions_spawn sessions_clear_timer)
qed

lemma sample_state3_frame:
  "userSessions sample_state3 = userSessions sample_state2" "kills sample_state3 = kills sample_state2"
  "crashed sample_state3 = crashed sample_state2" "sockets sample_state3 = sockets sample_state2"
proof -
  let ?s = "sample_state2\<lparr>handled := [(0, sample_text)]\<rparr>"
  have ss: "sessions ?s 0 = Some sample_session" by (simp add: sample_state2_eq)
  then show "userSessions sample_state3 = userSessions sample_state2" "kills sample_state3 = kills sample_state2"
    "crashed sample_state3 = crashed sample_state2" "sockets sample_state3 = sockets sample_state2"
    unfolding sample_state3_step sample_step run_command_cases [OF ss sample_command_text refl]
    by (simp_all add: readable_hosts sample_hosts)
qed

theorem command_starts_exactly_validated_witness:
  "sent (run_command 0 0 (JArr [JStr sample_command]) sample_state2) = [(0, OText ''pty-ready'')]"
proof -
  have ss: "sessions sample_state2 0 = Some sample_session" by (simp add: sample_state2_eq)
  have "validateSshArgs (extractSshArgs (replace_char LF SP sample_command)) (host_names (authorizedIPs sample_session))"
    using sample_valid by (simp add: sample_command_line sample_command_args sample_hosts)
  then have "sent (run_command 0 0 (JArr [JStr sample_command]) sample_state2) =
      sent sample_state2 @ [(0, OText ''pty-ready'')]"
    using command_starts_exactly_validated [OF ss sample_command_text refl refl, of 0] by simp
  then show ?thesis by (simp add: sample_state2_eq server_init_def)
qed

section \<open>Every run\<close>

text \<open>
  C1. Whatever events the environment delivers, every process the server has ever started belongs
  to a session and runs \<open>ssh\<close> with arguments that validate for exactly the hosts the backend
  returned for that connection, which came as a list of strings, and that hold no multiplexing option.
\<close>

theorem every_terminal_authorized:
  assumes "run_ok server_step event_ok server_init es"
    and "s = run_events server_step server_init es" "ptys s pid = Some p"
  shows "\<exists>r v hosts args here. IpsReply (pty_owner p) r \<in> set es \<and> fetch_ips r = Some v \<and> host_list v = Some hosts
    \<and> pty_args p = args @ [here] \<and> validateSshArgs args hosts
    \<and> list_all (\<lambda>w. option_name w \<notin> set MUX_OPTIONS) args"
proof -
  from run_log_inv [OF assms(1)] assms(2) have inv: "server_inv s" "conn_ok s es (pty_owner p)"
    by (auto simp: log_inv_def)
  from inv(1) assms(3) obtain ss args here where ss: "sessions s (pty_owner p) = Some ss" "authReady ss"
    "pty_args p = args @ [here]" "safe_command args (host_names (authorizedIPs ss))"
    unfolding server_inv_def args_ok_def by blast
  then have valid: "validateSshArgs args (host_names (authorizedIPs ss))" by (intro ssh.safe_accepts)
  then have "isAuthorizedTargetHost (extractTargetHost args) (host_names (authorizedIPs ss))"
    using accepted_target by (auto simp: validate_policy)
  then have "host_list (authorizedIPs ss) = Some (host_names (authorizedIPs ss))" by (rule authorized_checked)
  moreover from inv(2) ss obtain r where "IpsReply (pty_owner p) r \<in> set es" "fetch_ips r = Some (authorizedIPs ss)"
    by (auto simp: conn_ok_def mail_def)
  ultimately show ?thesis using valid ss(3) safe_no_mux [OF ss(4)] by blast
qed

theorem every_terminal_authorized_witness:
  "\<exists>r v hosts. IpsReply 0 r \<in> set sample_run \<and> fetch_ips r = Some v \<and> host_list v = Some hosts"
  using every_terminal_authorized [OF sample_run_ok sample_state3_def sample_terminal(1)] by auto

text \<open>
  C2. In every reachable state a session is active exactly while a process it owns lives, it owns at
  most one living process, that process is its \<open>ptyProcess\<close>, and while it is active its time limit
  is set.
\<close>

theorem session_follows_terminal:
  assumes "run_ok server_step event_ok server_init es"
    and "s = run_events server_step server_init es" "sessions s cid = Some ss"
  shows "(isActive ss \<longleftrightarrow> (\<exists>pid p. ptys s pid = Some p \<and> pty_live p \<and> pty_owner p = cid))
    \<and> (\<forall>pid p. ptys s pid = Some p \<and> pty_live p \<and> pty_owner p = cid \<longrightarrow> ptyProcess ss = Some pid)
    \<and> (isActive ss \<longrightarrow> terminalSessionTimer ss \<noteq> None)"
proof -
  from run_log_inv [OF assms(1)] assms(2) have "active_ok s" "live_ok s"
    by (auto simp: log_inv_def server_inv_def)
  with assms(3) show ?thesis unfolding active_ok_def live_ok_def by (metis option.inject)
qed

theorem session_follows_terminal_witness:
  "\<exists>pid p. ptys sample_state3 pid = Some p \<and> pty_live p \<and> pty_owner p = 0"
  using session_follows_terminal [OF sample_run_ok sample_state3_def sample_terminal(2)] by simp

text \<open>
  C3. Messages are handled in order and none is lost: in every reachable state of a server that has
  not crashed, the messages a connection has received are those handled for it, in that order,
  followed by those still buffered; and nothing is buffered once its hosts have arrived.
\<close>

theorem messages_in_order:
  assumes "run_ok server_step event_ok server_init es"
    and "s = run_events server_step server_init es" "sessions s cid = Some ss" "\<not> crashed s"
  shows "received cid es = handled_by cid s @ pendingMessages ss \<and> (authReady ss \<longrightarrow> pendingMessages ss = [])"
proof -
  from run_log_inv [OF assms(1)] assms(2) have "conn_ok s es cid" by (auto simp: log_inv_def)
  with assms(3,4) show ?thesis by (auto simp: conn_ok_def mail_def)
qed

theorem messages_in_order_witness:
  "received 0 (butlast sample_run) = handled_by 0 sample_state2 @ pendingMessages sample_session"
proof -
  have ok: "run_ok server_step event_ok server_init (butlast sample_run)"
    using sample_run_ok by (metis run_ok_append sample_run_split)
  have "sessions sample_state2 0 = Some sample_session" "\<not> crashed sample_state2"
    by (simp_all add: sample_state2_eq server_init_def)
  from messages_in_order [OF ok sample_state2_def this] show ?thesis by blast
qed

section \<open>Ending a terminal that does not end\<close>

definition kill_writes :: "nat \<Rightarrow> nat \<Rightarrow> server \<Rightarrow> server" where
  "kill_writes j pid s =
     s\<lparr>ptys := (ptys s)(pid := map_option (\<lambda>q. q\<lparr>pty_ops := pty_ops q @ replicate j (PWrite (JStr KILL_TEXT))\<rparr>) (ptys s pid)),
       next_id := next_id s + j\<rparr>"

definition kill_pending :: "nat \<Rightarrow> nat \<Rightarrow> nat \<Rightarrow> kill_cont \<Rightarrow> server \<Rightarrow> server" where
  "kill_pending j pid cid cont s =
     (kill_writes j pid s)\<lparr>kills := (kills s)(next_id s + j - 1 \<mapsto>
        \<lparr>kt_session = cid, kt_attempts = j, kt_cont = cont\<rparr>)\<rparr>"

lemma kill_writes_Suc:
  "attemptKill cid j cont (kill_writes j pid s) = kill_pending (Suc j) pid cid cont s"
  if "sessions s cid = Some ss" "ptyProcess ss = Some pid"
  using that by (cases "ptys s pid")
    (auto simp: attemptKill_def Let_def kill_writes_def kill_pending_def pty_do_def session_of_def
      replicate_append_same fun_eq_iff)

lemma kill_writes_0: "kill_writes 0 pid s = s"
  by (cases "ptys s pid") (simp_all add: kill_writes_def fun_upd_idem)

lemma kill_round:
  assumes "sessions s cid = Some ss" "ptyProcess ss = Some pid" "isActive ss" "kills s (next_id s + j) = None"
  shows "kill_check (next_id s + j) (kill_pending (Suc j) pid cid cont s) =
    (if Suc j < maxAttempts then kill_pending (Suc (Suc j)) pid cid cont s
     else kill_resolve cid cont False (kill_writes (Suc j) pid s))"
proof -
  let ?p = "kill_pending (Suc j) pid cid cont s"
  have "?p\<lparr>kills := (kills ?p)(next_id s + j := None)\<rparr> = kill_writes (Suc j) pid s"
    using assms(4) by (simp add: kill_pending_def kill_writes_def fun_upd_idem)
  moreover have "kills ?p (next_id s + j) = Some \<lparr>kt_session = cid, kt_attempts = Suc j, kt_cont = cont\<rparr>"
    by (simp add: kill_pending_def)
  moreover have "session_of ?p cid = ss"
    using assms(1) by (simp add: kill_pending_def kill_writes_def session_of_def)
  ultimately show ?thesis using assms kill_writes_Suc [OF assms(1,2)] by (simp add: kill_check_def Let_def)
qed

text \<open>
  C13. A terminal that does not react to being ended: with no other event in between, the five
  timers of \<open>killPtyProcess\<close> write the kill sequence to the process exactly five times, after which
  the promise settles with \<open>false\<close>, whoever awaits it. For a new command that is the reply
  \<open>unprocessable\<close>; for the expired session time limit nothing further happens, and the process and
  its session live on.
\<close>

theorem kill_gives_up_after_five:
  assumes "sessions s cid = Some ss" "ptyProcess ss = Some pid" "isActive ss"
    and "userSessions s uid = Some cid" "\<And>k. next_id s \<le> k \<Longrightarrow> kills s k = None"
  shows "fold kill_check [next_id s ..< next_id s + 5] (killPtyProcess uid cont s) =
    kill_resolve cid cont False (kill_writes 5 pid s)"
proof -
  have "killPtyProcess uid cont s = attemptKill cid 0 cont (kill_writes 0 pid s)"
    using assms(1,2,4) by (simp add: killPtyProcess_def session_of_def kill_writes_0)
  then have "killPtyProcess uid cont s = kill_pending 1 pid cid cont s"
    using kill_writes_Suc [OF assms(1,2)] by simp
  moreover have "[next_id s ..< next_id s + 5] =
      [next_id s + 0, next_id s + 1, next_id s + 2, next_id s + 3, next_id s + 4]"
    by (simp add: upt_rec)
  ultimately show ?thesis
    using kill_round [OF assms(1-3) assms(5), of 0] kill_round [OF assms(1-3) assms(5), of 1]
      kill_round [OF assms(1-3) assms(5), of 2] kill_round [OF assms(1-3) assms(5), of 3]
      kill_round [OF assms(1-3) assms(5), of 4]
    by (simp add: maxAttempts_def numeral_eq_Suc)
qed

theorem kill_gives_up_after_five_witness:
  "isActive (session_of (fold kill_check [next_id sample_state3 ..< next_id sample_state3 + 5]
     (killPtyProcess ''u'' KIgnore sample_state3)) 0)"
proof -
  have "userSessions sample_state3 ''u'' = Some 0 \<and> (\<forall>k. kills sample_state3 k = None)"
    using sample_state3_frame by (simp add: sample_state2_eq server_init_def)
  with kill_gives_up_after_five [OF sample_terminal(2), of 0 "''u''" KIgnore]
  have "fold kill_check [next_id sample_state3 ..< next_id sample_state3 + 5] (killPtyProcess ''u'' KIgnore sample_state3)
      = kill_writes 5 0 sample_state3"
    by (simp add: kill_resolve_def)
  then show ?thesis using sample_terminal(2) by (simp add: kill_writes_def session_of_def)
qed

section \<open>Admission and liveness of connections\<close>

text \<open>
  \<open>verifyClient\<close> admits a connection exactly when both tokens are present and not empty and the
  backend answers status 200 with a body that is empty, not declared JSON, or valid JSON. Whoever
  is admitted has the tokens the connection handler checks again.
\<close>

theorem admitted_exactly_with_tokens:
  "verifyClient c r = Accept \<longleftrightarrow>
     (\<exists>x l ct body. xsrfToken c = Some x \<and> x \<noteq> [] \<and> laravelSession c = Some l \<and> l \<noteq> []
        \<and> r = Reply (Some 200) ct body
        \<and> (if body \<noteq> [] \<and> includes_str ''application/json'' (case ct of None \<Rightarrow> [] | Some t \<Rightarrow> t)
            then json_parse body \<noteq> None else True))"
  by (cases r; cases "xsrfToken c"; cases "laravelSession c")
    (auto simp: verifyClient_def has_tokens_def truthy_str_def postToCoolify_def parseResponseData_def
      split: option.splits if_splits)

lemma heartbeat_other:
  assumes "d \<noteq> c"
  shows "sockets (heartbeat_client d s) c = sockets s c"
    "filter (\<lambda>x. fst x = c) (sent (heartbeat_client d s)) = filter (\<lambda>x. fst x = c) (sent s)"
  using assms by (simp_all add: heartbeat_client_def upd_socket_def ws_send_def split: option.split)

definition beat :: "socket \<Rightarrow> socket \<times> out" where
  "beat k = (if isAlive k then (k\<lparr>isAlive := False\<rparr>, OPing) else (k\<lparr>sock_state := Closing\<rparr>, OTerminate))"

lemma heartbeat_one:
  assumes "sockets s c = Some k" "sock_state k \<noteq> Closed" "c \<in> set cs" "distinct cs"
  shows "sockets (on_heartbeat cs s) c = Some (fst (beat k))
    \<and> filter (\<lambda>x. fst x = c) (sent (on_heartbeat cs s)) = filter (\<lambda>x. fst x = c) (sent s) @ [(c, snd (beat k))]"
proof -
  from assms(3,4) obtain us vs where cs: "cs = us @ c # vs" "c \<notin> set us" "c \<notin> set vs"
    by (metis distinct.simps(2) distinct_append not_distinct_conv_prefix split_list_first)
  have skip: "c \<notin> set ds \<Longrightarrow> sockets (fold heartbeat_client ds s) c = sockets s c
    \<and> filter (\<lambda>x. fst x = c) (sent (fold heartbeat_client ds s)) = filter (\<lambda>x. fst x = c) (sent s)" for ds s
    by (induction ds arbitrary: s) (auto simp: heartbeat_other)
  have "sockets (heartbeat_client c t) c = Some (fst (beat k))
    \<and> filter (\<lambda>x. fst x = c) (sent (heartbeat_client c t)) = filter (\<lambda>x. fst x = c) (sent t) @ [(c, snd (beat k))]"
    if "sockets t c = Some k" for t
    using that assms(2) by (simp add: heartbeat_client_def beat_def upd_socket_def ws_send_def)
  with skip cs assms(1) show ?thesis by (simp add: on_heartbeat_def)
qed

text \<open>
  C15. The heartbeat detects a dead peer within two beats and never drops a live one: a connection
  that was alive is sent a ping by the first beat; if no pong comes it is terminated by the second,
  and if a pong comes in between it is pinged again. Other connections do not matter.
\<close>

theorem heartbeat_two_beats:
  assumes "sockets s c = Some k" "sock_state k \<noteq> Closed" "isAlive k" "c \<in> set cs" "distinct cs"
  shows "filter (\<lambda>x. fst x = c) (sent (on_heartbeat cs (on_heartbeat cs s)))
      = filter (\<lambda>x. fst x = c) (sent s) @ [(c, OPing), (c, OTerminate)]
    \<and> filter (\<lambda>x. fst x = c) (sent (on_heartbeat cs (on_pong c (on_heartbeat cs s))))
      = filter (\<lambda>x. fst x = c) (sent s) @ [(c, OPing), (c, OPing)]"
proof -
  note one = heartbeat_one [OF assms(1,2,4,5)]
  let ?s = "on_heartbeat cs s"
  have k: "sockets ?s c = Some (k\<lparr>isAlive := False\<rparr>)" using one assms(3) by (simp add: beat_def)
  have p: "sockets (on_pong c ?s) c = Some k" using k assms(3) by (simp add: on_pong_def upd_socket_def)
  have "sent (on_pong c ?s) = sent ?s" by (simp add: on_pong_def upd_socket_def)
  then show ?thesis
    using one assms(2,3) heartbeat_one [OF k _ assms(4,5)] heartbeat_one [OF p assms(2,4,5)]
    by (simp add: beat_def)
qed

theorem heartbeat_two_beats_witness:
  "filter (\<lambda>x. fst x = 0) (sent (on_heartbeat [0] (on_heartbeat [0] sample_state2)))
     = [(0, OPing), (0, OTerminate)]"
proof -
  have "sockets sample_state2 0 = Some \<lparr>sock_state = Open, isAlive = True\<rparr>" "sent sample_state2 = []"
    by (simp_all add: sample_state2_eq server_init_def)
  then show ?thesis
    using heartbeat_two_beats [of sample_state2 0 "\<lparr>sock_state = Open, isAlive = True\<rparr>" "[0]"] by simp
qed

section \<open>Runs that end badly\<close>

text \<open>
  C16. A client can end the server: on a connection whose hosts have arrived, that is registered and has no
  running terminal, a message with a \<open>command\<close> whose element 0 is not a string (\<open>null\<close>, a number, a
  boolean, an object without such an element, an array or text that is empty, an array that starts
  with something else) makes \<open>handleCommand\<close> reject, nobody catches that, and the process with every
  other session in it is gone; later events change nothing.
\<close>

theorem malformed_command_crashes_server:
  assumes "sessions s cid = Some ss" "authReady ss" "\<not> isActive ss" "userSessions s (userId ss) = Some cid"
    and "\<not> crashed s" "json_parse m = Some (JObj [(''command'', v)])" "command_text v = None"
  shows "crashed (run_events server_step s (Message cid m # es))"
proof -
  have "crashed (server_step s (Message cid m))"
    using assms by (simp add: server_step_def end_turn_def on_message_def session_of_def handleMessage_def parseMessage_def
        handle_entry_def messageHandlers_def always_handled_def call_handler_def handleCommand_def
        run_command_def Let_def crash_def reject_def)
  moreover have "crashed t \<Longrightarrow> crashed (run_events server_step t es)" for t
    by (induction es) (simp_all add: server_step_def end_turn_def)
  ultimately show ?thesis by simp
qed

theorem malformed_command_crashes_server_witness:
  "crashed (run_events server_step sample_state2 [Message 0 (the (json_stringify (JObj [(''command'', JNull)])))])"
proof -
  have "sessions sample_state2 0 = Some sample_session" "userSessions sample_state2 ''u'' = Some 0" "\<not> crashed sample_state2"
    by (simp_all add: sample_state2_eq server_init_def)
  moreover have "json_parse (the (json_stringify (JObj [(''command'', JNull)]))) = Some (JObj [(''command'', JNull)])"
    by (rule parse_stringify) simp_all
  ultimately show ?thesis
    using malformed_command_crashes_server [of sample_state2 0 sample_session _ JNull "[]"]
    by (simp add: sample_session_def command_text_def)
qed

definition orphan_run :: "event list" where
  "orphan_run = [Connection 0 ''u'' sample_cookie, Message 0 sample_text, SockClose 0, IpsReply 0 sample_reply]"

definition orphan_state :: server where
  "orphan_state = server_init\<lparr>userSessions := Map.empty(''u'' \<mapsto> 0),
     sessions := Map.empty(0 \<mapsto> sample_session),
     sockets := Map.empty(0 \<mapsto> \<lparr>sock_state = Closed, isAlive = True\<rparr>), handled := [(0, sample_text)]\<rparr>"

lemma orphan_calm: "\<not> rejected (run_command 0 0 (JArr [JStr sample_command]) orphan_state)"
  using run_command_rejected [OF sample_command_text, of orphan_state 0 sample_session] sample_hosts
  by (simp add: orphan_state_def server_init_def)

lemma orphan_run_state:
  "run_events server_step server_init orphan_run = run_command 0 0 (JArr [JStr sample_command]) orphan_state"
  using orphan_calm
  by (simp add: orphan_run_def server_step_def end_turn_def server_init_def on_connection_def new_session_def
      has_tokens_def sample_cookie_def truthy_str_def Let_def on_message_def session_of_def upd_session_def
      on_close_def upd_socket_def handleClose_def killPtyProcess_def kill_resolve_def fun_upd_idem
      on_ips_def sample_reply_parses handleMessage_def parseMessage_def sample_text_parses sample_message_def
      handle_entry_def messageHandlers_def always_handled_def call_handler_def handleCommand_def
      orphan_state_def sample_session_def)

text \<open>
  C17. A terminal can outlive its connection: the client connects, sends its command and closes
  before the backend has named its hosts. \<open>handleClose\<close> finds no session to clean up; the session
  is registered afterwards, and its buffered command starts a process that no close event will end.
\<close>

theorem terminal_without_connection:
  "run_ok server_step event_ok server_init orphan_run \<and>
   (\<exists>s p k. s = run_events server_step server_init orphan_run \<and> ptys s 0 = Some p \<and> pty_live p
      \<and> sockets s (pty_owner p) = Some k \<and> sock_state k = Closed \<and> userSessions s ''u'' = Some (pty_owner p))"
proof
  show "run_ok server_step event_ok server_init orphan_run"
    by (simp add: orphan_run_def server_step_def end_turn_def server_init_def on_connection_def new_session_def
        has_tokens_def sample_cookie_def truthy_str_def Let_def on_message_def session_of_def upd_session_def
        on_close_def upd_socket_def handleClose_def killPtyProcess_def kill_resolve_def live_socket_def)
  have ss: "sessions orphan_state 0 = Some sample_session" by (simp add: orphan_state_def)
  have "run_command 0 0 (JArr [JStr sample_command]) orphan_state =
      spawn_pty 0 0 (sanitizeSshArgs sample_args @ [extractHereDocContent sample_command]) (clear_session_timer 0 orphan_state)"
    using run_command_cases [OF ss sample_command_text refl, of 0] sample_valid
    by (simp add: sample_command_line sample_command_args sample_hosts)
  then show "\<exists>s p k. s = run_events server_step server_init orphan_run \<and> ptys s 0 = Some p \<and> pty_live p
      \<and> sockets s (pty_owner p) = Some k \<and> sock_state k = Closed \<and> userSessions s ''u'' = Some (pty_owner p)"
    unfolding orphan_run_state by (simp add: ptys_spawn) (simp add: orphan_state_def server_init_def)
qed

end
