(* ===== verification/Session_Timer.thy ===== *)
theory Session_Timer imports Complex_Main JS_Prelude begin

text \<open>
  \<^verbatim>\<open>resources/js/terminal-session-timer.js\<close>: the remaining time of a terminal session as the
  client shows it. The argument is a finite JavaScript number, here a rational.
\<close>

section \<open>Definitions\<close>

definition MAX_TERMINAL_SESSION_SECONDS :: int where
  "MAX_TERMINAL_SESSION_SECONDS = 8 * 60 * 60"

definition TERMINAL_SESSION_WARNING_SECONDS :: int where
  "TERMINAL_SESSION_WARNING_SECONDS = 30 * 60"

definition TERMINAL_SESSION_DANGER_SECONDS :: int where
  "TERMINAL_SESSION_DANGER_SECONDS = 5 * 60"

definition formatTerminalSessionRemainingTime :: "rat \<Rightarrow> string" where
  "formatTerminalSessionRemainingTime seconds =
     (let remainingSeconds = nat (max 0 \<lceil>seconds\<rceil>) in
      if remainingSeconds = 0 then ''expired''
      else let totalMinutes = remainingSeconds div 60;
               hours = totalMinutes div 60;
               minutes = totalMinutes mod 60;
               secondsPart = remainingSeconds mod 60
           in if hours = 0
              then show_nat minutes @ ''m '' @ pad_start 2 (CHR ''0'') (show_nat secondsPart) @ ''s''
              else show_nat hours @ ''h '' @ pad_start 2 (CHR ''0'') (show_nat minutes) @ ''m ''
                @ pad_start 2 (CHR ''0'') (show_nat secondsPart) @ ''s'')"

section \<open>Reading the text back\<close>

text \<open>A reader of durations: numbers followed by a unit, everything else skipped.\<close>

fun read_units :: "nat \<Rightarrow> nat \<Rightarrow> string \<Rightarrow> nat" where
  "read_units n acc [] = acc"
| "read_units n acc (c # cs) =
     (if is_digit c then read_units (10 * n + digit_val c) acc cs
      else if c = CHR ''h'' then read_units 0 (acc + 3600 * n) cs
      else if c = CHR ''m'' then read_units 0 (acc + 60 * n) cs
      else if c = CHR ''s'' then read_units 0 (acc + n) cs
      else read_units n acc cs)"

definition read_remaining :: "string \<Rightarrow> nat" where
  "read_remaining s = read_units 0 0 s"

lemma read_digits:
  "list_all is_digit ds \<Longrightarrow> read_units n acc (ds @ r) = read_units (foldl (\<lambda>n c. 10 * n + digit_val c) n ds) acc r"
  by (induction ds arbitrary: n) auto

lemma read_show [simp]: "read_units 0 acc (show_nat k @ r) = read_units k acc r"
  using read_digits [OF digits_show_nat, of 0 acc k r] dec_val_show_nat [of k] by (simp add: dec_val_def)

lemma read_zeros [simp]: "read_units 0 acc (replicate k (CHR ''0'') @ r) = read_units 0 acc r"
  by (induction k) (simp_all add: is_digit_def digit_val_def code_def)

lemma read_padded [simp]: "read_units 0 acc (pad_start w (CHR ''0'') (show_nat k) @ r) = read_units k acc r"
  by (simp add: pad_start_def)

lemma read_unit_chars [simp]:
  "read_units n acc (CHR ''h'' # r) = read_units 0 (acc + 3600 * n) r"
  "read_units n acc (CHR ''m'' # r) = read_units 0 (acc + 60 * n) r"
  "read_units n acc (CHR ''s'' # r) = read_units 0 (acc + n) r"
  "read_units n acc (CHR '' '' # r) = read_units n acc r"
  by (simp_all add: is_digit_def code_def)

lemma read_expired: "read_remaining ''expired'' = 0"
  by (simp add: read_remaining_def is_digit_def code_def)

declare read_units.simps(2) [simp del]

lemma split_seconds: "3600 * (n div 60 div 60) + 60 * (n div 60 mod 60) + n mod 60 = (n::nat)"
proof -
  have "n = 60 * (n div 60) + n mod 60" by simp
  moreover have "n div 60 = 60 * (n div 60 div 60) + n div 60 mod 60" by simp
  ultimately show ?thesis by linarith
qed

lemma split_minutes: "n div 60 div 60 = 0 \<Longrightarrow> 60 * (n div 60 mod 60) + n mod 60 = (n::nat)"
  using split_seconds [of n] by simp

definition show_remaining :: "nat \<Rightarrow> string" where
  "show_remaining n =
     (if n div 60 div 60 = 0
      then show_nat (n div 60 mod 60) @ ''m '' @ pad_start 2 (CHR ''0'') (show_nat (n mod 60)) @ ''s''
      else show_nat (n div 60 div 60) @ ''h '' @ pad_start 2 (CHR ''0'') (show_nat (n div 60 mod 60)) @ ''m ''
        @ pad_start 2 (CHR ''0'') (show_nat (n mod 60)) @ ''s'')"

lemma read_show_remaining: "read_remaining (show_remaining n) = n"
proof (cases "n div 60 div 60 = 0")
  case True
  then have "read_remaining (show_remaining n) = 60 * (n div 60 mod 60) + n mod 60"
    by (simp only: show_remaining_def read_remaining_def if_True if_False simp_thms append.simps append_assoc
        read_show read_padded read_unit_chars read_units.simps(1) add_0)
  with split_minutes [OF True] show ?thesis by simp
next
  case False
  then have "read_remaining (show_remaining n) = 3600 * (n div 60 div 60) + 60 * (n div 60 mod 60) + n mod 60"
    by (simp only: show_remaining_def read_remaining_def if_True if_False simp_thms append.simps append_assoc
        read_show read_padded read_unit_chars read_units.simps(1) add_0)
  with split_seconds [of n] show ?thesis by simp
qed

lemma format_show: "formatTerminalSessionRemainingTime x =
    (if nat (max 0 \<lceil>x\<rceil>) = 0 then ''expired'' else show_remaining (nat (max 0 \<lceil>x\<rceil>)))"
  unfolding formatTerminalSessionRemainingTime_def show_remaining_def Let_def by (rule refl)

lemma read_format: "read_remaining (formatTerminalSessionRemainingTime x) = nat (max 0 \<lceil>x\<rceil>)"
  unfolding format_show using read_show_remaining read_expired by simp

section \<open>Properties\<close>

text \<open>
  The text shown for the remaining session time loses nothing: reading its hours, minutes and
  seconds back gives the remaining time rounded up to whole seconds, and \<open>expired\<close> is shown exactly
  when no time is left.
\<close>

theorem remaining_time_read_back:
  "read_remaining (formatTerminalSessionRemainingTime x) = nat (max 0 \<lceil>x\<rceil>)
   \<and> (formatTerminalSessionRemainingTime x = ''expired'' \<longleftrightarrow> x \<le> 0)"
proof -
  let ?n = "nat (max 0 \<lceil>x\<rceil>)"
  have read: "read_remaining (formatTerminalSessionRemainingTime x) = ?n"
    by (rule read_format)
  have zero: "?n = 0 \<longleftrightarrow> x \<le> 0" by (simp add: ceiling_le_zero)
  have "formatTerminalSessionRemainingTime x = ''expired'' \<longleftrightarrow> x \<le> 0"
  proof
    assume "formatTerminalSessionRemainingTime x = ''expired''"
    with read read_expired have "?n = 0" by (simp only:)
    with zero show "x \<le> 0" by blast
  next
    assume "x \<le> 0"
    with zero have "?n = 0" by blast
    then show "formatTerminalSessionRemainingTime x = ''expired''" by (simp only: format_show if_True simp_thms)
  qed
  with read show ?thesis by blast
qed

end
