(* ===== verification/Livewire_Failure.thy ===== *)
theory Livewire_Failure imports Json "HOL-Library.Option_ord" begin

text \<open>
  \<^verbatim>\<open>resources/js/livewire-request-failure.js\<close>: what the page does when a Livewire request fails in
  the infrastructure. Times are the integers of \<open>Date.now\<close>; negative infinity is \<open>None\<close>, which the
  order on options puts below every time. The calls the code makes are recorded as effects; a
  warning carries the time it was made and a toast the gesture it was made for, which the code
  compares but does not pass on.
\<close>

section \<open>The failure handler\<close>

definition INFRASTRUCTURE_FAILURE_STATUSES :: "nat list" where
  "INFRASTRUCTURE_FAILURE_STATUSES = [502, 503, 504, 520, 521, 522, 523, 524, 525, 526, 527, 530]"

definition USER_GESTURE_EVENTS :: "string list" where
  "USER_GESTURE_EVENTS = [''click'', ''submit'', ''keydown'', ''input'', ''change'']"

definition GESTURE_WINDOW_MS :: int where
  "GESTURE_WINDOW_MS = 2000"

definition WARN_COOLDOWN_MS :: int where
  "WARN_COOLDOWN_MS = 10000"

definition WARN_CONTENT_MAX_LENGTH :: nat where
  "WARN_CONTENT_MAX_LENGTH = 2000"

record failure_state =
  lastWarnAt :: "int option"
  lastToastGestureAt :: "int option"

datatype page_effect = PreventDefault | Warn int nat json | Toast "int option"

definition clip_content :: "json \<Rightarrow> json" where
  "clip_content c = (case c of JStr t \<Rightarrow> JStr (take WARN_CONTENT_MAX_LENGTH t) | _ \<Rightarrow> c)"

definition at_least_after :: "int \<Rightarrow> int \<Rightarrow> int option \<Rightarrow> bool" where
  "at_least_after d now t \<longleftrightarrow> (case t of None \<Rightarrow> True | Some t' \<Rightarrow> d \<le> now - t')"

definition handleFailure ::
  "int \<Rightarrow> nat \<Rightarrow> json \<Rightarrow> int option \<Rightarrow> failure_state \<Rightarrow> failure_state \<times> page_effect list" where
  "handleFailure now status content gestureAt st =
     (if status \<notin> set INFRASTRUCTURE_FAILURE_STATUSES then (st, [])
      else let warn = at_least_after WARN_COOLDOWN_MS now (lastWarnAt st);
               toast = lastToastGestureAt st < gestureAt;
               st1 = (if warn then st\<lparr>lastWarnAt := Some now\<rparr> else st);
               st2 = (if toast then st1\<lparr>lastToastGestureAt := gestureAt\<rparr> else st1)
           in (st2, [PreventDefault] @ (if warn then [Warn now status (clip_content content)] else [])
                      @ (if toast then [Toast gestureAt] else [])))"

section \<open>Registration\<close>

text \<open>The page: the last trusted gesture, the gesture each pending request was sent for.\<close>

record page =
  lastGestureAt :: "int option"
  failures :: failure_state
  requests :: "nat \<Rightarrow> int option option"
  effects :: "page_effect list"

definition page_init :: page where
  "page_init = \<lparr>lastGestureAt = None, failures = \<lparr>lastWarnAt = None, lastToastGestureAt = None\<rparr>,
     requests = Map.empty, effects = []\<rparr>"

datatype page_event =
    DomEvent string bool int
  | RequestSent nat int
  | RequestFailed nat int nat json

definition markUserGesture :: "bool \<Rightarrow> int \<Rightarrow> page \<Rightarrow> page" where
  "markUserGesture isTrusted now p = (if isTrusted then p\<lparr>lastGestureAt := Some now\<rparr> else p)"

definition gesture_of_request :: "int \<Rightarrow> int option \<Rightarrow> int option" where
  "gesture_of_request now t =
     (case t of None \<Rightarrow> None | Some g \<Rightarrow> if now - g \<le> GESTURE_WINDOW_MS then Some g else None)"

fun page_step :: "page \<Rightarrow> page_event \<Rightarrow> page" where
  "page_step p (DomEvent name isTrusted now) =
     (if name \<in> set USER_GESTURE_EVENTS then markUserGesture isTrusted now p else p)"
| "page_step p (RequestSent rid now) =
     p\<lparr>requests := (requests p)(rid \<mapsto> gesture_of_request now (lastGestureAt p))\<rparr>"
| "page_step p (RequestFailed rid now status content) =
     (case requests p rid of
        None \<Rightarrow> p
      | Some gestureAt \<Rightarrow>
          (case handleFailure now status content gestureAt (failures p) of
             (st, es) \<Rightarrow> p\<lparr>failures := st, effects := effects p @ es\<rparr>))"

section \<open>The history of toasts and warnings\<close>

fun toasts :: "page_effect list \<Rightarrow> int option list" where
  "toasts [] = []"
| "toasts (Toast g # es) = g # toasts es"
| "toasts (_ # es) = toasts es"

fun warn_times :: "page_effect list \<Rightarrow> int list" where
  "warn_times [] = []"
| "warn_times (Warn t _ _ # es) = t # warn_times es"
| "warn_times (_ # es) = warn_times es"

lemma toasts_append [simp]: "toasts (a @ b) = toasts a @ toasts b"
  by (induction a rule: toasts.induct) auto

lemma warn_times_append [simp]: "warn_times (a @ b) = warn_times a @ warn_times b"
  by (induction a rule: warn_times.induct) auto

lemma handleFailure_ignored:
  "status \<notin> set INFRASTRUCTURE_FAILURE_STATUSES \<Longrightarrow> handleFailure now status content g st = (st, [])"
  by (simp add: handleFailure_def)

lemma handleFailure_infra:
  assumes "status \<in> set INFRASTRUCTURE_FAILURE_STATUSES" "handleFailure now status content g st = (st', es)"
  shows "toasts es = (if lastToastGestureAt st < g then [g] else [])"
    and "lastToastGestureAt st' = (if lastToastGestureAt st < g then g else lastToastGestureAt st)"
    and "warn_times es = (if at_least_after WARN_COOLDOWN_MS now (lastWarnAt st) then [now] else [])"
    and "lastWarnAt st' = (if at_least_after WARN_COOLDOWN_MS now (lastWarnAt st) then Some now else lastWarnAt st)"
proof -
  let ?w = "at_least_after WARN_COOLDOWN_MS now (lastWarnAt st)"
  let ?t = "lastToastGestureAt st < g"
  from assms have es: "es = [PreventDefault] @ (if ?w then [Warn now status (clip_content content)] else [])
      @ (if ?t then [Toast g] else [])"
    and st: "st' = (if ?t then (if ?w then st\<lparr>lastWarnAt := Some now\<rparr> else st)\<lparr>lastToastGestureAt := g\<rparr>
      else if ?w then st\<lparr>lastWarnAt := Some now\<rparr> else st)"
    by (simp_all add: handleFailure_def Let_def)
  show "toasts es = (if ?t then [g] else [])" unfolding es by (cases ?w; cases ?t) simp_all
  show "warn_times es = (if ?w then [now] else [])" unfolding es by (cases ?w; cases ?t) simp_all
  show "lastToastGestureAt st' = (if ?t then g else lastToastGestureAt st)"
    unfolding st by (cases ?w; cases ?t) simp_all
  show "lastWarnAt st' = (if ?w then Some now else lastWarnAt st)" unfolding st by (cases ?w; cases ?t) simp_all
qed

definition last_opt :: "'a list \<Rightarrow> 'a option" where
  "last_opt xs = (if xs = [] then None else Some (last xs))"

lemma last_opt_snoc [simp]: "last_opt (xs @ [x]) = Some x" "last_opt [] = None"
  by (simp_all add: last_opt_def)

text \<open>Each toast is for a later gesture than the one before; warnings keep their distance.\<close>

definition page_inv :: "page \<Rightarrow> bool" where
  "page_inv p \<longleftrightarrow>
     sorted_wrt (<) (toasts (effects p)) \<and> (\<forall>g\<in>set (toasts (effects p)). None < g \<and> g \<le> lastToastGestureAt (failures p))
     \<and> successively (\<lambda>a b. WARN_COOLDOWN_MS \<le> b - a) (warn_times (effects p))
     \<and> lastWarnAt (failures p) = last_opt (warn_times (effects p))"

lemma page_inv_init: "page_inv page_init"
  by (simp add: page_inv_def page_init_def)

lemma successively_snoc:
  "successively P (xs @ [x]) \<longleftrightarrow> successively P xs \<and> (xs = [] \<or> P (last xs) x)"
  by (simp add: successively_append_iff)

lemma page_inv_failure:
  assumes inv: "page_inv p" and h: "handleFailure now status content g (failures p) = (st, es)"
  shows "page_inv (p\<lparr>failures := st, effects := effects p @ es\<rparr>)"
proof (cases "status \<in> set INFRASTRUCTURE_FAILURE_STATUSES")
  case False
  with inv h show ?thesis by (simp add: page_inv_def handleFailure_ignored)
next
  case True
  note f = handleFailure_infra [OF True h]
  have "sorted_wrt (<) (toasts (effects p @ es)) \<and>
      (\<forall>g\<in>set (toasts (effects p @ es)). None < g \<and> g \<le> lastToastGestureAt st)"
  proof (cases "lastToastGestureAt (failures p) < g")
    case False
    with inv f(1,2) show ?thesis by (simp add: page_inv_def)
  next
    case less: True
    then have "None < g" by (metis le_less_trans less_eq_option_None)
    with less inv f(1,2) show ?thesis
      unfolding page_inv_def by (auto simp: sorted_wrt_append intro: le_less_trans less_imp_le)
  qed
  moreover have "successively (\<lambda>a b. WARN_COOLDOWN_MS \<le> b - a) (warn_times (effects p @ es)) \<and>
      lastWarnAt st = last_opt (warn_times (effects p @ es))"
    using inv f(3,4) unfolding page_inv_def
    by (cases "at_least_after WARN_COOLDOWN_MS now (lastWarnAt (failures p))"; cases "warn_times (effects p) = []")
      (auto simp: successively_snoc at_least_after_def last_opt_def)
  ultimately show ?thesis by (simp add: page_inv_def)
qed

lemma page_inv_step: "page_inv p \<Longrightarrow> page_inv (page_step p e)"
proof (cases e)
  case (RequestFailed rid now status content)
  then show "page_inv p \<Longrightarrow> ?thesis"
    by (auto simp: page_inv_failure split: option.split prod.split)
qed (simp_all add: markUserGesture_def page_inv_def)

interpretation livewire: invariant_machine page_step "\<lambda>_ _. True" page_inv
  by unfold_locales (rule page_inv_step)

lemma run_ok_always: "run_ok step (\<lambda>_ _. True) s es"
  by (induction es arbitrary: s) auto

lemma page_inv_run: "page_inv (run_events page_step page_init es)"
  by (rule livewire.run_inv [OF page_inv_init run_ok_always])

section \<open>Gestures are real\<close>

definition trusted_gestures :: "page_event list \<Rightarrow> int set" where
  "trusted_gestures es = {t. \<exists>name. DomEvent name True t \<in> set es \<and> name \<in> set USER_GESTURE_EVENTS}"

text \<open>
  A request sent for a gesture: a trusted event came before it, within the window. A toast due to a
  gesture: a request sent for it failed later, in the infrastructure.
\<close>

definition request_for :: "page_event list \<Rightarrow> nat \<Rightarrow> int \<Rightarrow> bool" where
  "request_for es rid g \<longleftrightarrow>
     (\<exists>es1 t es2. es = es1 @ RequestSent rid t # es2 \<and> g \<in> trusted_gestures es1 \<and> t - g \<le> GESTURE_WINDOW_MS)"

definition failure_for :: "page_event list \<Rightarrow> int \<Rightarrow> bool" where
  "failure_for es g \<longleftrightarrow>
     (\<exists>es1 rid now status content es2. es = es1 @ RequestFailed rid now status content # es2
        \<and> request_for es1 rid g \<and> status \<in> set INFRASTRUCTURE_FAILURE_STATUSES)"

lemma trusted_gestures_snoc: "g \<in> trusted_gestures es \<Longrightarrow> g \<in> trusted_gestures (es @ [e])"
  by (auto simp: trusted_gestures_def)

lemma request_for_snoc: "request_for es rid g \<Longrightarrow> request_for (es @ [e]) rid g"
  unfolding request_for_def by fastforce

lemma failure_for_snoc: "failure_for es g \<Longrightarrow> failure_for (es @ [e]) g"
  unfolding failure_for_def by fastforce

definition gesture_inv :: "page_event list \<Rightarrow> page \<Rightarrow> bool" where
  "gesture_inv es p \<longleftrightarrow>
     (\<forall>g. lastGestureAt p = Some g \<longrightarrow> g \<in> trusted_gestures es)
     \<and> (\<forall>rid g. requests p rid = Some (Some g) \<longrightarrow> request_for es rid g)
     \<and> (\<forall>g. Some g \<in> set (toasts (effects p)) \<longrightarrow> failure_for es g)"

lemma toasts_of_failure:
  "handleFailure now status content g st = (st', es) \<Longrightarrow> set (toasts es) \<subseteq> {g}"
proof (cases "status \<in> set INFRASTRUCTURE_FAILURE_STATUSES")
  case True
  then show "handleFailure now status content g st = (st', es) \<Longrightarrow> ?thesis"
    using handleFailure_infra(1) [of status now content g st st' es] by auto
qed (simp add: handleFailure_ignored)

lemma gesture_inv_snoc: "gesture_inv es p \<Longrightarrow> gesture_inv (es @ [e]) p"
  by (auto simp: gesture_inv_def trusted_gestures_snoc request_for_snoc failure_for_snoc)

lemma request_for_sent:
  "gesture_inv es p \<Longrightarrow> gesture_of_request now (lastGestureAt p) = Some g \<Longrightarrow>
     request_for (es @ [RequestSent rid now]) rid g"
  by (fastforce simp: request_for_def gesture_inv_def gesture_of_request_def split: option.splits if_splits)

lemma gesture_inv_step:
  assumes "gesture_inv es p"
  shows "gesture_inv (es @ [e]) (page_step p e)"
proof (cases e)
  case (DomEvent name tr now)
  have "now \<in> trusted_gestures (es @ [DomEvent name True now])" if "name \<in> set USER_GESTURE_EVENTS"
    using that by (auto simp: trusted_gestures_def)
  with DomEvent gesture_inv_snoc [OF assms, of e] show ?thesis
    by (auto simp: gesture_inv_def markUserGesture_def)
next
  case (RequestSent rid now)
  with gesture_inv_snoc [OF assms, of e] request_for_sent [OF assms] show ?thesis
    by (auto simp: gesture_inv_def)
next
  case (RequestFailed rid now status content)
  show ?thesis
  proof (cases "requests p rid")
    case (Some g)
    obtain st new where h: "handleFailure now status content g (failures p) = (st, new)" by fastforce
    have "failure_for (es @ [e]) x" if "Some x \<in> set (toasts new)" for x
    proof -
      from that toasts_of_failure [OF h] have g: "g = Some x" by auto
      from that h have "status \<in> set INFRASTRUCTURE_FAILURE_STATUSES"
        using handleFailure_ignored by fastforce
      moreover from assms Some g have "request_for es rid x" by (simp add: gesture_inv_def)
      ultimately show ?thesis unfolding failure_for_def RequestFailed by blast
    qed
    with gesture_inv_snoc [OF assms, of e] RequestFailed Some h show ?thesis by (auto simp: gesture_inv_def)
  qed (use gesture_inv_snoc [OF assms, of e] RequestFailed in simp)
qed

lemma gesture_inv_run: "gesture_inv es (run_events page_step page_init es)"
proof (induction es rule: rev_induct)
  case Nil
  show ?case by (simp add: gesture_inv_def page_init_def)
next
  case (snoc e es)
  then show ?case by (simp add: gesture_inv_step run_events_append)
qed

section \<open>Properties\<close>

text \<open>
  C28. One toast per user gesture: over every sequence of page events, the toasts shown belong to
  strictly increasing, hence distinct, gestures. Each is the time of a trusted event of one of the
  five kinds; a request was sent after that event and at most two seconds later, and this request
  failed afterwards with one of the infrastructure statuses.
\<close>

theorem one_toast_per_gesture:
  "sorted_wrt (<) (toasts (effects (run_events page_step page_init es)))
   \<and> set (toasts (effects (run_events page_step page_init es))) \<subseteq>
     {Some g | g. \<exists>es1 rid t es2 now status content es3.
        es = es1 @ RequestSent rid t # es2 @ RequestFailed rid now status content # es3
        \<and> g \<in> trusted_gestures es1 \<and> t - g \<le> GESTURE_WINDOW_MS
        \<and> status \<in> set INFRASTRUCTURE_FAILURE_STATUSES}" (is "_ \<and> _ \<subseteq> ?G")
proof -
  let ?p = "run_events page_step page_init es"
  have "g \<in> ?G" if "g \<in> set (toasts (effects ?p))" for g
  proof -
    from that page_inv_run [of es] have "None < g" by (auto simp: page_inv_def)
    then obtain t where g: "g = Some t" by (cases g) auto
    with that gesture_inv_run [of es] have "failure_for es t" by (simp add: gesture_inv_def)
    then show ?thesis unfolding g failure_for_def request_for_def by fastforce
  qed
  with page_inv_run [of es] show ?thesis by (auto simp: page_inv_def)
qed

text \<open>
  The console is not flooded: any two warnings in succession are at least ten seconds apart.
\<close>

theorem warnings_keep_distance:
  "successively (\<lambda>a b. WARN_COOLDOWN_MS \<le> b - a) (warn_times (effects (run_events page_step page_init es)))"
  using page_inv_run by (simp add: page_inv_def)

text \<open>
  A retry always toasts: if a request was sent for a gesture later than every gesture toasted so
  far and it fails with an infrastructure status, that failure is prevented from reaching Livewire
  and shows a toast for that gesture, however long after the gesture it arrives.
\<close>

theorem retry_toasts_again:
  assumes "p = run_events page_step page_init es" "requests p rid = Some (Some g)"
    and "lastToastGestureAt (failures p) < Some g" "status \<in> set INFRASTRUCTURE_FAILURE_STATUSES"
  shows "\<exists>new. effects (page_step p (RequestFailed rid now status content)) = effects p @ new
    \<and> hd new = PreventDefault \<and> toasts new = [Some g]"
proof -
  obtain st new where h: "handleFailure now status content (Some g) (failures p) = (st, new)" by fastforce
  from handleFailure_infra(1) [OF assms(4) h] assms(3) have "toasts new = [Some g]" by simp
  moreover from h assms(4) have "hd new = PreventDefault" by (auto simp: handleFailure_def Let_def)
  ultimately show ?thesis using assms(2) h by auto
qed

theorem retry_toasts_again_witness:
  "\<exists>new. effects (page_step (run_events page_step page_init [DomEvent ''click'' True 5, RequestSent 0 6])
      (RequestFailed 0 900000 524 JNull)) =
    effects (run_events page_step page_init [DomEvent ''click'' True 5, RequestSent 0 6]) @ new
    \<and> hd new = PreventDefault \<and> toasts new = [Some 5]"
  by (rule retry_toasts_again [OF refl])
    (simp_all add: page_init_def markUserGesture_def USER_GESTURE_EVENTS_def gesture_of_request_def
      GESTURE_WINDOW_MS_def INFRASTRUCTURE_FAILURE_STATUSES_def)

end
