(* ===== verification/Marketing_Checkout.thy ===== *)
theory Marketing_Checkout imports JS_Prelude begin

text \<open>
  \<^verbatim>\<open>resources/js/oneploy-marketing-checkout.js\<close>: the Razorpay script is loaded on demand behind one
  promise, and each checkout the backend announces opens a payment or shows a toast. The Razorpay
  constructor is not part of the repository: it is the argument \<open>rzp\<close>, which returns what it or
  \<open>open\<close> throws, if anything.
\<close>

section \<open>State\<close>

text \<open>What \<open>window.Razorpay\<close> can hold: nothing (or a false value), a function, another value.\<close>

datatype global = Missing | Constructor | NoFunction

datatype script_promise = Pending | Resolved global | Rejected

record checkout =
  key_id :: string
  order_id :: string
  amount_minor :: int
  currency :: string
  description :: string
  customer_name :: string
  email :: string
  return_url :: string

record payment =
  pay_key :: string
  pay_order_id :: string
  pay_amount :: int
  pay_currency :: string
  pay_name :: string
  pay_description :: string
  prefill_name :: string
  prefill_email :: string

datatype thrown = ThrownError string | ThrownOther

datatype checkout_action =
    AppendScript string
  | OpenPayment payment
  | ToastUnavailable string
  | LocationAssign string

record checkout_page =
  Razorpay :: global
  razorpayScriptPromise :: "script_promise option"
  waiting :: "checkout list"
  actions :: "checkout_action list"

definition checkout_init :: checkout_page where
  "checkout_init = \<lparr>Razorpay = Missing, razorpayScriptPromise = None, waiting = [], actions = []\<rparr>"

section \<open>Operations\<close>

definition SCRIPT_SRC :: string where
  "SCRIPT_SRC = ''https://checkout.razorpay.com/v1/checkout.js''"

definition act :: "checkout_action \<Rightarrow> checkout_page \<Rightarrow> checkout_page" where
  "act a s = s\<lparr>actions := actions s @ [a]\<rparr>"

definition loadRazorpay :: "checkout_page \<Rightarrow> checkout_page \<times> script_promise" where
  "loadRazorpay s =
     (if Razorpay s \<noteq> Missing then (s, Resolved (Razorpay s))
      else case razorpayScriptPromise s of
        Some p \<Rightarrow> (s, p)
      | None \<Rightarrow> (act (AppendScript SCRIPT_SRC) (s\<lparr>razorpayScriptPromise := Some Pending\<rparr>), Pending))"

definition payment_of :: "checkout \<Rightarrow> payment" where
  "payment_of c =
     \<lparr>pay_key = key_id c, pay_order_id = order_id c, pay_amount = amount_minor c, pay_currency = currency c,
      pay_name = ''OnePloy'', pay_description = description c,
      prefill_name = customer_name c, prefill_email = email c\<rparr>"

definition toast_text :: "thrown \<Rightarrow> string" where
  "toast_text e = (case e of ThrownError m \<Rightarrow> m | ThrownOther \<Rightarrow> ''Razorpay Checkout could not be opened.'')"

text \<open>The handler after its \<open>await\<close>; a pending promise keeps the checkout waiting.\<close>

definition continue_checkout ::
  "(payment \<Rightarrow> thrown option) \<Rightarrow> script_promise \<Rightarrow> checkout \<Rightarrow> checkout_page \<Rightarrow> checkout_page" where
  "continue_checkout rzp p c s =
     (case p of
        Pending \<Rightarrow> s\<lparr>waiting := waiting s @ [c]\<rparr>
      | Rejected \<Rightarrow> act (ToastUnavailable ''Razorpay Checkout could not be loaded.'') s
      | Resolved g \<Rightarrow>
          if g \<noteq> Constructor then act (ToastUnavailable ''Razorpay Checkout is unavailable.'') s
          else case rzp (payment_of c) of
            None \<Rightarrow> act (OpenPayment (payment_of c)) s
          | Some e \<Rightarrow> act (ToastUnavailable (toast_text e)) s)"

definition on_razorpay_ready :: "(payment \<Rightarrow> thrown option) \<Rightarrow> checkout \<Rightarrow> checkout_page \<Rightarrow> checkout_page" where
  "on_razorpay_ready rzp c s = (case loadRazorpay s of (s1, p) \<Rightarrow> continue_checkout rzp p c s1)"

definition settle :: "(payment \<Rightarrow> thrown option) \<Rightarrow> script_promise \<Rightarrow> checkout_page \<Rightarrow> checkout_page" where
  "settle rzp p s =
     fold (continue_checkout rzp p) (waiting s) (s\<lparr>razorpayScriptPromise := Some p, waiting := []\<rparr>)"

datatype checkout_event =
    RazorpayReady checkout
  | ScriptLoad global
  | ScriptError
  | PaymentHandler checkout

fun checkout_step :: "(payment \<Rightarrow> thrown option) \<Rightarrow> checkout_page \<Rightarrow> checkout_event \<Rightarrow> checkout_page" where
  "checkout_step rzp s (RazorpayReady c) = on_razorpay_ready rzp c s"
| "checkout_step rzp s (ScriptLoad g) = settle rzp (Resolved g) (s\<lparr>Razorpay := g\<rparr>)"
| "checkout_step rzp s ScriptError = settle rzp Rejected s"
| "checkout_step rzp s (PaymentHandler c) = act (LocationAssign (return_url c)) s"

text \<open>The script's events come once, after it was appended.\<close>

fun checkout_ok :: "checkout_page \<Rightarrow> checkout_event \<Rightarrow> bool" where
  "checkout_ok s (ScriptLoad g) = (razorpayScriptPromise s = Some Pending)"
| "checkout_ok s ScriptError = (razorpayScriptPromise s = Some Pending)"
| "checkout_ok s _ = True"

section \<open>Every checkout is answered once\<close>

text \<open>
  What was done for the announced checkouts: the actions that answer one, in the order they were
  made, and the answer a checkout is owed once the promise of the script is settled.
\<close>

definition scripts :: "checkout_page \<Rightarrow> nat" where
  "scripts s = length (filter (\<lambda>a. case a of AppendScript _ \<Rightarrow> True | _ \<Rightarrow> False) (actions s))"

definition answers :: "checkout_page \<Rightarrow> checkout_action list" where
  "answers s = filter (\<lambda>a. case a of OpenPayment _ \<Rightarrow> True | ToastUnavailable _ \<Rightarrow> True | _ \<Rightarrow> False) (actions s)"

fun announced :: "checkout_event list \<Rightarrow> checkout list" where
  "announced [] = []"
| "announced (RazorpayReady c # es) = c # announced es"
| "announced (_ # es) = announced es"

definition owed_answer :: "(payment \<Rightarrow> thrown option) \<Rightarrow> script_promise \<Rightarrow> checkout \<Rightarrow> checkout_action" where
  "owed_answer rzp p c =
     (if p = Rejected then ToastUnavailable ''Razorpay Checkout could not be loaded.''
      else if p \<noteq> Resolved Constructor then ToastUnavailable ''Razorpay Checkout is unavailable.''
      else case rzp (payment_of c) of
        Some e \<Rightarrow> ToastUnavailable (toast_text e)
      | None \<Rightarrow> OpenPayment (payment_of c))"

lemma act_simps [simp]:
  "Razorpay (act a s) = Razorpay s" "razorpayScriptPromise (act a s) = razorpayScriptPromise s"
  "waiting (act a s) = waiting s" "actions (act a s) = actions s @ [a]"
  by (simp_all add: act_def)

lemma count_simps [simp]:
  "scripts (act a s) = scripts s + (case a of AppendScript _ \<Rightarrow> 1 | _ \<Rightarrow> 0)"
  "answers (act a s) = answers s @ (case a of OpenPayment _ \<Rightarrow> [a] | ToastUnavailable _ \<Rightarrow> [a] | _ \<Rightarrow> [])"
  "scripts (s\<lparr>waiting := w\<rparr>) = scripts s" "answers (s\<lparr>waiting := w\<rparr>) = answers s"
  "scripts (s\<lparr>Razorpay := g\<rparr>) = scripts s" "answers (s\<lparr>Razorpay := g\<rparr>) = answers s"
  "scripts (s\<lparr>razorpayScriptPromise := p\<rparr>) = scripts s" "answers (s\<lparr>razorpayScriptPromise := p\<rparr>) = answers s"
  by (simp_all add: scripts_def answers_def split: checkout_action.split)

lemma continue_settled:
  assumes "p \<noteq> Pending"
  shows "answers (continue_checkout rzp p c s) = answers s @ [owed_answer rzp p c]"
    "scripts (continue_checkout rzp p c s) = scripts s"
    "waiting (continue_checkout rzp p c s) = waiting s"
    "razorpayScriptPromise (continue_checkout rzp p c s) = razorpayScriptPromise s"
    "Razorpay (continue_checkout rzp p c s) = Razorpay s"
  using assms by (auto simp: continue_checkout_def owed_answer_def split: script_promise.split option.split)

lemma settle_all:
  assumes "p \<noteq> Pending"
  shows "answers (fold (continue_checkout rzp p) cs s) = answers s @ map (owed_answer rzp p) cs
    \<and> scripts (fold (continue_checkout rzp p) cs s) = scripts s
    \<and> waiting (fold (continue_checkout rzp p) cs s) = waiting s
    \<and> razorpayScriptPromise (fold (continue_checkout rzp p) cs s) = razorpayScriptPromise s
    \<and> Razorpay (fold (continue_checkout rzp p) cs s) = Razorpay s"
  by (induction cs arbitrary: s) (simp_all add: continue_settled [OF assms])

definition checkout_inv :: "checkout_page \<Rightarrow> bool" where
  "checkout_inv s \<longleftrightarrow> scripts s = (if razorpayScriptPromise s = None then 0 else 1)
     \<and> (Razorpay s = Missing \<or> razorpayScriptPromise s = Some (Resolved (Razorpay s)))"

text \<open>The checkouts \<open>cs\<close> announced so far all wait for the script, or all have the answer they are owed.\<close>

definition answered :: "(payment \<Rightarrow> thrown option) \<Rightarrow> checkout list \<Rightarrow> checkout_page \<Rightarrow> bool" where
  "answered rzp cs s \<longleftrightarrow>
     (case razorpayScriptPromise s of
        None \<Rightarrow> cs = [] \<and> waiting s = [] \<and> answers s = []
      | Some p \<Rightarrow> if p = Pending then waiting s = cs \<and> answers s = []
                  else waiting s = [] \<and> answers s = map (owed_answer rzp p) cs)"

lemma ready_cases:
  assumes "checkout_inv s"
  shows "on_razorpay_ready rzp c s =
    (case razorpayScriptPromise s of
       None \<Rightarrow> continue_checkout rzp Pending c
                 (act (AppendScript SCRIPT_SRC) (s\<lparr>razorpayScriptPromise := Some Pending\<rparr>))
     | Some p \<Rightarrow> continue_checkout rzp p c s)"
  using assms by (auto simp: on_razorpay_ready_def loadRazorpay_def checkout_inv_def split: option.split)

lemma checkout_ready:
  assumes "checkout_inv s" "answered rzp cs s"
  shows "checkout_inv (on_razorpay_ready rzp c s) \<and> answered rzp (cs @ [c]) (on_razorpay_ready rzp c s)"
proof (cases "razorpayScriptPromise s")
  case None
  with assms show ?thesis
    by (simp add: ready_cases continue_checkout_def checkout_inv_def answered_def)
next
  case (Some p)
  show ?thesis
  proof (cases "p = Pending")
    case True
    with Some assms show ?thesis
      by (simp add: ready_cases continue_checkout_def checkout_inv_def answered_def)
  next
    case False
    with Some assms show ?thesis
      unfolding ready_cases [OF assms(1)] by (simp add: continue_settled checkout_inv_def answered_def)
  qed
qed

lemma checkout_settle:
  assumes "checkout_inv s" "answered rzp cs s" "razorpayScriptPromise s = Some Pending"
  shows "checkout_inv (settle rzp Rejected s) \<and> answered rzp cs (settle rzp Rejected s)"
    and "checkout_inv (settle rzp (Resolved g) (s\<lparr>Razorpay := g\<rparr>))
      \<and> answered rzp cs (settle rzp (Resolved g) (s\<lparr>Razorpay := g\<rparr>))"
  using assms settle_all [of Rejected] settle_all [of "Resolved g"]
  by (simp_all add: settle_def checkout_inv_def answered_def)

lemma checkout_inv_step:
  assumes "checkout_inv s" "answered rzp cs s" "checkout_ok s e"
  shows "checkout_inv (checkout_step rzp s e) \<and> answered rzp (cs @ announced [e]) (checkout_step rzp s e)"
proof (cases e)
  case (PaymentHandler c)
  with assms show ?thesis by (simp add: checkout_inv_def answered_def split: option.splits)
qed (use assms checkout_ready checkout_settle in simp_all)

text \<open>The page with the checkouts announced to it, as a machine that keeps the invariant.\<close>

definition answered_step ::
  "(payment \<Rightarrow> thrown option) \<Rightarrow> checkout_page \<times> checkout list \<Rightarrow> checkout_event \<Rightarrow> checkout_page \<times> checkout list" where
  "answered_step rzp x e = (checkout_step rzp (fst x) e, snd x @ announced [e])"

interpretation checkout: invariant_machine "answered_step rzp" "\<lambda>x e. checkout_ok (fst x) e"
  "\<lambda>x. checkout_inv (fst x) \<and> answered rzp (snd x) (fst x)" for rzp
  by unfold_locales (simp add: answered_step_def, metis checkout_inv_step)

lemma answered_run:
  "run_events (answered_step rzp) (s, cs) es = (run_events (checkout_step rzp) s es, cs @ announced es)"
proof (induction es arbitrary: s cs)
  case (Cons e es)
  then show ?case by (cases e) (simp_all add: answered_step_def)
qed simp

lemma answered_run_ok:
  "run_ok (answered_step rzp) (\<lambda>x e. checkout_ok (fst x) e) (s, cs) es = run_ok (checkout_step rzp) checkout_ok s es"
  by (induction es arbitrary: s cs) (simp_all add: answered_step_def)

lemma checkout_inv_init: "checkout_inv checkout_init \<and> answered rzp [] checkout_init"
  by (simp add: checkout_inv_def answered_def checkout_init_def scripts_def answers_def)

lemma checkout_inv_run:
  assumes "run_ok (checkout_step rzp) checkout_ok checkout_init es"
  shows "checkout_inv (run_events (checkout_step rzp) checkout_init es)
    \<and> answered rzp (announced es) (run_events (checkout_step rzp) checkout_init es)"
  using checkout.run_inv [of "(checkout_init, [])" rzp es] assms
  by (simp add: checkout_inv_init answered_run answered_run_ok)

section \<open>Properties\<close>

text \<open>
  C29. The Razorpay script is appended at most once however many checkouts are announced. While it
  is on its way every announced checkout waits and none is answered; once it has loaded or failed
  nothing waits and the announced checkouts have been answered one by one, in the order they were
  announced, each with its own answer: the payment of that very checkout opened if the script gave a
  constructor that accepts it, and otherwise the toast that names the failure.
\<close>

theorem checkouts_answered_once:
  assumes "run_ok (checkout_step rzp) checkout_ok checkout_init es"
    and "s = run_events (checkout_step rzp) checkout_init es"
  shows "scripts s \<le> 1 \<and>
    (case razorpayScriptPromise s of
       None \<Rightarrow> announced es = []
     | Some Pending \<Rightarrow> waiting s = announced es \<and> answers s = []
     | Some Rejected \<Rightarrow> waiting s = [] \<and>
         answers s = map (\<lambda>c. ToastUnavailable ''Razorpay Checkout could not be loaded.'') (announced es)
     | Some (Resolved g) \<Rightarrow> waiting s = [] \<and>
         answers s = map (\<lambda>c. if g \<noteq> Constructor then ToastUnavailable ''Razorpay Checkout is unavailable.''
           else case rzp (payment_of c) of
             Some e \<Rightarrow> ToastUnavailable (toast_text e)
           | None \<Rightarrow> OpenPayment (payment_of c)) (announced es))"
  using checkout_inv_run [OF assms(1)] unfolding assms(2) [symmetric]
  by (auto simp: checkout_inv_def answered_def owed_answer_def split: option.splits script_promise.splits if_splits)

definition sample_checkout :: checkout where
  "sample_checkout = \<lparr>key_id = ''k'', order_id = ''o'', amount_minor = 900, currency = ''INR'', description = ''d'',
     customer_name = ''n'', email = ''e'', return_url = ''/r''\<rparr>"

definition other_checkout :: checkout where
  "other_checkout = sample_checkout\<lparr>order_id := ''o2'', amount_minor := 1900\<rparr>"

theorem checkouts_answered_once_witness:
  "answers (run_events (checkout_step (\<lambda>p. if pay_amount p < 1000 then None else Some (ThrownError ''limit''))) checkout_init
      [RazorpayReady sample_checkout, RazorpayReady other_checkout, ScriptLoad Constructor])
    = [OpenPayment (payment_of sample_checkout), ToastUnavailable ''limit'']"
proof -
  let ?rzp = "\<lambda>p. if pay_amount p < 1000 then None else Some (ThrownError ''limit'')"
  let ?es = "[RazorpayReady sample_checkout, RazorpayReady other_checkout, ScriptLoad Constructor]"
  let ?s = "run_events (checkout_step ?rzp) checkout_init ?es"
  have ok: "run_ok (checkout_step ?rzp) checkout_ok checkout_init ?es"
    by (simp add: on_razorpay_ready_def loadRazorpay_def checkout_init_def continue_checkout_def act_def)
  have p: "razorpayScriptPromise ?s = Some (Resolved Constructor)"
    by (simp add: on_razorpay_ready_def loadRazorpay_def checkout_init_def continue_checkout_def act_def settle_def)
  have "pay_amount (payment_of sample_checkout) = 900" "pay_amount (payment_of other_checkout) = 1900"
    by (simp_all add: payment_of_def other_checkout_def sample_checkout_def)
  with checkouts_answered_once [OF ok refl] show ?thesis unfolding p by (simp add: toast_text_def)
qed

lemma rejected_ready:
  assumes "razorpayScriptPromise s = Some Rejected" "Razorpay s = Missing"
  shows "on_razorpay_ready rzp c s = act (ToastUnavailable ''Razorpay Checkout could not be loaded.'') s"
  using assms by (simp add: on_razorpay_ready_def loadRazorpay_def continue_checkout_def)

text \<open>
  C30. One failed download of the script is final: its rejected promise stays cached, so every later
  checkout of the page is refused with the same toast and the script is never requested again.
\<close>

theorem failed_script_is_final:
  assumes "razorpayScriptPromise s = Some Rejected" "Razorpay s = Missing"
  shows "actions (fold (on_razorpay_ready rzp) cs s) =
    actions s @ replicate (length cs) (ToastUnavailable ''Razorpay Checkout could not be loaded.'')"
  using assms
proof (induction cs arbitrary: s)
  case (Cons c cs)
  then show ?case by (simp add: rejected_ready)
qed simp

theorem failed_script_is_final_witness:
  "length (actions (fold (on_razorpay_ready (\<lambda>_. None)) [sample_checkout, sample_checkout]
     (run_events (checkout_step (\<lambda>_. None)) checkout_init [RazorpayReady sample_checkout, ScriptError]))) = 4"
proof -
  let ?s = "run_events (checkout_step (\<lambda>_. None)) checkout_init [RazorpayReady sample_checkout, ScriptError]"
  have s: "?s = \<lparr>Razorpay = Missing, razorpayScriptPromise = Some Rejected, waiting = [],
      actions = [AppendScript SCRIPT_SRC, ToastUnavailable ''Razorpay Checkout could not be loaded.'']\<rparr>"
    by (simp add: on_razorpay_ready_def loadRazorpay_def checkout_init_def continue_checkout_def act_def settle_def)
  show ?thesis unfolding s
    by (subst failed_script_is_final) simp_all
qed

end
