(* ===== verification/Storefront_Client.thy ===== *)
theory Storefront_Client imports Json "HOL-Library.Word" begin

text \<open>
  \<^verbatim>\<open>packages/storefront/src/index.js\<close>: the client of the storefront API. Texts are what JavaScript
  strings are, lists of 16-bit code units, so that the two encodings the client uses are complete:
  \<open>encodeURIComponent\<close>, which throws on a surrogate without its partner, and the serialiser of
  \<open>URLSearchParams\<close>, which replaces it. What \<open>fetch\<close> does with a URL is the argument \<open>server\<close>: it
  may never answer, reject, or give a response whose body in turn may never arrive or fail to parse.
\<close>

section \<open>Code units, code points, bytes\<close>

type_synonym js_text = "16 word list"

definition ascii :: "string \<Rightarrow> js_text" where
  "ascii = map (\<lambda>c. word_of_nat (code c))"

definition high_surrogate :: "16 word \<Rightarrow> bool" where
  "high_surrogate w \<longleftrightarrow> 0xD800 \<le> unat w \<and> unat w \<le> 0xDBFF"

definition low_surrogate :: "16 word \<Rightarrow> bool" where
  "low_surrogate w \<longleftrightarrow> 0xDC00 \<le> unat w \<and> unat w \<le> 0xDFFF"

definition surrogate_pair :: "16 word \<Rightarrow> 16 word \<Rightarrow> nat" where
  "surrogate_pair h l = 0x10000 + (unat h - 0xD800) * 0x400 + (unat l - 0xDC00)"

text \<open>Code points of a text; a lone surrogate is \<open>None\<close>.\<close>

fun points :: "js_text \<Rightarrow> nat option list" where
  "points [] = []"
| "points [w] = [if high_surrogate w \<or> low_surrogate w then None else Some (unat w)]"
| "points (w # v # ws) =
     (if high_surrogate w \<and> low_surrogate v then Some (surrogate_pair w v) # points ws
      else (if high_surrogate w \<or> low_surrogate w then None else Some (unat w)) # points (v # ws))"

definition utf8_bytes :: "nat \<Rightarrow> nat list" where
  "utf8_bytes n =
     (if n < 0x80 then [n]
      else if n < 0x800 then [192 + n div 64, 128 + n mod 64]
      else if n < 0x10000 then [224 + n div 64 div 64, 128 + n div 64 mod 64, 128 + n mod 64]
      else [240 + n div 64 div 64 div 64, 128 + n div 64 div 64 mod 64, 128 + n div 64 mod 64, 128 + n mod 64])"

section \<open>Percent encoding\<close>

definition upper_hex :: "nat \<Rightarrow> char" where
  "upper_hex d = (if d < 10 then char_of (48 + d) else char_of (55 + d))"

definition percent_byte :: "nat \<Rightarrow> string" where
  "percent_byte b = [CHR ''%'', upper_hex (b div 16), upper_hex (b mod 16)]"

definition percent_encode :: "nat \<Rightarrow> string" where
  "percent_encode n = concat (map percent_byte (utf8_bytes n))"

definition uri_unreserved :: "char \<Rightarrow> bool" where
  "uri_unreserved c \<longleftrightarrow> is_alnum c \<or> c \<in> set ''-_.!~*()'' \<or> c = SQ"

definition encode_point :: "nat \<Rightarrow> string" where
  "encode_point n = (if n < 128 \<and> uri_unreserved (char_of n) then [char_of n] else percent_encode n)"

text \<open>\<open>None\<close> is the \<open>URIError\<close>.\<close>

definition encodeURIComponent :: "js_text \<Rightarrow> string option" where
  "encodeURIComponent s =
     (if None \<in> set (points s) then None else Some (concat (map (\<lambda>p. encode_point (the p)) (points s))))"

definition form_unreserved :: "char \<Rightarrow> bool" where
  "form_unreserved c \<longleftrightarrow> is_alnum c \<or> c \<in> set ''*-._''"

definition form_point :: "nat \<Rightarrow> string" where
  "form_point n =
     (if n < 128 \<and> form_unreserved (char_of n) then [char_of n] else if n = 32 then ''+'' else percent_encode n)"

definition form_encode :: "js_text \<Rightarrow> string" where
  "form_encode s = concat (map (\<lambda>p. form_point (case p of None \<Rightarrow> 0xFFFD | Some n \<Rightarrow> n)) (points s))"

fun search_params :: "(js_text \<times> js_text) list \<Rightarrow> string" where
  "search_params [] = []"
| "search_params [(k, v)] = form_encode k @ ''='' @ form_encode v"
| "search_params ((k, v) # kvs) = form_encode k @ ''='' @ form_encode v @ ''&'' @ search_params kvs"

section \<open>The client\<close>

text \<open>A promise of \<open>fetch\<close> or of \<open>response.json()\<close>, by what becomes of it.\<close>

datatype 'a promised = NeverSettles | RejectsWith string | ResolvesTo 'a

record storefront_response =
  resp_status :: nat
  resp_ok :: bool
  resp_json :: "json promised"

text \<open>A call of the client throws at once, or returns a promise.\<close>

datatype storefront_call = ThrowsURIError | Returns "json promised"

text \<open>\<open>String(baseUrl || '').replace(/\/$/, '')\<close>.\<close>

definition storefront_root :: "js_text option \<Rightarrow> js_text" where
  "storefront_root baseUrl =
     (let b = (case baseUrl of None \<Rightarrow> [] | Some u \<Rightarrow> u) in if b \<noteq> [] \<and> [last b] = ascii ''/'' then butlast b else b)"

definition get ::
  "(js_text \<Rightarrow> storefront_response promised) \<Rightarrow> js_text \<Rightarrow> js_text \<Rightarrow> json promised" where
  "get server base path =
     (case server (base @ path) of
        NeverSettles \<Rightarrow> NeverSettles
      | RejectsWith e \<Rightarrow> RejectsWith e
      | ResolvesTo response \<Rightarrow>
          if \<not> resp_ok response then RejectsWith (''OnePloy storefront '' @ show_nat (resp_status response))
          else resp_json response)"

definition catalogue_path :: "js_text option \<Rightarrow> js_text option \<Rightarrow> js_text" where
  "catalogue_path cur interval =
     ascii (''/api/storefront/v1/catalogue?'' @
       search_params ((ascii ''interval'', case interval of None \<Rightarrow> ascii ''monthly'' | Some i \<Rightarrow> i)
         # (case cur of None \<Rightarrow> [] | Some c \<Rightarrow> if c = [] then [] else [(ascii ''currency'', c)])))"

definition catalogue where
  "catalogue server baseUrl cur interval =
     Returns (get server (storefront_root baseUrl) (catalogue_path cur interval))"

definition applications where
  "applications server baseUrl =
     Returns (get server (storefront_root baseUrl) (ascii ''/api/storefront/v1/applications''))"

definition search_path :: "js_text \<Rightarrow> js_text option" where
  "search_path q = map_option (\<lambda>e. ascii (''/api/storefront/v1/domains/search?q='' @ e)) (encodeURIComponent q)"

definition searchDomain where
  "searchDomain server baseUrl q =
     (case search_path q of
        None \<Rightarrow> ThrowsURIError
      | Some path \<Rightarrow> Returns (get server (storefront_root baseUrl) path))"

definition storefront_status where
  "storefront_status server baseUrl =
     Returns (get server (storefront_root baseUrl) (ascii ''/api/storefront/v1/status''))"

definition checkoutStatus where
  "checkoutStatus server baseUrl cid =
     Returns (get server (storefront_root baseUrl) (ascii ''/api/storefront/v1/checkout/'' @ cid))"

text \<open>The object \<open>createStorefrontClient\<close> returns.\<close>

record storefront_client =
  sf_catalogue :: "js_text option \<Rightarrow> js_text option \<Rightarrow> storefront_call"
  sf_applications :: storefront_call
  sf_searchDomain :: "js_text \<Rightarrow> storefront_call"
  sf_status :: storefront_call
  sf_checkoutStatus :: "js_text \<Rightarrow> storefront_call"

definition createStorefrontClient ::
  "(js_text \<Rightarrow> storefront_response promised) \<Rightarrow> js_text option \<Rightarrow> storefront_client" where
  "createStorefrontClient server baseUrl =
     \<lparr>sf_catalogue = catalogue server baseUrl, sf_applications = applications server baseUrl,
      sf_searchDomain = searchDomain server baseUrl, sf_status = storefront_status server baseUrl,
      sf_checkoutStatus = checkoutStatus server baseUrl\<rparr>"

section \<open>Reading a query back\<close>

text \<open>
  The receiver's side, \<open>decodeURIComponent\<close>: percent sequences back to bytes, UTF-8 sequences of the
  shortest form back to code points, code points back to code units.
\<close>

fun unpercent :: "string \<Rightarrow> nat list option" where
  "unpercent [] = Some []"
| "unpercent (c # cs) =
     (if c = CHR ''%'' then
        (case cs of
           a # b # r \<Rightarrow>
             (case (hex_val a, hex_val b) of
                (Some x, Some y) \<Rightarrow> map_option ((#) (16 * x + y)) (unpercent r)
              | _ \<Rightarrow> None)
         | _ \<Rightarrow> None)
      else map_option ((#) (code c)) (unpercent cs))"

definition utf8_tail :: "nat \<Rightarrow> bool" where
  "utf8_tail b \<longleftrightarrow> 128 \<le> b \<and> b < 192"

definition scalar_value :: "nat \<Rightarrow> bool" where
  "scalar_value n \<longleftrightarrow> n < 0x110000 \<and> \<not> (0xD800 \<le> n \<and> n < 0xE000)"

fun utf8_decode :: "nat list \<Rightarrow> nat list option" where
  "utf8_decode [] = Some []"
| "utf8_decode (b # bs) =
     (if b < 128 then map_option ((#) b) (utf8_decode bs)
      else if 192 \<le> b \<and> b < 224 then
        (case bs of
           c # r \<Rightarrow>
             let n = (b - 192) * 64 + (c - 128) in
             if utf8_tail c \<and> 0x80 \<le> n then map_option ((#) n) (utf8_decode r) else None
         | _ \<Rightarrow> None)
      else if 224 \<le> b \<and> b < 240 then
        (case bs of
           c # d # r \<Rightarrow>
             let n = ((b - 224) * 64 + (c - 128)) * 64 + (d - 128) in
             if utf8_tail c \<and> utf8_tail d \<and> 0x800 \<le> n \<and> scalar_value n
             then map_option ((#) n) (utf8_decode r) else None
         | _ \<Rightarrow> None)
      else if 240 \<le> b \<and> b < 248 then
        (case bs of
           c # d # e # r \<Rightarrow>
             let n = (((b - 240) * 64 + (c - 128)) * 64 + (d - 128)) * 64 + (e - 128) in
             if utf8_tail c \<and> utf8_tail d \<and> utf8_tail e \<and> 0x10000 \<le> n \<and> scalar_value n
             then map_option ((#) n) (utf8_decode r) else None
         | _ \<Rightarrow> None)
      else None)"

definition point_units :: "nat \<Rightarrow> js_text" where
  "point_units n =
     (if n < 0x10000 then [word_of_nat n]
      else [word_of_nat (0xD800 + (n - 0x10000) div 0x400), word_of_nat (0xDC00 + (n - 0x10000) mod 0x400)])"

definition decodeURIComponent :: "string \<Rightarrow> js_text option" where
  "decodeURIComponent s =
     map_option (\<lambda>ns. concat (map point_units ns)) (Option.bind (unpercent s) utf8_decode)"

text \<open>
  A surrogate without its partner: reading from the left, \<open>h\<close> says that the unit just read was a
  high surrogate that still needs its low one.
\<close>

fun unpaired :: "bool \<Rightarrow> js_text \<Rightarrow> bool" where
  "unpaired h [] = h"
| "unpaired h (w # ws) = (if low_surrogate w then \<not> h \<or> unpaired False ws else h \<or> unpaired (high_surrogate w) ws)"

lemma surrogates_disjoint: "high_surrogate w \<Longrightarrow> \<not> low_surrogate w"
  by (simp add: high_surrogate_def low_surrogate_def)

lemma points_unpaired: "None \<in> set (points s) \<longleftrightarrow> unpaired False s"
proof (induction s rule: points.induct)
  case (3 w v ws)
  then show ?case using surrogates_disjoint [of w] by (cases "high_surrogate w"; cases "low_surrogate v") auto
qed (auto simp: surrogates_disjoint)

lemma pair_units:
  assumes "high_surrogate h" "low_surrogate l"
  shows "point_units (surrogate_pair h l) = [h, l]" "scalar_value (surrogate_pair h l)"
proof -
  define a b where "a = unat h - 0xD800" and "b = unat l - 0xDC00"
  with assms have h: "unat h = 0xD800 + a" "a < 0x400" and l: "unat l = 0xDC00 + b" "b < 0x400"
    by (auto simp: high_surrogate_def low_surrogate_def)
  have n: "surrogate_pair h l = 0x10000 + (a * 0x400 + b)" by (simp add: surrogate_pair_def a_def b_def)
  have d: "(a * 0x400 + b) div 0x400 = a" "(a * 0x400 + b) mod 0x400 = b" using l(2) by simp_all
  have "word_of_nat (0xD800 + a) = h" "word_of_nat (0xDC00 + b) = l" by (simp_all flip: h(1) l(1))
  with d show "point_units (surrogate_pair h l) = [h, l]" unfolding n point_units_def by (simp del: word_of_nat_eq_0_iff)
  from h(2) l(2) show "scalar_value (surrogate_pair h l)" unfolding n scalar_value_def by simp
qed

lemma points_units:
  assumes "None \<notin> set (points s)"
  shows "concat (map (\<lambda>p. point_units (the p)) (points s)) = s \<and> (\<forall>p\<in>set (points s). scalar_value (the p))"
  using assms
proof (induction s rule: points.induct)
  case (2 w)
  then show ?case using unsigned_less [of w] by (auto simp: point_units_def scalar_value_def high_surrogate_def low_surrogate_def split: if_splits)
next
  case (3 w v ws)
  have plain: "point_units (unat w) = [w] \<and> scalar_value (unat w)" if "\<not> high_surrogate w" "\<not> low_surrogate w"
    using that unsigned_less [of w] by (auto simp: point_units_def scalar_value_def high_surrogate_def low_surrogate_def)
  show ?case
  proof (cases "high_surrogate w \<and> low_surrogate v")
    case True
    with 3 pair_units [of w v] show ?thesis by simp
  next
    case False
    with 3 plain show ?thesis by (auto split: if_splits)
  qed
qed simp

lemma hex_upper: "d < 16 \<Longrightarrow> hex_val (upper_hex d) = Some d"
proof -
  assume "d < 16"
  then have "d \<in> set [0..<16]" by simp
  then show ?thesis by (auto simp: hex_val_def upper_hex_def is_digit_def digit_val_def code_def upt_rec)
qed

lemma unpercent_byte: "b < 256 \<Longrightarrow> unpercent (percent_byte b @ r) = map_option ((#) b) (unpercent r)"
  by (simp add: percent_byte_def hex_upper less_mult_imp_div_less)

lemma unpercent_bytes:
  "(\<forall>b\<in>set bs. b < 256) \<Longrightarrow> unpercent (concat (map percent_byte bs) @ r) = map_option ((@) bs) (unpercent r)"
proof (induction bs)
  case Nil
  then show ?case by (cases "unpercent r") simp_all
next
  case (Cons b bs)
  then show ?case by (simp add: unpercent_byte option.map_comp comp_def)
qed

lemma utf8_bytes_byte: "n < 0x110000 \<Longrightarrow> b \<in> set (utf8_bytes n) \<Longrightarrow> b < 256"
  by (auto simp: utf8_bytes_def less_mult_imp_div_less split: if_splits intro: trans_less_add1 order.strict_trans2)

lemma unpercent_point:
  assumes "n < 0x110000"
  shows "unpercent (encode_point n @ r) = map_option ((@) (utf8_bytes n)) (unpercent r)"
proof (cases "n < 128 \<and> uri_unreserved (char_of n)")
  case True
  then have "char_of n \<noteq> CHR ''%''"
    by (auto simp: uri_unreserved_def is_alnum_def is_digit_def is_upper_def is_lower_def code_def
      dest: arg_cong [of _ _ code])
  moreover have "encode_point n = [char_of n]" using True by (simp add: encode_point_def)
  moreover from True have "code (char_of n) = n" "utf8_bytes n = [n]" by (simp_all add: code_def utf8_bytes_def)
  ultimately show ?thesis by (cases "unpercent r") (simp_all add: encode_point_def)
next
  case False
  then have "encode_point n = concat (map percent_byte (utf8_bytes n))"
    by (simp add: encode_point_def percent_encode_def del: de_Morgan_conj)
  then show ?thesis using unpercent_bytes [of "utf8_bytes n" r] utf8_bytes_byte [OF assms] by simp
qed

lemma unpercent_encode:
  "\<forall>n\<in>set ns. n < 0x110000 \<Longrightarrow> unpercent (concat (map encode_point ns)) = Some (concat (map utf8_bytes ns))"
  by (induction ns) (simp_all add: unpercent_point)

lemma utf8_decode_bytes:
  assumes "scalar_value n"
  shows "utf8_decode (utf8_bytes n @ r) = map_option ((#) n) (utf8_decode r)"
proof -
  have m: "n div 64 * 64 + n mod 64 = n" "n div 64 div 64 * 64 + n div 64 mod 64 = n div 64"
    "n div 64 div 64 div 64 * 64 + n div 64 div 64 mod 64 = n div 64 div 64" by simp_all
  consider "n < 0x80" | "0x80 \<le> n" "n < 0x800" | "0x800 \<le> n" "n < 0x10000" | "0x10000 \<le> n" by linarith
  then show ?thesis
  proof cases
    case 1
    then show ?thesis by (simp add: utf8_bytes_def)
  next
    case 2
    then have "n div 64 < 32" by (simp add: less_mult_imp_div_less)
    with 2 m show ?thesis by (simp add: utf8_bytes_def utf8_tail_def)
  next
    case 3
    then have "n div 64 div 64 < 16" by (simp add: less_mult_imp_div_less)
    with 3 m assms show ?thesis by (simp add: utf8_bytes_def utf8_tail_def)
  next
    case 4
    from assms have "n div 64 div 64 div 64 < 8" by (simp add: less_mult_imp_div_less scalar_value_def)
    moreover have "4096 * (n div 64 div 64) + n div 64 mod 64 * 64 + n mod 64 = n" using m(1,2) by linarith
    ultimately show ?thesis using 4 assms by (simp add: utf8_bytes_def utf8_tail_def)
  qed
qed

lemma utf8_roundtrip: "\<forall>n\<in>set ns. scalar_value n \<Longrightarrow> utf8_decode (concat (map utf8_bytes ns)) = Some ns"
  by (induction ns) (simp_all add: utf8_decode_bytes)

lemma upper_hex_alnum: "d < 16 \<Longrightarrow> is_alnum (upper_hex d)"
proof -
  assume "d < 16"
  then have "d \<in> set [0..<16]" by simp
  then show ?thesis by (auto simp: upper_hex_def is_alnum_def is_digit_def is_upper_def code_def upt_rec)
qed

lemma percent_byte_chars: "b < 256 \<Longrightarrow> list_all (\<lambda>c. uri_unreserved c \<or> c = CHR ''%'') (percent_byte b)"
  by (simp add: percent_byte_def uri_unreserved_def upper_hex_alnum less_mult_imp_div_less)

lemma encode_point_chars:
  assumes "n < 0x110000" "c \<in> set (encode_point n)"
  shows "uri_unreserved c \<or> c = CHR ''%''"
  using assms utf8_bytes_byte [OF assms(1)] percent_byte_chars
  by (fastforce simp: encode_point_def percent_encode_def list_all_iff split: if_splits)

lemma decode_encode:
  assumes "\<not> unpaired False s"
  obtains e where "encodeURIComponent s = Some e" "decodeURIComponent e = Some s"
    "list_all (\<lambda>c. uri_unreserved c \<or> c = CHR ''%'') e"
proof -
  let ?ns = "map the (points s)"
  let ?e = "concat (map encode_point ?ns)"
  from assms have none: "None \<notin> set (points s)" by (simp add: points_unpaired)
  note u = points_units [OF none]
  from u have sv: "\<forall>n\<in>set ?ns. scalar_value n" and lt: "\<forall>n\<in>set ?ns. n < 0x110000"
    by (auto simp: scalar_value_def)
  have "decodeURIComponent ?e = Some s"
    using u unfolding decodeURIComponent_def unpercent_encode [OF lt] bind.bind_lunit utf8_roundtrip [OF sv]
    by (simp add: comp_def)
  moreover have "list_all (\<lambda>c. uri_unreserved c \<or> c = CHR ''%'') ?e"
    using lt encode_point_chars by (fastforce simp: list_all_iff)
  moreover have "encodeURIComponent s = Some ?e" using none by (simp add: encodeURIComponent_def comp_def)
  ultimately show thesis using that by blast
qed

section \<open>Properties\<close>

text \<open>
  C31. A domain search reaches the backend as typed. A query with a surrogate that has no partner
  throws before anything is requested; for every other query, whatever its code units, the request
  goes to the search path below the base URL, decoding the query of that URL gives the text searched
  for, and the query holds no character with a meaning in URLs (ampersand, hash, slash, equals, plus,
  space). A request that fails rejects with that failure, a reply that is not ok rejects with an
  error naming its status, and otherwise the call gives what reading the body gives.
\<close>

theorem search_query_read_back:
  "if unpaired False q then searchDomain server baseUrl q = ThrowsURIError
   else \<exists>query.
     searchDomain server baseUrl q = Returns
       (case server (storefront_root baseUrl @ ascii (''/api/storefront/v1/domains/search?q='' @ query)) of
          NeverSettles \<Rightarrow> NeverSettles
        | RejectsWith e \<Rightarrow> RejectsWith e
        | ResolvesTo r \<Rightarrow> if resp_ok r then resp_json r
                          else RejectsWith (''OnePloy storefront '' @ show_nat (resp_status r)))
     \<and> decodeURIComponent query = Some q
     \<and> set query \<inter> {CHR ''&'', CHR ''#'', CHR ''/'', CHR ''='', CHR ''+'', SP} = {}"
proof (cases "unpaired False q")
  case True
  then show ?thesis
    by (simp add: searchDomain_def search_path_def encodeURIComponent_def points_unpaired)
next
  case False
  then obtain e where e: "encodeURIComponent q = Some e" "decodeURIComponent e = Some q"
    and chars: "list_all (\<lambda>c. uri_unreserved c \<or> c = CHR ''%'') e"
    by (rule decode_encode)
  have "\<not> uri_unreserved c" if "c \<in> {CHR ''&'', CHR ''#'', CHR ''/'', CHR ''='', CHR ''+'', SP}" for c
    using that by (auto simp: uri_unreserved_def is_alnum_def is_digit_def is_upper_def is_lower_def code_def)
  with chars have "set e \<inter> {CHR ''&'', CHR ''#'', CHR ''/'', CHR ''='', CHR ''+'', SP} = {}"
    by (fastforce simp: list_all_iff)
  moreover have "searchDomain server baseUrl q = Returns
      (case server (storefront_root baseUrl @ ascii (''/api/storefront/v1/domains/search?q='' @ e)) of
         NeverSettles \<Rightarrow> NeverSettles
       | RejectsWith e \<Rightarrow> RejectsWith e
       | ResolvesTo r \<Rightarrow> if resp_ok r then resp_json r
                         else RejectsWith (''OnePloy storefront '' @ show_nat (resp_status r)))"
    unfolding searchDomain_def search_path_def get_def e(1) by (simp split: promised.split)
  ultimately show ?thesis using False e(2) by (simp only: if_False) blast
qed

end
