(* ===== verification/App_Page.thy ===== *)
theory App_Page imports Js_Values begin

text \<open>
  \<^verbatim>\<open>resources/js/app.js\<close>, the page script: \<open>scrollToSettingsSection\<close> with the closures it leaves
  behind (a \<open>scrollend\<close> listener, an animation frame, a timer), and the attribute it strips after a
  navigation. Every call for the same element is numbered; the number stands for the variables the
  call closes over, and the record \<open>section_el\<close> for the properties kept on the element.
\<close>

section \<open>State\<close>

record scroll_call =
  finished :: bool
  rafId :: bool
  scrollEndHandler :: bool
  lastTop :: "rat option"
  stableFrames :: nat
  frames :: nat

record section_el =
  sectionHighlightCleanup :: "nat option"
  sectionHighlightTimer :: "nat option"
  is_section_highlight :: bool
  calls :: "nat \<Rightarrow> scroll_call option"
  armed :: "nat set"
  next_no :: nat
  flashed :: "nat list"

definition section_init :: section_el where
  "section_init = \<lparr>sectionHighlightCleanup = None, sectionHighlightTimer = None, is_section_highlight = False,
     calls = Map.empty, armed = {}, next_no = 0, flashed = []\<rparr>"

definition maxFrames :: nat where
  "maxFrames = 180"

definition upd_call :: "nat \<Rightarrow> (scroll_call \<Rightarrow> scroll_call) \<Rightarrow> section_el \<Rightarrow> section_el" where
  "upd_call i f s = s\<lparr>calls := (calls s)(i := map_option f (calls s i))\<rparr>"

section \<open>The closures\<close>

definition runHighlight :: "nat \<Rightarrow> section_el \<Rightarrow> section_el" where
  "runHighlight i s = s\<lparr>is_section_highlight := True, sectionHighlightTimer := Some (next_no s),
     armed := insert (next_no s) (armed s), next_no := Suc (next_no s), flashed := flashed s @ [i]\<rparr>"

definition highlight_cleanup :: "nat \<Rightarrow> section_el \<Rightarrow> section_el" where
  "highlight_cleanup i s =
     (let s1 = upd_call i (\<lambda>c. c\<lparr>rafId := False, scrollEndHandler := False\<rparr>) s in
      case sectionHighlightTimer s1 of
        None \<Rightarrow> s1
      | Some t \<Rightarrow> s1\<lparr>armed := armed s1 - {t}, sectionHighlightTimer := None\<rparr>)"

definition highlight_finish :: "nat \<Rightarrow> section_el \<Rightarrow> section_el" where
  "highlight_finish i s =
     (case calls s i of
        None \<Rightarrow> s
      | Some c \<Rightarrow>
          if finished c then s
          else runHighlight i (highlight_cleanup i (upd_call i (\<lambda>c. c\<lparr>finished := True\<rparr>) s)))"

definition cancel_highlight :: "nat \<Rightarrow> section_el \<Rightarrow> section_el" where
  "cancel_highlight i s =
     (highlight_cleanup i (upd_call i (\<lambda>c. c\<lparr>finished := True\<rparr>) s))
       \<lparr>is_section_highlight := False, sectionHighlightCleanup := None\<rparr>"

definition new_call :: scroll_call where
  "new_call = \<lparr>finished = False, rafId = True, scrollEndHandler = True, lastTop = None, stableFrames = 0, frames = 0\<rparr>"

definition scrollToSettingsSection :: "section_el \<Rightarrow> section_el" where
  "scrollToSettingsSection s0 =
     (let s = (case sectionHighlightCleanup s0 of None \<Rightarrow> s0 | Some j \<Rightarrow> cancel_highlight j s0); i = next_no s in
      s\<lparr>sectionHighlightCleanup := Some i, calls := (calls s)(i \<mapsto> new_call), next_no := Suc i\<rparr>)"

definition stable_top :: "rat option \<Rightarrow> rat \<Rightarrow> bool" where
  "stable_top l y \<longleftrightarrow> (case l of None \<Rightarrow> False | Some t \<Rightarrow> \<bar>y - t\<bar> < 1 / 2)"

definition advance :: "rat \<Rightarrow> scroll_call \<Rightarrow> scroll_call" where
  "advance y c = c\<lparr>frames := Suc (frames c),
     stableFrames := (if stable_top (lastTop c) y then Suc (stableFrames c) else 0),
     lastTop := Some y\<rparr>"

definition settled :: "scroll_call \<Rightarrow> bool" where
  "settled c \<longleftrightarrow> (4 < frames c \<and> 4 \<le> stableFrames c) \<or> maxFrames \<le> frames c"

definition tick :: "nat \<Rightarrow> rat \<Rightarrow> section_el \<Rightarrow> section_el" where
  "tick i y s0 =
     (let s = upd_call i (\<lambda>c. c\<lparr>rafId := False\<rparr>) s0 in
      case calls s i of
        None \<Rightarrow> s
      | Some c \<Rightarrow>
          if finished c then s
          else let s1 = upd_call i (advance y) s in
               if settled (advance y c) then highlight_finish i s1
               else upd_call i (\<lambda>c. c\<lparr>rafId := True\<rparr>) s1)"

definition scroll_end_one :: "nat \<Rightarrow> section_el \<Rightarrow> section_el" where
  "scroll_end_one i s =
     (case calls s i of None \<Rightarrow> s | Some c \<Rightarrow> if scrollEndHandler c then highlight_finish i s else s)"

definition on_scrollend :: "section_el \<Rightarrow> section_el" where
  "on_scrollend s = fold scroll_end_one [0..<next_no s] s"

definition highlight_timeout :: "nat \<Rightarrow> section_el \<Rightarrow> section_el" where
  "highlight_timeout t s = s\<lparr>armed := armed s - {t}, is_section_highlight := False\<rparr>"

datatype scroll_event = ScrollTo | Frame nat rat | ScrollEnd | HighlightTimeout nat

fun scroll_step :: "section_el \<Rightarrow> scroll_event \<Rightarrow> section_el" where
  "scroll_step s ScrollTo = scrollToSettingsSection s"
| "scroll_step s (Frame i y) = tick i y s"
| "scroll_step s ScrollEnd = on_scrollend s"
| "scroll_step s (HighlightTimeout t) = highlight_timeout t s"

fun scroll_ok :: "section_el \<Rightarrow> scroll_event \<Rightarrow> bool" where
  "scroll_ok s (Frame i y) = (case calls s i of None \<Rightarrow> False | Some c \<Rightarrow> rafId c)"
| "scroll_ok s (HighlightTimeout t) = (t \<in> armed s)"
| "scroll_ok s _ = True"

section \<open>Cloaked elements\<close>

text \<open>An element is the list of its attributes; a navigation strips \<open>x-cloak\<close> from every one.\<close>

definition on_navigated :: "(string \<times> string) list list \<Rightarrow> (string \<times> string) list list" where
  "on_navigated els = map (filter (\<lambda>kv. fst kv \<noteq> ''x-cloak'')) els"

section \<open>The invariant\<close>

text \<open>
  Only the call the element's cleanup belongs to can be unfinished, a finished call waits for
  nothing, only finished calls have flashed and none twice, and a waiting call has frames left.
\<close>

definition call_ok :: "section_el \<Rightarrow> nat \<Rightarrow> scroll_call \<Rightarrow> bool" where
  "call_ok s i c \<longleftrightarrow> i < next_no s \<and>
     (if finished c then \<not> rafId c \<and> \<not> scrollEndHandler c
      else sectionHighlightCleanup s = Some i \<and> i \<notin> set (flashed s) \<and> (rafId c \<longrightarrow> frames c < maxFrames))"

definition scroll_inv :: "section_el \<Rightarrow> bool" where
  "scroll_inv s \<longleftrightarrow>
     (\<forall>i c. calls s i = Some c \<longrightarrow> call_ok s i c) \<and> distinct (flashed s)
     \<and> (\<forall>i\<in>set (flashed s). i < next_no s)
     \<and> (\<forall>t\<in>armed s. t < next_no s) \<and> (\<forall>j. sectionHighlightCleanup s = Some j \<longrightarrow> j < next_no s)"

lemma upd_call_simps [simp]:
  "calls (upd_call i f s) j = (if j = i then map_option f (calls s i) else calls s j)"
  "sectionHighlightCleanup (upd_call i f s) = sectionHighlightCleanup s" "flashed (upd_call i f s) = flashed s"
  "next_no (upd_call i f s) = next_no s" "armed (upd_call i f s) = armed s"
  "sectionHighlightTimer (upd_call i f s) = sectionHighlightTimer s"
  by (simp_all add: upd_call_def)

lemma cleanup_simps [simp]:
  "calls (highlight_cleanup i s) j = (if j = i then map_option (\<lambda>c. c\<lparr>rafId := False, scrollEndHandler := False\<rparr>) (calls s i)
     else calls s j)"
  "sectionHighlightCleanup (highlight_cleanup i s) = sectionHighlightCleanup s"
  "flashed (highlight_cleanup i s) = flashed s" "next_no (highlight_cleanup i s) = next_no s"
  by (simp_all add: highlight_cleanup_def Let_def split: option.split)

lemma armed_cleanup: "armed (highlight_cleanup i s) \<subseteq> armed s"
  by (auto simp: highlight_cleanup_def Let_def split: option.split)

lemma scroll_inv_finish: "scroll_inv s \<Longrightarrow> scroll_inv (highlight_finish i s)"
proof (cases "calls s i")
  case (Some c)
  assume inv: "scroll_inv s"
  show ?thesis
  proof (cases "finished c")
    case False
    let ?t = "highlight_cleanup i (upd_call i (\<lambda>c. c\<lparr>finished := True\<rparr>) s)"
    from inv Some False have i: "i \<notin> set (flashed s)" "i < next_no s" "sectionHighlightCleanup s = Some i"
      by (auto simp: scroll_inv_def call_ok_def)
    have arm: "armed ?t \<subseteq> armed s" using armed_cleanup [of i "upd_call i (\<lambda>c. c\<lparr>finished := True\<rparr>) s"] by simp
    have "call_ok (runHighlight i ?t) j d" if "calls (runHighlight i ?t) j = Some d" for j d
      using that inv i Some
      by (fastforce simp: runHighlight_def scroll_inv_def call_ok_def split: if_splits)
    moreover have "\<forall>t\<in>armed (runHighlight i ?t). t < next_no (runHighlight i ?t)"
      using inv arm by (auto simp: runHighlight_def scroll_inv_def less_Suc_eq)
    ultimately show ?thesis using inv i Some False
      by (auto simp: highlight_finish_def scroll_inv_def runHighlight_def less_Suc_eq)
  qed (use inv Some in \<open>simp add: highlight_finish_def\<close>)
qed (simp add: highlight_finish_def)

lemma upd_call_None: "calls s i = None \<Longrightarrow> upd_call i f s = s"
  by (simp add: upd_call_def fun_upd_idem)

lemma call_okD: "scroll_inv s \<Longrightarrow> calls s i = Some c \<Longrightarrow> call_ok s i c"
  by (simp add: scroll_inv_def)

lemma scroll_inv_upd_call:
  assumes "scroll_inv s" "\<And>c. calls s i = Some c \<Longrightarrow> call_ok s i (f c)"
  shows "scroll_inv (upd_call i f s)"
proof -
  have "call_ok (upd_call i f s) j d = call_ok s j d" for j d by (simp add: call_ok_def)
  then show ?thesis using assms by (auto simp: scroll_inv_def split: if_splits)
qed

text \<open>Cancelling the call that holds the cleanup leaves no call unfinished.\<close>

lemma scroll_inv_cancel:
  assumes inv: "scroll_inv s" and i: "sectionHighlightCleanup s = Some i"
  shows "scroll_inv (cancel_highlight i s) \<and> (\<forall>j c. calls (cancel_highlight i s) j = Some c \<longrightarrow> finished c)"
proof -
  let ?t = "cancel_highlight i s"
  have fin: "finished c \<and> \<not> rafId c \<and> \<not> scrollEndHandler c \<and> j < next_no s" if "calls ?t j = Some c" for j c
    using that inv i by (fastforce simp: cancel_highlight_def scroll_inv_def call_ok_def split: if_splits)
  have "armed ?t \<subseteq> armed s"
    using armed_cleanup [of i "upd_call i (\<lambda>c. c\<lparr>finished := True\<rparr>) s"] by (simp add: cancel_highlight_def)
  moreover have "next_no ?t = next_no s" "flashed ?t = flashed s" "sectionHighlightCleanup ?t = None"
    by (simp_all add: cancel_highlight_def)
  ultimately show ?thesis using inv fin by (auto simp: scroll_inv_def call_ok_def)
qed

lemma scroll_inv_new:
  assumes inv: "scroll_inv s" and fin: "\<And>j c. calls s j = Some c \<Longrightarrow> finished c"
  shows "scroll_inv (s\<lparr>sectionHighlightCleanup := Some (next_no s), calls := (calls s)(next_no s \<mapsto> new_call),
    next_no := Suc (next_no s)\<rparr>)"
  using assms by (fastforce simp: scroll_inv_def call_ok_def new_call_def maxFrames_def split: if_splits)

lemma scroll_inv_scrollTo: "scroll_inv s \<Longrightarrow> scroll_inv (scrollToSettingsSection s)"
proof (cases "sectionHighlightCleanup s")
  case None
  assume inv: "scroll_inv s"
  with None have "finished c" if "calls s j = Some c" for j c
    using that by (auto simp: scroll_inv_def call_ok_def split: if_splits)
  with scroll_inv_new [OF inv] None show ?thesis by (simp add: scrollToSettingsSection_def Let_def)
next
  case (Some i)
  assume inv: "scroll_inv s"
  note c = scroll_inv_cancel [OF inv Some]
  with scroll_inv_new [of "cancel_highlight i s"] Some show ?thesis
    by (simp add: scrollToSettingsSection_def Let_def)
qed

lemma call_ok_updates:
  "call_ok s i c \<Longrightarrow> call_ok s i (c\<lparr>rafId := False\<rparr>)"
  "call_ok s i c \<Longrightarrow> \<not> rafId c \<Longrightarrow> call_ok s i (advance y c)"
  "call_ok s i c \<Longrightarrow> \<not> finished c \<Longrightarrow> frames c < maxFrames \<Longrightarrow> call_ok s i (c\<lparr>rafId := True\<rparr>)"
  by (simp_all add: call_ok_def advance_def split: if_splits)

lemma call_ok_upd: "call_ok (upd_call j f s) i c = call_ok s i c"
  by (simp add: call_ok_def)

lemma tick_Some:
  assumes "calls s i = Some c"
  shows "tick i y s =
    (let s1 = upd_call i (\<lambda>c. c\<lparr>rafId := False\<rparr>) s; s2 = upd_call i (advance y) s1 in
     if finished c then s1
     else if settled (advance y (c\<lparr>rafId := False\<rparr>)) then highlight_finish i s2
     else upd_call i (\<lambda>c. c\<lparr>rafId := True\<rparr>) s2)"
  using assms by (simp add: tick_def Let_def)

lemma scroll_inv_tick: "scroll_inv s \<Longrightarrow> scroll_inv (tick i y s)"
proof (cases "calls s i")
  case None
  then show "scroll_inv s \<Longrightarrow> ?thesis" by (simp add: tick_def Let_def upd_call_None)
next
  case (Some c)
  assume inv: "scroll_inv s"
  let ?c = "c\<lparr>rafId := False\<rparr>"
  let ?s1 = "upd_call i (\<lambda>c. c\<lparr>rafId := False\<rparr>) s"
  let ?s2 = "upd_call i (advance y) ?s1"
  have c1: "calls ?s1 i = Some ?c" and c2: "calls ?s2 i = Some (advance y ?c)" using Some by simp_all
  have o1: "call_ok s i ?c" using call_okD [OF inv Some] by (rule call_ok_updates)
  have s1: "scroll_inv ?s1" using o1 Some by (intro scroll_inv_upd_call inv) simp
  have o2: "call_ok s i (advance y ?c)" using o1 by (rule call_ok_updates) simp
  have s2: "scroll_inv ?s2"
  proof (rule scroll_inv_upd_call [OF s1])
    fix d assume "calls ?s1 i = Some d"
    with c1 have "d = ?c" by (metis option.inject)
    with o2 show "call_ok ?s1 i (advance y d)" by (simp only: call_ok_upd)
  qed
  have s3: "scroll_inv (upd_call i (\<lambda>c. c\<lparr>rafId := True\<rparr>) ?s2)"
    if "\<not> settled (advance y ?c)" "\<not> finished c"
  proof (rule scroll_inv_upd_call [OF s2])
    fix d assume "calls ?s2 i = Some d"
    with c2 have d: "d = advance y ?c" by (metis option.inject)
    have "frames d < maxFrames" "\<not> finished d" using that d by (simp_all add: settled_def advance_def)
    with o2 d call_ok_updates(3) show "call_ok ?s2 i (d\<lparr>rafId := True\<rparr>)" by (simp add: call_ok_upd)
  qed
  show ?thesis unfolding tick_Some [OF Some] Let_def using s1 s3 scroll_inv_finish [OF s2] by simp
qed

lemma scroll_inv_scrollend: "scroll_inv s \<Longrightarrow> scroll_inv (on_scrollend s)"
proof -
  have one: "scroll_inv t \<Longrightarrow> scroll_inv (scroll_end_one i t)" for i t
    by (simp add: scroll_end_one_def scroll_inv_finish split: option.split)
  have "scroll_inv t \<Longrightarrow> scroll_inv (fold scroll_end_one is t)" for "is" t
    by (induction "is" arbitrary: t) (simp_all add: one)
  then show "scroll_inv s \<Longrightarrow> ?thesis" by (simp add: on_scrollend_def)
qed

lemma scroll_inv_timeout: "scroll_inv s \<Longrightarrow> scroll_inv (highlight_timeout t s)"
  by (simp add: scroll_inv_def highlight_timeout_def call_ok_def)

lemma scroll_inv_step: "scroll_inv s \<Longrightarrow> scroll_ok s e \<Longrightarrow> scroll_inv (scroll_step s e)"
  by (cases e) (simp_all add: scroll_inv_scrollTo scroll_inv_tick scroll_inv_scrollend scroll_inv_timeout)

interpretation scroller: invariant_machine scroll_step scroll_ok scroll_inv
  by unfold_locales (rule scroll_inv_step)

lemma scroll_inv_init: "scroll_inv section_init"
  by (simp add: scroll_inv_def section_init_def)

section \<open>A call ends\<close>

lemma finish_finished: "calls s i = Some c \<Longrightarrow> \<exists>d. calls (highlight_finish i s) i = Some d \<and> finished d"
  by (simp add: highlight_finish_def runHighlight_def)

lemma tick_cases:
  assumes "calls s i = Some c"
  shows "\<exists>d. calls (tick i y s) i = Some d \<and> (finished d \<or> frames d = Suc (frames c) \<and> frames d < maxFrames)"
proof -
  let ?s2 = "upd_call i (advance y) (upd_call i (\<lambda>c. c\<lparr>rafId := False\<rparr>) s)"
  have c2: "calls ?s2 i = Some (advance y (c\<lparr>rafId := False\<rparr>))" using assms by simp
  note t = tick_Some [OF assms, of y, unfolded Let_def]
  show ?thesis
  proof (cases "finished c")
    case True
    with assms show ?thesis by (simp add: t)
  next
    case False
    show ?thesis
    proof (cases "settled (advance y (c\<lparr>rafId := False\<rparr>))")
      case True
      with False have "tick i y s = highlight_finish i ?s2" by (simp add: t)
      with finish_finished [OF c2] show ?thesis by auto
    next
      case f: False
      then have "frames (advance y (c\<lparr>rafId := False\<rparr>)) < maxFrames" by (simp add: settled_def)
      moreover from f False have "tick i y s = upd_call i (\<lambda>c. c\<lparr>rafId := True\<rparr>) ?s2" by (simp add: t)
      ultimately show ?thesis using assms by (simp add: advance_def)
    qed
  qed
qed

lemma ticks_end:
  assumes "calls s i = Some c" "\<not> finished c" "maxFrames \<le> frames c + length ys"
    and keep: "\<And>s y d. calls s i = Some d \<Longrightarrow> finished d \<Longrightarrow> \<exists>e. calls (tick i y s) i = Some e \<and> finished e"
    and "frames c < maxFrames"
  shows "\<exists>d. calls (fold (tick i) ys s) i = Some d \<and> finished d"
  using assms(1-3,5)
proof (induction ys arbitrary: s c)
  case Nil
  then show ?case by simp
next
  case (Cons y ys)
  have stays: "\<exists>e. calls (fold (tick i) zs t) i = Some e \<and> finished e" if "calls t i = Some d" "finished d" for t d zs
    using that
  proof (induction zs arbitrary: t d)
    case (Cons z zs)
    from keep [OF Cons.prems, of z] Cons.IH show ?case by auto
  qed simp
  from tick_cases [OF Cons.prems(1), of y] obtain d where
    d: "calls (tick i y s) i = Some d" "finished d \<or> frames d = Suc (frames c) \<and> frames d < maxFrames" by blast
  show ?case
  proof (cases "finished d")
    case True
    with stays [OF d(1)] show ?thesis by simp
  next
    case False
    with d Cons.prems Cons.IH [OF d(1)] show ?thesis by simp
  qed
qed

lemma tick_finished: "calls s i = Some d \<Longrightarrow> finished d \<Longrightarrow> \<exists>e. calls (tick i y s) i = Some e \<and> finished e"
  by (simp add: tick_Some Let_def)

section \<open>Properties\<close>

text \<open>
  C32. Repeated jumps do not interfere: over every sequence of calls, frames, \<open>scrollend\<close> events and
  timers, at most one call for an element is still waiting for its scroll to settle (it is the one
  the element's cleanup belongs to), a finished call listens to nothing any more, and no call
  flashes the border twice.
\<close>

theorem one_pending_highlight:
  assumes "run_ok scroll_step scroll_ok section_init es" "s = run_events scroll_step section_init es"
  shows "(\<forall>i j c d. calls s i = Some c \<and> calls s j = Some d \<and> \<not> finished c \<and> \<not> finished d \<longrightarrow> i = j)
    \<and> (\<forall>i c. calls s i = Some c \<and> finished c \<longrightarrow> \<not> rafId c \<and> \<not> scrollEndHandler c)
    \<and> distinct (flashed s)"
proof -
  have inv: "scroll_inv s" unfolding assms(2) by (rule scroller.run_inv [OF scroll_inv_init assms(1)])
  then have "i = j" if "calls s i = Some c" "calls s j = Some d" "\<not> finished c" "\<not> finished d" for i j c d
    using call_okD [OF inv that(1)] call_okD [OF inv that(2)] that(3,4) by (simp add: call_ok_def)
  moreover have "\<not> rafId c \<and> \<not> scrollEndHandler c" if "calls s i = Some c" "finished c" for i c
    using call_okD [OF inv that(1)] that(2) by (simp add: call_ok_def)
  moreover have "distinct (flashed s)" using inv by (simp add: scroll_inv_def)
  ultimately show ?thesis by blast
qed

theorem one_pending_highlight_witness:
  "distinct (flashed (run_events scroll_step section_init [ScrollTo, ScrollEnd, ScrollTo, Frame 2 7]))"
proof -
  have "run_ok scroll_step scroll_ok section_init [ScrollTo, ScrollEnd, ScrollTo, Frame 2 7]"
    by (simp add: section_init_def scrollToSettingsSection_def new_call_def on_scrollend_def scroll_end_one_def
        highlight_finish_def highlight_cleanup_def runHighlight_def cancel_highlight_def upd_call_def Let_def upt_rec)
  from one_pending_highlight [OF this refl] show ?thesis by blast
qed

text \<open>
  C33. The fallback ends: wherever the element is in each frame, a call that has just started is
  finished after at most 180 frames, and stays finished.
\<close>

theorem highlight_within_180_frames:
  assumes "calls s i = Some new_call" "180 \<le> length ys"
  shows "\<exists>c. calls (fold (tick i) ys s) i = Some c \<and> finished c"
  by (rule ticks_end [OF assms(1)]) (use assms(2) in \<open>simp_all add: new_call_def maxFrames_def tick_finished\<close>)

theorem highlight_within_180_frames_witness:
  "\<exists>c. calls (fold (tick 0) (replicate 180 3) (scrollToSettingsSection section_init)) 0 = Some c \<and> finished c"
  by (rule highlight_within_180_frames) (simp_all add: scrollToSettingsSection_def section_init_def)

end
