(* ===== verification/Domain_Bridge.thy ===== *)
theory Domain_Bridge imports Js_Values "HOL-Library.AList" begin

text \<open>
  \<^verbatim>\<open>wordpress-bridge/assets/oneploy-bridge.js\<close>: the domain search box the WordPress plugin binds to a
  form. A keystroke schedules a search, a search aborts the one before it and sends a request, and
  only the answer to the latest request for the text still in the box may be shown and written to
  the form's hidden fields.

  The page's configuration is a record. Two things of the host are fields of it as well: whether a
  base URL is one the \<open>URL\<close> constructor accepts, and the text of a number that is no integer. A
  link target is kept as its path, base and query parameters.
\<close>

section \<open>Configuration and elements\<close>

record bridge_config =
  apiUrl :: string
  appUrl :: string
  defaultCurrency :: string
  str_available :: string
  str_unavailable :: string
  str_continue :: string
  str_checking :: string
  str_error :: string
  valid_base :: "string \<Rightarrow> bool"
  number_text :: "rat \<Rightarrow> string"

datatype node =
    Para string string
  | Anchor string string "string \<times> string \<times> (string \<times> string) list"
  | Items string "string list"

datatype form_event = DomainResult string bool | DomainError string

definition or_str :: "string \<Rightarrow> string \<Rightarrow> string" where
  "or_str a b = (if a \<noteq> [] then a else b)"

text \<open>\<open>String(v)\<close>.\<close>

fun js_text :: "(rat \<Rightarrow> string) \<Rightarrow> json \<Rightarrow> string" and js_join :: "(rat \<Rightarrow> string) \<Rightarrow> json list \<Rightarrow> string" where
  "js_text nt JNull = ''null''"
| "js_text nt (JBool b) = (if b then ''true'' else ''false'')"
| "js_text nt (JNum r) = (if of_int \<lfloor>r\<rfloor> = r then show_int \<lfloor>r\<rfloor> else nt r)"
| "js_text nt (JStr s) = s"
| "js_text nt (JArr vs) = js_join nt vs"
| "js_text nt (JObj kvs) = ''[object Object]''"
| "js_join nt [] = []"
| "js_join nt (v # vs) =
     (let t = (if v = JNull then [] else js_text nt v) in if vs = [] then t else t @ '','' @ js_join nt vs)"

section \<open>Hidden fields\<close>

type_synonym hidden_fields = "(string \<times> string) list"

definition ensureHidden :: "string \<Rightarrow> string \<Rightarrow> hidden_fields \<Rightarrow> hidden_fields" where
  "ensureHidden name v form = AList.update name v form"

definition F_AVAILABLE :: string where "F_AVAILABLE = ''oneploy_domain_available''"
definition F_CURRENCY :: string where "F_CURRENCY = ''oneploy_domain_currency''"
definition F_AMOUNT :: string where "F_AMOUNT = ''oneploy_domain_amount_minor''"

definition clearDomainMetadata :: "hidden_fields \<Rightarrow> hidden_fields" where
  "clearDomainMetadata form = ensureHidden F_AMOUNT [] (ensureHidden F_CURRENCY [] (ensureHidden F_AVAILABLE [] form))"

section \<open>Rendering a result\<close>

text \<open>\<open>toFixed(2)\<close> of \<open>amount / 100\<close>: the nearest integer, ties away from zero.\<close>

definition fixed2 :: "rat \<Rightarrow> string" where
  "fixed2 amount =
     (let n = nat \<lfloor>\<bar>amount\<bar> + 1 / 2\<rfloor> in
      (if amount < 0 then ''-'' else []) @ show_nat (n div 100) @ ''.'' @ pad_start 2 (CHR ''0'') (show_nat (n mod 100)))"

text \<open>\<open>a || b || 'USD'\<close> where \<open>a\<close> is a property of the payload.\<close>

definition currency_of :: "bridge_config \<Rightarrow> json option \<Rightarrow> string \<Rightarrow> string" where
  "currency_of cfg c fallback =
     (case c of Some v \<Rightarrow> if truthy v then js_text (number_text cfg) v else or_str fallback ''USD''
      | None \<Rightarrow> or_str fallback ''USD'')"

definition formattedQuote :: "bridge_config \<Rightarrow> json \<Rightarrow> string" where
  "formattedQuote cfg quote =
     (case get_prop ''formatted'' quote of
        Some (JStr (c # cs)) \<Rightarrow> c # cs
      | _ \<Rightarrow>
          (case get_prop ''amount_minor'' quote of
             None \<Rightarrow> []
           | Some a \<Rightarrow>
               (case to_number a of
                  Fin amount \<Rightarrow>
                    currency_of cfg (get_prop ''currency'' quote) (defaultCurrency cfg) @ '' '' @ fixed2 amount
                | _ \<Rightarrow> [])))"

definition or_empty :: "json option \<Rightarrow> json" where
  "or_empty v = (case v of Some w \<Rightarrow> if truthy w then w else JObj [] | None \<Rightarrow> JObj [])"

definition suggestion_list :: "json \<Rightarrow> json list" where
  "suggestion_list payload =
     take 5 (case get_prop ''suggestions'' payload of
               Some (JArr vs) \<Rightarrow> vs
             | Some v \<Rightarrow> (case get_prop ''suggestions'' v of Some (JArr vs) \<Rightarrow> vs | _ \<Rightarrow> [])
             | None \<Rightarrow> [])"

definition suggestion_name :: "bridge_config \<Rightarrow> json \<Rightarrow> string option" where
  "suggestion_name cfg v =
     (case v of
        JStr s \<Rightarrow> if s \<noteq> [] then Some s else None
      | _ \<Rightarrow>
          (case get_prop ''domain'' v of
             Some d \<Rightarrow> if truthy d then Some (js_text (number_text cfg) d)
                       else (case get_prop ''name'' v of
                               Some n \<Rightarrow> if truthy n then Some (js_text (number_text cfg) n) else None
                             | None \<Rightarrow> None)
           | None \<Rightarrow> (case get_prop ''name'' v of
                        Some n \<Rightarrow> if truthy n then Some (js_text (number_text cfg) n) else None
                      | None \<Rightarrow> None)))"

record rendering =
  r_nodes :: "node list"
  r_fields :: hidden_fields
  r_available :: bool

text \<open>\<open>None\<close> is an exception: a \<open>null\<close> payload, or an application URL that is none.\<close>

definition renderDomainResult ::
  "bridge_config \<Rightarrow> string \<Rightarrow> string \<Rightarrow> hidden_fields \<Rightarrow> string \<Rightarrow> json \<Rightarrow> rendering option" where
  "renderDomainResult cfg form_currency form_checkout form domain payload =
     (if payload = JNull then None
      else let quote = or_empty (get_prop ''quote'' payload);
               available = (get_prop ''available'' (or_empty (get_prop ''availability'' payload)) = Some (JBool True));
               headline = Para (domain @ '' '' @ (if available then str_available cfg else str_unavailable cfg))
                            (if available then ''is-available'' else ''is-unavailable'');
               price = formattedQuote cfg quote;
               checkout = (available \<and> form_checkout = ''yes'' \<and> appUrl cfg \<noteq> []);
               suggestions = suggestion_list payload
           in if checkout \<and> \<not> valid_base cfg (appUrl cfg) then None
              else Some \<lparr>
                r_nodes = [headline]
                  @ (if available \<and> price \<noteq> [] then [Para price ''oneploy-domain-price''] else [])
                  @ (if checkout then [Anchor (str_continue cfg) ''oneploy-domain-checkout''
                                         (''/domains'', appUrl cfg, [(''domain'', domain)])] else [])
                  @ (if suggestions \<noteq> [] then [Items ''oneploy-domain-suggestions''
                                                  (List.map_filter (suggestion_name cfg) suggestions)] else []),
                r_fields =
                  ensureHidden F_AMOUNT (case get_prop ''amount_minor'' quote of
                       None \<Rightarrow> [] | Some a \<Rightarrow> if a = JNull then [] else js_text (number_text cfg) a)
                    (ensureHidden F_CURRENCY
                       (currency_of cfg (get_prop ''currency'' quote) (or_str form_currency (defaultCurrency cfg)))
                       (ensureHidden F_AVAILABLE (if available then ''1'' else ''0'') form)),
                r_available = available\<rparr>)"

section \<open>The form\<close>

text \<open>A request is numbered by its abort controller; \<open>pending\<close> keeps its sequence number and domain.\<close>

record domain_form =
  input_value :: string
  requestSequence :: nat
  controller :: "nat option"
  timer_set :: bool
  hidden :: hidden_fields
  results :: "node list"
  pending :: "nat \<Rightarrow> (nat \<times> string) option"
  aborted :: "nat set"
  next_controller :: nat
  emitted :: "form_event list"
  fetched_urls :: "(string \<times> string \<times> (string \<times> string) list) list"
  oneployCurrency :: string
  oneployCheckout :: string

definition normalized_input :: "domain_form \<Rightarrow> string" where
  "normalized_input s = js_lower (js_trim (input_value s))"

definition abort_current :: "domain_form \<Rightarrow> domain_form" where
  "abort_current s =
     (case controller s of None \<Rightarrow> s | Some c \<Rightarrow> s\<lparr>aborted := insert c (aborted s), controller := None\<rparr>)"

definition search_failed :: "bridge_config \<Rightarrow> string \<Rightarrow> domain_form \<Rightarrow> domain_form" where
  "search_failed cfg domain s =
     s\<lparr>hidden := clearDomainMetadata (hidden s),
       results := [Para (str_error cfg) ''oneploy-domain-error''],
       emitted := emitted s @ [DomainError domain]\<rparr>"

definition searchDomain :: "bridge_config \<Rightarrow> domain_form \<Rightarrow> domain_form" where
  "searchDomain cfg s0 =
     (let domain = normalized_input s0;
          s1 = abort_current (s0\<lparr>requestSequence := Suc (requestSequence s0)\<rparr>);
          s = s1\<lparr>hidden := clearDomainMetadata (hidden s1)\<rparr>
      in if domain = [] \<or> \<not> includes_str ''.'' domain then s\<lparr>results := []\<rparr>
         else if \<not> valid_base cfg (apiUrl cfg)
         then search_failed cfg domain (s\<lparr>next_controller := Suc (next_controller s)\<rparr>)
         else s\<lparr>results := [Para (str_checking cfg) ''is-checking''],
                controller := Some (next_controller s),
                pending := (pending s)(next_controller s \<mapsto> (requestSequence s, domain)),
                fetched_urls := fetched_urls s @ [(''/api/storefront/v1/domains/search'', apiUrl cfg,
                  [(''q'', domain), (''currency'', or_str (oneployCurrency s) (or_str (defaultCurrency cfg) ''USD''))])],
                next_controller := Suc (next_controller s)\<rparr>)"

text \<open>How a request ends: a response with its \<open>ok\<close> flag and its body if that is JSON, or an error.\<close>

datatype outcome = Fetched bool "json option" | NetworkError | AbortError

definition show_result :: "bridge_config \<Rightarrow> nat \<Rightarrow> string \<Rightarrow> json \<Rightarrow> domain_form \<Rightarrow> domain_form" where
  "show_result cfg seq domain payload s =
     (if requestSequence s \<noteq> seq \<or> normalized_input s \<noteq> domain then s
      else case renderDomainResult cfg (oneployCurrency s) (oneployCheckout s) (hidden s) domain payload of
        None \<Rightarrow> search_failed cfg domain s
      | Some r \<Rightarrow> s\<lparr>hidden := r_fields r, results := r_nodes r, emitted := emitted s @ [DomainResult domain (r_available r)]\<rparr>)"

definition show_failure :: "bridge_config \<Rightarrow> nat \<Rightarrow> string \<Rightarrow> domain_form \<Rightarrow> domain_form" where
  "show_failure cfg seq domain s = (if requestSequence s \<noteq> seq then s else search_failed cfg domain s)"

definition settle_search :: "bridge_config \<Rightarrow> outcome \<Rightarrow> nat \<Rightarrow> string \<Rightarrow> domain_form \<Rightarrow> domain_form" where
  "settle_search cfg out seq domain s =
     (case out of
        AbortError \<Rightarrow> s
      | NetworkError \<Rightarrow> show_failure cfg seq domain s
      | Fetched ok body \<Rightarrow>
          if ok then (case body of Some payload \<Rightarrow> show_result cfg seq domain payload s
                      | None \<Rightarrow> show_failure cfg seq domain s)
          else show_failure cfg seq domain s)"

definition on_outcome :: "bridge_config \<Rightarrow> nat \<Rightarrow> outcome \<Rightarrow> domain_form \<Rightarrow> domain_form" where
  "on_outcome cfg rid out s0 =
     (case pending s0 rid of
        None \<Rightarrow> s0
      | Some (seq, domain) \<Rightarrow>
          let s = settle_search cfg out seq domain (s0\<lparr>pending := (pending s0)(rid := None)\<rparr>)
          in if controller s = Some rid then s\<lparr>controller := None\<rparr> else s)"

definition on_input :: "string \<Rightarrow> domain_form \<Rightarrow> domain_form" where
  "on_input v s0 =
     (let s = abort_current (s0\<lparr>input_value := v, requestSequence := Suc (requestSequence s0)\<rparr>) in
      s\<lparr>hidden := clearDomainMetadata (hidden s), results := [], timer_set := True\<rparr>)"

definition search_now :: "bridge_config \<Rightarrow> domain_form \<Rightarrow> domain_form" where
  "search_now cfg s = searchDomain cfg (s\<lparr>timer_set := False\<rparr>)"

datatype bridge_event = Input string | Blur | Submit | DebounceTimer | Outcome nat outcome

fun bridge_step :: "bridge_config \<Rightarrow> domain_form \<Rightarrow> bridge_event \<Rightarrow> domain_form" where
  "bridge_step cfg s (Input v) = on_input v s"
| "bridge_step cfg s Blur = search_now cfg s"
| "bridge_step cfg s Submit = search_now cfg s"
| "bridge_step cfg s DebounceTimer = search_now cfg s"
| "bridge_step cfg s (Outcome rid out) = on_outcome cfg rid out s"

fun bridge_ok :: "domain_form \<Rightarrow> bridge_event \<Rightarrow> bool" where
  "bridge_ok s DebounceTimer = timer_set s"
| "bridge_ok s (Outcome rid out) = (pending s rid \<noteq> None)"
| "bridge_ok s _ = True"

definition form_init :: "string \<Rightarrow> string \<Rightarrow> string \<Rightarrow> hidden_fields \<Rightarrow> domain_form" where
  "form_init v cur chk fs =
     \<lparr>input_value = v, requestSequence = 0, controller = None, timer_set = False, hidden = fs, results = [],
      pending = Map.empty, aborted = {}, next_controller = 0, emitted = [], fetched_urls = [], oneployCurrency = cur, oneployCheckout = chk\<rparr>"

section \<open>Binding\<close>

record page_form =
  oneployBound :: bool
  form_input :: bool
  form_results :: bool
  listeners :: nat
  submit_prevented :: bool

definition bindDomainForm :: "bool \<Rightarrow> page_form \<Rightarrow> page_form" where
  "bindDomainForm preventSubmit f =
     (if \<not> form_input f \<or> \<not> form_results f \<or> oneployBound f then f
      else f\<lparr>oneployBound := True, listeners := listeners f + (if preventSubmit then 3 else 2),
             submit_prevented := preventSubmit\<rparr>)"

section \<open>The invariant\<close>

definition available_field :: "domain_form \<Rightarrow> string" where
  "available_field s = (case map_of (hidden s) F_AVAILABLE of None \<Rightarrow> [] | Some v \<Rightarrow> v)"

definition metadata_ok :: "domain_form \<Rightarrow> bool" where
  "metadata_ok s \<longleftrightarrow> (if available_field s = [] then True
     else emitted s \<noteq> [] \<and> (\<exists>b. last (emitted s) = DomainResult (normalized_input s) b
            \<and> available_field s = (if b then ''1'' else ''0'')))"

definition requests_ok :: "domain_form \<Rightarrow> bool" where
  "requests_ok s \<longleftrightarrow> (\<forall>rid seq d. pending s rid = Some (seq, d) \<longrightarrow>
     rid < next_controller s \<and> (rid \<in> aborted s \<or> controller s = Some rid \<and> seq = requestSequence s))"

definition bridge_inv :: "domain_form \<Rightarrow> bool" where
  "bridge_inv s \<longleftrightarrow> metadata_ok s \<and> requests_ok s"

lemma field_names [simp]: "F_AMOUNT \<noteq> F_AVAILABLE" "F_CURRENCY \<noteq> F_AVAILABLE"
  "F_AVAILABLE \<noteq> F_AMOUNT" "F_AVAILABLE \<noteq> F_CURRENCY"
  by (simp_all add: F_AMOUNT_def F_AVAILABLE_def F_CURRENCY_def)

lemma map_of_clear: "map_of (clearDomainMetadata fs) F_AVAILABLE = Some []"
  by (simp add: clearDomainMetadata_def ensureHidden_def update_conv)

lemma cleared [simp]: "hidden s = clearDomainMetadata fs \<Longrightarrow> metadata_ok s"
  by (simp add: metadata_ok_def available_field_def map_of_clear)

lemma rendered_available:
  "renderDomainResult cfg c k fs domain payload = Some r \<Longrightarrow>
     map_of (r_fields r) F_AVAILABLE = Some (if r_available r then ''1'' else ''0'')"
  by (auto simp: renderDomainResult_def Let_def ensureHidden_def update_conv split: if_splits)

lemma abort_current_simps [simp]:
  "input_value (abort_current s) = input_value s" "requestSequence (abort_current s) = requestSequence s"
  "hidden (abort_current s) = hidden s" "emitted (abort_current s) = emitted s"
  "pending (abort_current s) = pending s" "next_controller (abort_current s) = next_controller s"
  "controller (abort_current s) = None" "results (abort_current s) = results s"
  by (simp_all add: abort_current_def split: option.split)

lemma abort_all:
  "requests_ok s \<Longrightarrow> pending s rid = Some x \<Longrightarrow> rid < next_controller s \<and> rid \<in> aborted (abort_current s)"
  by (cases x) (fastforce simp: requests_ok_def abort_current_def split: option.split)

lemma requests_aborted:
  "(\<And>rid x. pending s rid = Some x \<Longrightarrow> rid < next_controller s \<and> rid \<in> aborted s) \<Longrightarrow> requests_ok s"
  by (simp add: requests_ok_def)

lemma bridge_inv_input: "bridge_inv s \<Longrightarrow> bridge_inv (on_input v s)"
proof -
  assume "bridge_inv s"
  let ?a = "abort_current (s\<lparr>input_value := v, requestSequence := Suc (requestSequence s)\<rparr>)"
  have "rid < next_controller s \<and> rid \<in> aborted ?a" if "pending s rid = Some x" for rid x
    using abort_all [of s rid x] that \<open>bridge_inv s\<close> by (simp add: bridge_inv_def abort_current_def split: option.splits)
  then have "requests_ok (on_input v s)"
    by (intro requests_aborted) (simp add: on_input_def Let_def)
  then show ?thesis by (simp add: bridge_inv_def on_input_def Let_def)
qed

lemma bridge_inv_search: "bridge_inv s \<Longrightarrow> bridge_inv (searchDomain cfg s)"
proof -
  assume inv: "bridge_inv s"
  let ?a = "abort_current (s\<lparr>requestSequence := Suc (requestSequence s)\<rparr>)"
  have ab: "rid < next_controller s \<and> rid \<in> aborted ?a" if "pending s rid = Some x" for rid x
    using abort_all [of s rid x] that inv by (simp add: bridge_inv_def abort_current_def split: option.splits)
  have "requests_ok (searchDomain cfg s)"
    using ab by (auto simp: searchDomain_def Let_def search_failed_def requests_ok_def less_SucI split: if_splits)
  moreover have "metadata_ok (searchDomain cfg s)"
    by (simp add: searchDomain_def Let_def search_failed_def)
  ultimately show ?thesis by (simp add: bridge_inv_def)
qed

lemma bridge_inv_failed: "bridge_inv s \<Longrightarrow> bridge_inv (search_failed cfg domain s)"
  by (simp add: bridge_inv_def requests_ok_def search_failed_def)

lemma bridge_inv_result: "bridge_inv s \<Longrightarrow> bridge_inv (show_result cfg seq domain payload s)"
proof -
  assume inv: "bridge_inv s"
  show ?thesis
  proof (cases "requestSequence s \<noteq> seq \<or> normalized_input s \<noteq> domain")
    case True
    with inv show ?thesis by (simp add: show_result_def)
  next
    case False
    show ?thesis
    proof (cases "renderDomainResult cfg (oneployCurrency s) (oneployCheckout s) (hidden s) domain payload")
      case None
      with False bridge_inv_failed [OF inv] show ?thesis by (simp add: show_result_def)
    next
      case (Some r)
      with False inv rendered_available [OF Some] show ?thesis
        by (simp add: show_result_def bridge_inv_def metadata_ok_def available_field_def requests_ok_def
            normalized_input_def)
    qed
  qed
qed

lemma bridge_inv_failure: "bridge_inv s \<Longrightarrow> bridge_inv (show_failure cfg seq domain s)"
  by (simp add: show_failure_def bridge_inv_failed)

lemma bridge_inv_settle: "bridge_inv s \<Longrightarrow> bridge_inv (settle_search cfg out seq d s)"
  by (simp add: settle_search_def bridge_inv_result bridge_inv_failure split: outcome.split option.split)

lemma pending_settle: "pending (settle_search cfg out seq d s) = pending s"
  by (simp add: settle_search_def show_result_def show_failure_def search_failed_def split: outcome.split option.split)

lemma metadata_cong:
  "hidden t = hidden s \<Longrightarrow> emitted t = emitted s \<Longrightarrow> input_value t = input_value s \<Longrightarrow> metadata_ok t = metadata_ok s"
  unfolding metadata_ok_def available_field_def normalized_input_def by (simp only:)

lemma requests_drop: "bridge_inv s \<Longrightarrow> bridge_inv (s\<lparr>pending := (pending s)(rid := None)\<rparr>)"
  using metadata_cong [of "s\<lparr>pending := (pending s)(rid := None)\<rparr>" s]
  by (simp add: bridge_inv_def requests_ok_def)

lemma controller_drop:
  "bridge_inv s \<Longrightarrow> pending s rid = None \<Longrightarrow> controller s = Some rid \<Longrightarrow> bridge_inv (s\<lparr>controller := None\<rparr>)"
  using metadata_cong [of "s\<lparr>controller := None\<rparr>" s]
  by (fastforce simp: bridge_inv_def requests_ok_def)

lemma bridge_inv_outcome: "bridge_inv s \<Longrightarrow> bridge_inv (on_outcome cfg rid out s)"
proof (cases "pending s rid")
  case (Some x)
  obtain seq d where x: "x = (seq, d)" by fastforce
  assume "bridge_inv s"
  let ?t = "settle_search cfg out seq d (s\<lparr>pending := (pending s)(rid := None)\<rparr>)"
  have t: "bridge_inv ?t" using \<open>bridge_inv s\<close> by (intro bridge_inv_settle requests_drop)
  have "pending ?t rid = None" by (simp add: pending_settle)
  from controller_drop [OF t this] t show ?thesis
    unfolding on_outcome_def Let_def using Some x by simp
qed (simp add: on_outcome_def)

lemma bridge_inv_timer: "bridge_inv (s\<lparr>timer_set := b\<rparr>) = bridge_inv s"
  using metadata_cong [of "s\<lparr>timer_set := b\<rparr>" s] by (simp add: bridge_inv_def requests_ok_def)

lemma bridge_inv_step: "bridge_inv s \<Longrightarrow> bridge_ok s e \<Longrightarrow> bridge_inv (bridge_step cfg s e)"
  by (cases e) (simp_all add: bridge_inv_input search_now_def bridge_inv_search bridge_inv_timer bridge_inv_outcome)

interpretation bridge: invariant_machine "bridge_step cfg" bridge_ok bridge_inv for cfg
  by unfold_locales (rule bridge_inv_step)

lemma bridge_inv_init: "map_of fs F_AVAILABLE = None \<Longrightarrow> bridge_inv (form_init v c k fs)"
  by (simp add: bridge_inv_def metadata_ok_def requests_ok_def available_field_def form_init_def)

section \<open>Properties\<close>

text \<open>
  C34. The form never carries metadata of another domain: whenever the hidden availability field is
  not empty, the last event the form emitted is the result for exactly the text now in the search
  box, trimmed and in lower case, and the field is 1 or 0 as that result said. At any time at most
  one request has not been aborted; it belongs to the current sequence number.
\<close>

theorem metadata_matches_input:
  assumes "run_ok (bridge_step cfg) bridge_ok (form_init v c k fs) es" "map_of fs F_AVAILABLE = None"
    and "s = run_events (bridge_step cfg) (form_init v c k fs) es"
  shows "(available_field s \<noteq> [] \<longrightarrow> (\<exists>b. last (emitted s) = DomainResult (normalized_input s) b
      \<and> available_field s = (if b then ''1'' else ''0'')))
    \<and> (\<forall>rid seq d. pending s rid = Some (seq, d) \<and> rid \<notin> aborted s \<longrightarrow>
         controller s = Some rid \<and> seq = requestSequence s)"
proof -
  have "bridge_inv s" unfolding assms(3) by (rule bridge.run_inv [OF bridge_inv_init [OF assms(2)] assms(1)])
  then show ?thesis by (auto simp: bridge_inv_def metadata_ok_def requests_ok_def)
qed

definition sample_config :: bridge_config where
  "sample_config = \<lparr>apiUrl = ''https://a'', appUrl = ''https://b'', defaultCurrency = ''EUR'', str_available = ''yes'',
     str_unavailable = ''no'', str_continue = ''go'', str_checking = ''wait'', str_error = ''err'',
     valid_base = (\<lambda>_. True), number_text = (\<lambda>_. ''?'')\<rparr>"

theorem metadata_matches_input_witness:
  "\<exists>b. last (emitted (run_events (bridge_step sample_config) (form_init '' X.io'' [] [] []) [Blur,
     Outcome 0 (Fetched True (Some (JObj [(''availability'', JObj [(''available'', JBool True)])])))]))
     = DomainResult ''x.io'' b"
proof -
  let ?es = "[Blur, Outcome 0 (Fetched True (Some (JObj [(''availability'', JObj [(''available'', JBool True)])])))]"
  let ?s = "run_events (bridge_step sample_config) (form_init '' X.io'' [] [] []) ?es"
  have d: "js_lower (js_trim '' X.io'') = ''x.io''" "includes_str ''.'' ''x.io''" by code_simp+
  have ok: "run_ok (bridge_step sample_config) bridge_ok (form_init '' X.io'' [] [] []) ?es"
    by (simp add: search_now_def searchDomain_def form_init_def normalized_input_def d Let_def abort_current_def sample_config_def)
  have n: "normalized_input ?s = ''x.io'' \<and> available_field ?s \<noteq> []"
    by (simp add: search_now_def searchDomain_def form_init_def normalized_input_def d Let_def abort_current_def
        sample_config_def on_outcome_def settle_search_def show_result_def renderDomainResult_def or_empty_def available_field_def
        ensureHidden_def update_conv)
  then show ?thesis using metadata_matches_input [OF ok _ refl] by auto
qed

text \<open>
  An answer that is out of date changes nothing the visitor can see: if its sequence number is
  no longer the current one, the result list, the hidden fields and the emitted events stay as they
  are, however the request ended.
\<close>

theorem stale_answer_ignored:
  assumes "pending s rid = Some (seq, d)" "seq \<noteq> requestSequence s"
  shows "results (on_outcome cfg rid out s) = results s \<and> hidden (on_outcome cfg rid out s) = hidden s
    \<and> emitted (on_outcome cfg rid out s) = emitted s"
proof -
  have "on_outcome cfg rid out s = (let t = s\<lparr>pending := (pending s)(rid := None)\<rparr> in
      if controller t = Some rid then t\<lparr>controller := None\<rparr> else t)"
    using assms by (simp add: on_outcome_def Let_def settle_search_def show_result_def show_failure_def
        split: outcome.split option.split)
  then show ?thesis by (simp add: Let_def)
qed

theorem stale_answer_ignored_witness:
  "results (on_outcome sample_config 0 NetworkError
     (on_input ''y.io'' (search_now sample_config (form_init ''x.io'' [] [] [])))) = []"
proof -
  let ?s = "on_input ''y.io'' (search_now sample_config (form_init ''x.io'' [] [] []))"
  have d: "js_lower (js_trim ''x.io'') = ''x.io''" "includes_str ''.'' ''x.io''" by (simp_all add: js_defs)
  have p: "pending ?s 0 = Some (1, ''x.io'')" "(1::nat) \<noteq> requestSequence ?s" "results ?s = []"
    by (simp_all add: on_input_def search_now_def searchDomain_def form_init_def normalized_input_def d Let_def
        abort_current_def sample_config_def)
  from stale_answer_ignored [OF p(1,2)] p(3) show ?thesis by simp
qed

end
