(* ===== verification/Bridge_Page.thy ===== *)
theory Bridge_Page imports Domain_Bridge begin

text \<open>
  How the domain search finds its forms (\<^verbatim>\<open>wordpress-bridge/assets/oneploy-bridge.js\<close>, \<open>initializeDomainForms\<close>
  and \<open>initialize\<close>): forms of the page's own markup and forms an administrator names with selectors, looked
  up again whenever the document changes. What the selectors find is given with each call; \<open>None\<close> is a
  selector that is not valid, whose query throws.
\<close>

section \<open>Definitions\<close>

record form_found =
  found_form :: nat
  found_input :: bool
  found_results :: bool
  is_widget :: bool

record form_binder =
  binder_form :: "nat option option"
  binder_currency :: string
  binder_checkout :: string
  binder_input :: "bool option"
  binder_results :: "bool option"

record found =
  own_forms :: "form_found list"
  binders :: "form_binder list"

record bridge_page =
  page_forms :: "nat \<Rightarrow> page_form"
  currencies :: "nat \<Rightarrow> string"
  checkouts :: "nat \<Rightarrow> string"
  observing :: bool

definition bind_form :: "nat \<Rightarrow> bool \<Rightarrow> bool \<Rightarrow> bool \<Rightarrow> bridge_page \<Rightarrow> bridge_page" where
  "bind_form n input_found results_found preventSubmit pg =
     pg\<lparr>page_forms := (page_forms pg)(n :=
        bindDomainForm preventSubmit ((page_forms pg n)\<lparr>form_input := input_found, form_results := results_found\<rparr>))\<rparr>"

definition bind_own :: "form_found \<Rightarrow> bridge_page \<Rightarrow> bridge_page" where
  "bind_own f = bind_form (found_form f) (found_input f) (found_results f) (is_widget f)"

definition bind_binder :: "bridge_config \<Rightarrow> form_binder \<Rightarrow> bridge_page \<Rightarrow> bridge_page" where
  "bind_binder cfg b pg =
     (case binder_form b of
        Some (Some n) \<Rightarrow>
          let pg1 = pg\<lparr>currencies := (currencies pg)(n := or_str (binder_currency b) (or_str (defaultCurrency cfg) ''USD'')),
                       checkouts := (checkouts pg)(n := or_str (binder_checkout b) ''no'')\<rparr>
          in (case (binder_input b, binder_results b) of
                (Some i, Some r) \<Rightarrow> bind_form n i r False pg1
              | _ \<Rightarrow> pg1)
      | _ \<Rightarrow> pg)"

definition initializeDomainForms :: "bridge_config \<Rightarrow> found \<Rightarrow> bridge_page \<Rightarrow> bridge_page" where
  "initializeDomainForms cfg q pg = fold (bind_binder cfg) (binders q) (fold bind_own (own_forms q) pg)"

definition bridge_initialize :: "bridge_config \<Rightarrow> bool \<Rightarrow> found \<Rightarrow> bridge_page \<Rightarrow> bridge_page" where
  "bridge_initialize cfg has_root q pg =
     (let pg1 = initializeDomainForms cfg q pg in if \<not> observing pg1 \<and> has_root then pg1\<lparr>observing := True\<rparr> else pg1)"

section \<open>Forms are bound once\<close>

text \<open>
  A form that is bound has the listeners of one binding; a form that is not has none.
\<close>

definition bound_once :: "page_form \<Rightarrow> bool" where
  "bound_once f \<longleftrightarrow> listeners f = (if oneployBound f then (if submit_prevented f then 3 else 2) else 0)"

definition forms_ok :: "bridge_page \<Rightarrow> bool" where
  "forms_ok pg \<longleftrightarrow> (\<forall>n. bound_once (page_forms pg n))"

lemma bindDomainForm_once: "bound_once f \<Longrightarrow> bound_once (bindDomainForm p (f\<lparr>form_input := i, form_results := r\<rparr>))"
  by (simp add: bindDomainForm_def bound_once_def)

lemma bind_form_ok: "forms_ok pg \<Longrightarrow> forms_ok (bind_form n i r p pg)"
  by (simp add: forms_ok_def bind_form_def bindDomainForm_once)

lemma bind_binder_ok: "forms_ok pg \<Longrightarrow> forms_ok (bind_binder cfg b pg)"
  using bind_form_ok [of "pg\<lparr>currencies := c, checkouts := k\<rparr>" for c k]
  by (auto simp: bind_binder_def Let_def forms_ok_def split: option.splits)

lemma fold_ok: "(\<And>x s. P s \<Longrightarrow> P (f x s)) \<Longrightarrow> P s \<Longrightarrow> P (fold f xs s)"
  by (induction xs arbitrary: s) auto

lemma initialize_ok: "forms_ok pg \<Longrightarrow> forms_ok (initializeDomainForms cfg q pg)"
proof -
  assume "forms_ok pg"
  then have "forms_ok (fold bind_own (own_forms q) pg)"
    by (rule fold_ok [where P = forms_ok, rotated]) (simp add: bind_own_def bind_form_ok)
  then show ?thesis unfolding initializeDomainForms_def
    by (rule fold_ok [where P = forms_ok, rotated]) (rule bind_binder_ok)
qed

lemma mutations_ok: "forms_ok pg \<Longrightarrow> forms_ok (fold (initializeDomainForms cfg) qs pg)"
  by (rule fold_ok [where P = forms_ok]) (rule initialize_ok)

text \<open>A form keeps its first binding: what a later change of the document finds does not matter for it.\<close>

lemma bind_form_bound:
  "oneployBound (page_forms pg m) \<Longrightarrow>
     oneployBound (page_forms (bind_form n i r p pg) m) \<and> listeners (page_forms (bind_form n i r p pg) m) = listeners (page_forms pg m)"
  by (auto simp: bind_form_def bindDomainForm_def)

text \<open>A binding whose selectors are not valid leaves every form as it is.\<close>

lemma invalid_binder: "binder_form b = None \<Longrightarrow> bind_binder cfg b pg = pg"
  by (simp add: bind_binder_def)

end
