(* ===== verification/Build_Config.thy ===== *)
theory Build_Config imports Js_Values begin

text \<open>
  The configuration of the development server (\<^verbatim>\<open>vite.config.js\<close>). The environment of the process comes
  before the one \<open>loadEnv\<close> reads; \<open>None\<close> is a variable that is not set. The text of a number that is not
  integral is a parameter.
\<close>

section \<open>Definitions\<close>

type_synonym env = "string \<Rightarrow> string option"

definition first_set :: "string option list \<Rightarrow> string \<Rightarrow> string" where
  "first_set vs d = (case filter truthy_str vs of Some v # _ \<Rightarrow> v | _ \<Rightarrow> d)"

definition number_of :: "(rat \<Rightarrow> string) \<Rightarrow> jsnum \<Rightarrow> string" where
  "number_of number_text n =
     (case n of
        Fin r \<Rightarrow> if of_int \<lfloor>r\<rfloor> = r then show_int \<lfloor>r\<rfloor> else number_text r
      | PInf \<Rightarrow> ''Infinity'' | NInf \<Rightarrow> ''-Infinity'' | NaN \<Rightarrow> ''NaN'')"

record vite_config =
  watch_ignored :: "string list"
  vite_host :: string
  vite_port :: jsnum
  strictPort :: bool
  allowedHosts :: bool
  cors :: bool
  origin :: string
  hmr_host :: string
  hmr_port :: jsnum
  hmr_protocol :: string
  inputs :: "string list"
  refresh :: bool

definition viteHost :: "env \<Rightarrow> env \<Rightarrow> string" where
  "viteHost p e = js_trim (first_set [p ''VITE_HOST'', e ''VITE_HOST''] ''localhost'')"

definition viteHmrHost :: "env \<Rightarrow> env \<Rightarrow> string" where
  "viteHmrHost p e = js_trim (first_set [p ''VITE_HMR_HOST'', e ''VITE_HMR_HOST''] (viteHost p e))"

definition vitePort :: "env \<Rightarrow> env \<Rightarrow> jsnum" where
  "vitePort p e = string_to_number (first_set [p ''VITE_PORT'', e ''VITE_PORT''] ''5173'')"

definition viteProtocol :: "env \<Rightarrow> env \<Rightarrow> string" where
  "viteProtocol p e = js_trim (first_set [p ''VITE_PROTOCOL'', e ''VITE_PROTOCOL''] ''http'')"

definition config_of :: "(rat \<Rightarrow> string) \<Rightarrow> env \<Rightarrow> env \<Rightarrow> vite_config" where
  "config_of number_text p e =
     \<lparr>watch_ignored = [''**/dev_*_data/**'', ''**/storage/**''], vite_host = ''0.0.0.0'', vite_port = vitePort p e,
      strictPort = True, allowedHosts = True, cors = True,
      origin = viteProtocol p e @ ''://'' @ viteHost p e @ '':'' @ number_of number_text (vitePort p e),
      hmr_host = viteHmrHost p e, hmr_port = vitePort p e,
      hmr_protocol = (if viteProtocol p e = ''https'' then ''wss'' else ''ws''),
      inputs = [''resources/css/app.css'', ''resources/js/app.js''], refresh = True\<rparr>"

section \<open>Properties\<close>

lemma process_first: "truthy_str (p k) \<Longrightarrow> first_set [p k, v] d = the (p k)"
  by (auto simp: first_set_def truthy_str_def split: option.splits)

lemma default_last: "\<not> truthy_str u \<Longrightarrow> \<not> truthy_str v \<Longrightarrow> first_set [u, v] d = d"
  by (simp add: first_set_def)

text \<open>The live-reload client of a page served from another device uses that device's name, unless told otherwise.\<close>

lemma hmr_follows_host:
  assumes "truthy_str (p ''VITE_HOST'')" "\<not> truthy_str (p ''VITE_HMR_HOST'')" "\<not> truthy_str (e ''VITE_HMR_HOST'')"
  shows "hmr_host (config_of f p e) = js_trim (js_trim (the (p ''VITE_HOST'')))"
  using assms by (simp add: config_of_def viteHmrHost_def default_last viteHost_def process_first)

end
