(* ===== verification/Wgsl_Language.thy ===== *)
theory Wgsl_Language imports JS_Prelude begin

text \<open>
  The WGSL language of the code editor (\<^verbatim>\<open>public/js/monaco-editor-0.52.2/min/vs/basic-languages/wgsl/wgsl.js\<close>)
  and the loop of the editor's Monarch tokenizer that runs it (\<open>_myTokenize\<close> in \<^verbatim>\<open>editor.main.js\<close>, for the
  features this language uses). A line is split by the first rule of the current state whose expression
  matches; a state is pushed or popped by the rule's action. Expressions are matched with backtracking, in
  the order JavaScript tries the alternatives. Characters are code units below 256.
\<close>

section \<open>Word tables\<close>

abbreviation (input) TAB :: char where "TAB \<equiv> CHR 0x09"

text \<open>The function \<open>r\<close>: split at runs of tabs, line ends and blanks, without empty parts.\<close>

definition is_sep :: "char \<Rightarrow> bool" where
  "is_sep c \<longleftrightarrow> c = TAB \<or> c = CR \<or> c = LF \<or> c = SP"

fun qw_from :: "string \<Rightarrow> string \<Rightarrow> string list" where
  "qw_from w [] = (if w = [] then [] else [w])"
| "qw_from w (c # cs) = (if is_sep c then (if w = [] then qw_from [] cs else w # qw_from [] cs) else qw_from (w @ [c]) cs)"

definition qw :: "string \<Rightarrow> string list" where
  "qw text = qw_from [] text"

text \<open>
  A template literal: each line is indented with the same tabs and blanks, and the closing quote with
  those of the last two arguments.
\<close>

definition template :: "nat \<Rightarrow> nat \<Rightarrow> string list \<Rightarrow> nat \<Rightarrow> nat \<Rightarrow> string" where
  "template tabs blanks ls tabs' blanks' =
     concat (map (\<lambda>l. LF # replicate tabs TAB @ replicate blanks SP @ l) ls) @ LF # replicate tabs' TAB @ replicate blanks' SP"

definition wgsl_atoms :: "string list" where
  "wgsl_atoms = qw ''true false''"

definition wgsl_keywords :: "string list" where
  "wgsl_keywords = qw (template 3 2
     [''alias'', ''break'', ''case'', ''const'', ''const_assert'', ''continue'', ''continuing'', ''default'',
      ''diagnostic'', ''discard'', ''else'', ''enable'', ''fn'', ''for'', ''if'', ''let'', ''loop'',
      ''override'', ''requires'', ''return'', ''struct'', ''switch'', ''var'', ''while'']
     3 2)"

definition wgsl_reserved :: "string list" where
  "wgsl_reserved = qw (template 3 2
     [''NULL'', ''Self'', ''abstract'', ''active'', ''alignas'', ''alignof'', ''as'', ''asm'',
      ''asm_fragment'', ''async'', ''attribute'', ''auto'', ''await'', ''become'', ''binding_array'', ''cast'',
      ''catch'', ''class'', ''co_await'', ''co_return'', ''co_yield'', ''coherent'', ''column_major'',
      ''common'', ''compile'', ''compile_fragment'', ''concept'', ''const_cast'', ''consteval'', ''constexpr'',
      ''constinit'', ''crate'', ''debugger'', ''decltype'', ''delete'', ''demote'', ''demote_to_helper'',
      ''do'', ''dynamic_cast'', ''enum'', ''explicit'', ''export'', ''extends'', ''extern'', ''external'',
      ''fallthrough'', ''filter'', ''final'', ''finally'', ''friend'', ''from'', ''fxgroup'', ''get'',
      ''goto'', ''groupshared'', ''highp'', ''impl'', ''implements'', ''import'', ''inline'', ''instanceof'',
      ''interface'', ''layout'', ''lowp'', ''macro'', ''macro_rules'', ''match'', ''mediump'', ''meta'',
      ''mod'', ''module'', ''move'', ''mut'', ''mutable'', ''namespace'', ''new'', ''nil'', ''noexcept'',
      ''noinline'', ''nointerpolation'', ''noperspective'', ''null'', ''nullptr'', ''of'', ''operator'',
      ''package'', ''packoffset'', ''partition'', ''pass'', ''patch'', ''pixelfragment'', ''precise'',
      ''precision'', ''premerge'', ''priv'', ''protected'', ''pub'', ''public'', ''readonly'', ''ref'',
      ''regardless'', ''register'', ''reinterpret_cast'', ''require'', ''resource'', ''restrict'', ''self'',
      ''set'', ''shared'', ''sizeof'', ''smooth'', ''snorm'', ''static'', ''static_assert'', ''static_cast'',
      ''std'', ''subroutine'', ''super'', ''target'', ''template'', ''this'', ''thread_local'', ''throw'',
      ''trait'', ''try'', ''type'', ''typedef'', ''typeid'', ''typename'', ''typeof'', ''union'', ''unless'',
      ''unorm'', ''unsafe'', ''unsized'', ''use'', ''using'', ''varying'', ''virtual'', ''volatile'', ''wgsl'',
      ''where'', ''with'', ''writeonly'', ''yield'']
     3 2)"

definition wgsl_predeclared_enums :: "string list" where
  "wgsl_predeclared_enums = qw (template 2 0
     [''read write read_write'', ''function private workgroup uniform storage'', ''perspective linear flat'',
      ''center centroid sample'', ''vertex_index instance_index position front_facing frag_depth'',
      replicate 1 TAB @ ''local_invocation_id local_invocation_index'',
      replicate 1 TAB @ ''global_invocation_id workgroup_id num_workgroups'',
      replicate 1 TAB @ ''sample_index sample_mask'', ''rgba8unorm'', ''rgba8snorm'', ''rgba8uint'',
      ''rgba8sint'', ''rgba16uint'', ''rgba16sint'', ''rgba16float'', ''r32uint'', ''r32sint'', ''r32float'',
      ''rg32uint'', ''rg32sint'', ''rg32float'', ''rgba32uint'', ''rgba32sint'', ''rgba32float'',
      ''bgra8unorm'']
     0 0)"

definition wgsl_predeclared_types :: "string list" where
  "wgsl_predeclared_types = qw (template 2 0
     [''bool'', ''f16'', ''f32'', ''i32'', ''sampler sampler_comparison'', ''texture_depth_2d'',
      ''texture_depth_2d_array'', ''texture_depth_cube'', ''texture_depth_cube_array'',
      ''texture_depth_multisampled_2d'', ''texture_external'', ''texture_external'', ''u32'']
     2 0)"

definition wgsl_predeclared_type_generators :: "string list" where
  "wgsl_predeclared_type_generators = qw (template 2 0
     [''array'', ''atomic'', ''mat2x2'', ''mat2x3'', ''mat2x4'', ''mat3x2'', ''mat3x3'', ''mat3x4'',
      ''mat4x2'', ''mat4x3'', ''mat4x4'', ''ptr'', ''texture_1d'', ''texture_2d'', ''texture_2d_array'',
      ''texture_3d'', ''texture_cube'', ''texture_cube_array'', ''texture_multisampled_2d'',
      ''texture_storage_1d'', ''texture_storage_2d'', ''texture_storage_2d_array'', ''texture_storage_3d'',
      ''vec2'', ''vec3'', ''vec4'']
     2 0)"

definition wgsl_predeclared_type_aliases :: "string list" where
  "wgsl_predeclared_type_aliases = qw (template 2 0
     [''vec2i vec3i vec4i'', ''vec2u vec3u vec4u'', ''vec2f vec3f vec4f'', ''vec2h vec3h vec4h'',
      ''mat2x2f mat2x3f mat2x4f'', ''mat3x2f mat3x3f mat3x4f'', ''mat4x2f mat4x3f mat4x4f'',
      ''mat2x2h mat2x3h mat2x4h'', ''mat3x2h mat3x3h mat3x4h'', ''mat4x2h mat4x3h mat4x4h'']
     2 0)"

definition wgsl_predeclared_intrinsics :: "string list" where
  "wgsl_predeclared_intrinsics = qw (template 0 2
     [''bitcast all any select arrayLength abs acos acosh asin asinh atan atanh atan2'',
      ''ceil clamp cos cosh countLeadingZeros countOneBits countTrailingZeros cross'',
      ''degrees determinant distance dot exp exp2 extractBits faceForward firstLeadingBit'',
      ''firstTrailingBit floor fma fract frexp inverseBits inverseSqrt ldexp length'',
      ''log log2 max min mix modf normalize pow quantizeToF16 radians reflect refract'',
      ''reverseBits round saturate sign sin sinh smoothstep sqrt step tan tanh transpose'',
      ''trunc dpdx dpdxCoarse dpdxFine dpdy dpdyCoarse dpdyFine fwidth fwidthCoarse fwidthFine'',
      ''textureDimensions textureGather textureGatherCompare textureLoad textureNumLayers'',
      ''textureNumLevels textureNumSamples textureSample textureSampleBias textureSampleCompare'',
      ''textureSampleCompareLevel textureSampleGrad textureSampleLevel textureSampleBaseClampToEdge'',
      ''textureStore atomicLoad atomicStore atomicAdd atomicSub atomicMax atomicMin'',
      ''atomicAnd atomicOr atomicXor atomicExchange atomicCompareExchangeWeak pack4x8snorm'',
      ''pack4x8unorm pack2x16snorm pack2x16unorm pack2x16float unpack4x8snorm unpack4x8unorm'',
      ''unpack2x16snorm unpack2x16unorm unpack2x16float storageBarrier workgroupBarrier'',
      ''workgroupUniformLoad'']
     0 0)"

definition wgsl_operators :: "string list" where
  "wgsl_operators = qw (template 5 1
     [''&'', ''&&'', ''->'', ''/'', ''='', ''=='', ''!='', ''>'', ''>='', ''<'', ''<='', ''%'', ''-'', ''--'',
      ''+'', ''++'', ''|'', ''||'', ''*'', ''<<'', ''>>'', ''+='', ''-='', ''*='', ''/='', ''%='', ''&='',
      ''|='', ''^='', ''>>='', ''<<='']
     5 1)"

text \<open>The words of a template are the words of its lines.\<close>

lemma qw_sep: "list_all is_sep p \<Longrightarrow> qw_from [] (p @ r) = qw_from [] r"
  by (induction p) auto

lemma qw_from_line: "is_sep c \<Longrightarrow> qw_from w (l @ c # r) = qw_from w l @ qw_from [] r"
  by (induction w l rule: qw_from.induct) auto

lemma sep_chars [simp]: "is_sep TAB" "is_sep LF" "is_sep SP"
  by (simp_all add: is_sep_def)

lemma indent_sep: "list_all is_sep (replicate m TAB @ replicate n SP)"
  by (auto simp: list_all_iff)

lemma qw_indented:
  "qw_from [] (replicate m TAB @ replicate n SP @ l @ LF # r) = qw l @ qw_from [] r"
  using qw_sep [OF indent_sep, of m n "l @ LF # r"] qw_from_line [of LF "[]" l r] by (simp add: qw_def)

lemma qw_lines:
  "\<exists>r'. concat (map (\<lambda>l. LF # replicate m TAB @ replicate n SP @ l) ls) @ LF # r = LF # r'
     \<and> qw_from [] r' = concat (map qw ls) @ qw_from [] r"
proof (induction ls)
  case (Cons l ls)
  then obtain r' where "concat (map (\<lambda>l. LF # replicate m TAB @ replicate n SP @ l) ls) @ LF # r = LF # r'"
    "qw_from [] r' = concat (map qw ls) @ qw_from [] r" by blast
  then show ?case using qw_indented [of m n l r'] by auto
qed simp

lemma qw_template: "qw (template m n ls m' n') = concat (map qw ls)"
proof -
  obtain r' where r: "template m n ls m' n' = LF # r'"
    "qw_from [] r' = concat (map qw ls) @ qw_from [] (replicate m' TAB @ replicate n' SP)"
    using qw_lines [of m n ls "replicate m' TAB @ replicate n' SP"] by (auto simp: template_def)
  have "qw_from [] (replicate m' TAB @ replicate n' SP) = []"
    using qw_sep [OF indent_sep, of m' n' "[]"] by simp
  with r show ?thesis by (simp add: qw_def)
qed

lemma qw_word: "list_all (\<lambda>c. \<not> is_sep c) w \<Longrightarrow> w \<noteq> [] \<Longrightarrow> qw w = [w]"
proof -
  have "list_all (\<lambda>c. \<not> is_sep c) w \<Longrightarrow> qw_from u w = (if u @ w = [] then [] else [u @ w])" for u
    by (induction w arbitrary: u) auto
  then show "list_all (\<lambda>c. \<not> is_sep c) w \<Longrightarrow> w \<noteq> [] \<Longrightarrow> qw w = [w]" by (simp add: qw_def)
qed

lemma qw_words: "list_all (\<lambda>w. w \<noteq> [] \<and> list_all (\<lambda>c. \<not> is_sep c) w) ls \<Longrightarrow> qw (template m n ls m' n') = ls"
  unfolding qw_template by (induction ls) (simp_all add: qw_word)

section \<open>Expressions\<close>

datatype rx =
    Ch "char \<Rightarrow> bool"
  | Many "char \<Rightarrow> bool"
  | Seq rx rx
  | Alt rx rx
  | Maybe rx
  | AtEnd

fun many_rests :: "(char \<Rightarrow> bool) \<Rightarrow> string \<Rightarrow> string list" where
  "many_rests P [] = [[]]"
| "many_rests P (c # cs) = (if P c then many_rests P cs @ [c # cs] else [c # cs])"

text \<open>What can be left after a match, in the order in which JavaScript tries: greedy first.\<close>

fun rests :: "rx \<Rightarrow> string \<Rightarrow> string list" where
  "rests (Ch P) s = (case s of [] \<Rightarrow> [] | c # cs \<Rightarrow> if P c then [cs] else [])"
| "rests (Many P) s = many_rests P s"
| "rests (Seq a b) s = concat (map (rests b) (rests a s))"
| "rests (Alt a b) s = rests a s @ rests b s"
| "rests (Maybe a) s = rests a s @ [s]"
| "rests AtEnd s = (if s = [] then [s] else [])"

definition rx_match :: "rx \<Rightarrow> string \<Rightarrow> (string \<times> string) option" where
  "rx_match r s = (case rests r s of [] \<Rightarrow> None | t # _ \<Rightarrow> Some (take (length s - length t) s, t))"

fun lit :: "string \<Rightarrow> rx" where
  "lit [] = Many (\<lambda>_. False)"
| "lit [c] = Ch (\<lambda>d. d = c)"
| "lit (c # d # cs) = Seq (Ch (\<lambda>e. e = c)) (lit (d # cs))"

definition some_of :: "(char \<Rightarrow> bool) \<Rightarrow> rx" where
  "some_of P = Seq (Ch P) (Many P)"

definition one_of :: "string \<Rightarrow> rx" where
  "one_of cs = Ch (\<lambda>c. c \<in> set cs)"

fun seq :: "rx list \<Rightarrow> rx" where
  "seq [] = Many (\<lambda>_. False)"
| "seq [r] = r"
| "seq (r # q # rs) = Seq r (seq (q # rs))"

text \<open>\<open>\p{XID_Start}\<close> and \<open>\p{XID_Continue}\<close> below 256.\<close>

definition xid_start :: "char \<Rightarrow> bool" where
  "xid_start c \<longleftrightarrow> is_upper c \<or> is_lower c \<or> code c \<in> {170, 181, 186} \<or> 192 \<le> code c \<and> code c \<noteq> 215 \<and> code c \<noteq> 247"

definition xid_continue :: "char \<Rightarrow> bool" where
  "xid_continue c \<longleftrightarrow> xid_start c \<or> is_digit c \<or> c = CHR ''_'' \<or> code c = 183"

definition is_word :: "char \<Rightarrow> bool" where
  "is_word c \<longleftrightarrow> is_alnum c \<or> c = CHR ''_''"

definition is_hexd :: "char \<Rightarrow> bool" where
  "is_hexd c \<longleftrightarrow> is_digit c \<or> c \<in> set ''abcdefABCDEF''"

definition directive_rx :: rx where
  "directive_rx = Alt (lit ''enable'') (Alt (lit ''requires'') (lit ''diagnostic''))"

definition ident_rx :: rx where
  "ident_rx = Seq (Ch (\<lambda>c. c = CHR ''_'' \<or> xid_start c)) (Many xid_continue)"

definition symbols_rx :: rx where
  "symbols_rx = some_of (\<lambda>c. c \<in> set ''!%&*+-./:;<=>^|_~,'')"

section \<open>The language\<close>

datatype lex_state = Root | BlockComment | Attribute | Directive

datatype next_state = Stay | Push | Pop | Goto lex_state

record rule =
  rule_rx :: rx
  rule_class :: "string \<Rightarrow> string option"
  rule_next :: next_state

definition rule_of :: "rx \<Rightarrow> string \<Rightarrow> next_state \<Rightarrow> rule" where
  "rule_of r c n = \<lparr>rule_rx = r, rule_class = (\<lambda>_. Some (c @ ''.wgsl'')), rule_next = n\<rparr>"

text \<open>The brackets Monarch knows when a language names none.\<close>

definition bracket_class :: "string \<Rightarrow> string option" where
  "bracket_class x =
     (if x \<in> {''{'', ''}''} then Some ''delimiter.curly.wgsl'' else if x \<in> {''['', '']''} then Some ''delimiter.square.wgsl''
      else if x \<in> {''('', '')''} then Some ''delimiter.parenthesis.wgsl''
      else if x \<in> {''<'', ''>''} then Some ''delimiter.angle.wgsl'' else None)"

definition PREDEFINED :: string where
  "PREDEFINED = ''variable.predefined''"

definition word_class :: "string \<Rightarrow> string" where
  "word_class x =
     (if x \<in> set wgsl_atoms then PREDEFINED
      else if x \<in> set wgsl_keywords then ''keyword''
      else if x \<in> set wgsl_reserved then ''invalid''
      else if x \<in> set wgsl_predeclared_enums then PREDEFINED
      else if x \<in> set wgsl_predeclared_types then PREDEFINED
      else if x \<in> set wgsl_predeclared_type_generators then PREDEFINED
      else if x \<in> set wgsl_predeclared_type_aliases then PREDEFINED
      else if x \<in> set wgsl_predeclared_intrinsics then PREDEFINED
      else ''identifier'')"

definition symbol_class :: "string \<Rightarrow> string" where
  "symbol_class x = (if x \<in> set wgsl_operators then ''operator'' else ''delimiter'')"

definition commentOrSpace :: "rule list" where
  "commentOrSpace =
     [rule_of (some_of is_ws) ''white'' Stay, rule_of (lit ''/*'') ''comment'' (Goto BlockComment),
      rule_of (seq [lit ''//'', Many (\<lambda>c. \<not> is_line_term c), AtEnd]) ''comment'' Stay]"

definition exponent_rx :: "string \<Rightarrow> rx" where
  "exponent_rx e = seq [one_of e, Maybe (one_of ''+-''), some_of is_digit]"

definition wgsl_numbers :: "rule list" where
  "wgsl_numbers =
     [rule_of (seq [lit ''0'', one_of ''fh'']) ''number.float'' Stay,
      rule_of (seq [Ch (\<lambda>c. is_digit c \<and> c \<noteq> CHR ''0''), Many is_digit, one_of ''fh'']) ''number.float'' Stay,
      rule_of (seq [Many is_digit, lit ''.'', some_of is_digit, Maybe (exponent_rx ''eE''), Maybe (one_of ''fh'')]) ''number.float'' Stay,
      rule_of (seq [some_of is_digit, lit ''.'', Many is_digit, Maybe (exponent_rx ''eE''), Maybe (one_of ''fh'')]) ''number.float'' Stay,
      rule_of (seq [some_of is_digit, exponent_rx ''eE'', Maybe (one_of ''fh'')]) ''number.float'' Stay,
      rule_of (seq [lit ''0'', one_of ''xX'', Many is_hexd, lit ''.'', some_of is_hexd,
         Maybe (Seq (exponent_rx ''pP'') (Maybe (one_of ''fh'')))]) ''number.hex'' Stay,
      rule_of (seq [lit ''0'', one_of ''xX'', some_of is_hexd, lit ''.'', Many is_hexd,
         Maybe (Seq (exponent_rx ''pP'') (Maybe (one_of ''fh'')))]) ''number.hex'' Stay,
      rule_of (seq [lit ''0'', one_of ''xX'', some_of is_hexd, exponent_rx ''pP'', Maybe (one_of ''fh'')]) ''number.hex'' Stay,
      rule_of (seq [lit ''0'', one_of ''xX'', some_of is_hexd, Maybe (one_of ''iu'')]) ''number.hex'' Stay,
      rule_of (seq [Ch (\<lambda>c. is_digit c \<and> c \<noteq> CHR ''0''), Many is_digit, Maybe (one_of ''iu'')]) ''number'' Stay,
      rule_of (seq [lit ''0'', Maybe (one_of ''iu'')]) ''number'' Stay]"

definition ident_rule :: rule where
  "ident_rule = \<lparr>rule_rx = ident_rx, rule_class = (\<lambda>x. Some (word_class x @ ''.wgsl'')), rule_next = Stay\<rparr>"

definition tokenizer :: "lex_state \<Rightarrow> rule list" where
  "tokenizer q =
     (case q of
        Root \<Rightarrow>
          [rule_of directive_rx ''keyword'' (Goto Directive), ident_rule]
          @ commentOrSpace @ wgsl_numbers
          @ [\<lparr>rule_rx = one_of ''{}()[]'', rule_class = bracket_class, rule_next = Stay\<rparr>,
             rule_of (lit ''@'') ''annotation'' (Goto Attribute),
             \<lparr>rule_rx = symbols_rx, rule_class = (\<lambda>x. Some (symbol_class x @ ''.wgsl'')), rule_next = Stay\<rparr>,
             rule_of (Ch (\<lambda>c. \<not> is_line_term c)) ''invalid'' Stay]
      | BlockComment \<Rightarrow>
          [rule_of (some_of (\<lambda>c. c \<noteq> CHR ''/'' \<and> c \<noteq> CHR ''*'')) ''comment'' Stay, rule_of (lit ''/*'') ''comment'' Push,
           rule_of (lit ''*/'') ''comment'' Pop, rule_of (one_of ''/*'') ''comment'' Stay]
      | Attribute \<Rightarrow> commentOrSpace @ [rule_of (some_of is_word) ''annotation'' Pop]
      | Directive \<Rightarrow>
          commentOrSpace
          @ [\<lparr>rule_rx = one_of ''()'', rule_class = bracket_class, rule_next = Stay\<rparr>, rule_of (lit '','') ''delimiter'' Stay,
             rule_of ident_rx ''meta.content'' Stay, rule_of (lit '';'') ''delimiter'' Pop])"

section \<open>The tokenizer\<close>

definition MAX_STACK :: nat where
  "MAX_STACK = 100"

fun first_rule :: "rule list \<Rightarrow> string \<Rightarrow> (rule \<times> string \<times> string) option" where
  "first_rule [] s = None"
| "first_rule (r # rs) s = (case rx_match (rule_rx r) s of None \<Rightarrow> first_rule rs s | Some (x, t) \<Rightarrow> Some (r, x, t))"

definition next_stack :: "next_state \<Rightarrow> lex_state list \<Rightarrow> lex_state list option" where
  "next_stack n st =
     (case n of
        Stay \<Rightarrow> Some st
      | Push \<Rightarrow> if MAX_STACK \<le> length st then None else Some (hd st # st)
      | Pop \<Rightarrow> if length st \<le> 1 then None else Some (tl st)
      | Goto q \<Rightarrow> Some (q # st))"

text \<open>One token: its text, its class, what is left of the line, and the stack; \<open>None\<close> is an exception.\<close>

definition lex_step :: "lex_state list \<Rightarrow> string \<Rightarrow> (string \<times> string \<times> string \<times> lex_state list) option" where
  "lex_step st s =
     (case first_rule (tokenizer (hd st)) s of
        None \<Rightarrow> Some ([hd s], ''invalid.wgsl'', tl s, st)
      | Some (r, x, t) \<Rightarrow>
          (case (next_stack (rule_next r) st, rule_class r x) of
             (Some st', Some c) \<Rightarrow> if x = [] then None else Some (x, c, t, st')
           | _ \<Rightarrow> None))"

function lex_line :: "lex_state list \<Rightarrow> string \<Rightarrow> ((string \<times> string) list \<times> lex_state list) option" where
  "lex_line st s =
     (if s = [] then Some ([], st)
      else (case lex_step st s of
              None \<Rightarrow> None
            | Some (x, c, t, st') \<Rightarrow>
                if length t < length s then map_option (\<lambda>(ts, st''). ((x, c) # ts, st'')) (lex_line st' t) else None))"
  by pat_completeness auto
termination by (relation "measure (length \<circ> snd)") auto

declare lex_line.simps [simp del]

section \<open>Matches\<close>

text \<open>A lower bound for the length of a match; what is left is a suffix.\<close>

fun min_len :: "rx \<Rightarrow> nat" where
  "min_len (Ch P) = 1"
| "min_len (Many P) = 0"
| "min_len (Seq a b) = min_len a + min_len b"
| "min_len (Alt a b) = min (min_len a) (min_len b)"
| "min_len (Maybe a) = 0"
| "min_len AtEnd = 0"

lemma many_rests_suffix: "t \<in> set (many_rests P s) \<Longrightarrow> \<exists>x. s = x @ t"
proof (induction P s rule: many_rests.induct)
  case (2 P c cs)
  then show ?case by (auto split: if_splits)
qed simp

lemma rests_suffix: "t \<in> set (rests r s) \<Longrightarrow> \<exists>x. s = x @ t \<and> min_len r \<le> length x"
proof (induction r arbitrary: s t)
  case (Ch P)
  then show ?case by (cases s) (auto split: if_splits)
next
  case (Many P)
  then show ?case using many_rests_suffix by auto
next
  case (Seq a b)
  then obtain u where u: "u \<in> set (rests a s)" "t \<in> set (rests b u)" by auto
  from Seq.IH(1) [OF u(1)] Seq.IH(2) [OF u(2)] obtain x y
    where "s = x @ u" "min_len a \<le> length x" "u = y @ t" "min_len b \<le> length y" by blast
  then have "s = (x @ y) @ t" "min_len (Seq a b) \<le> length (x @ y)" by simp_all
  then show ?case by blast
next
  case (Alt a b)
  then show ?case by (auto simp: min_le_iff_disj) blast+
next
  case (Maybe a)
  then show ?case by fastforce
qed (simp split: if_splits)

lemma rx_match_split:
  assumes "rx_match r s = Some (x, t)"
  shows "s = x @ t" and "min_len r \<le> length x"
proof -
  from assms have t: "t \<in> set (rests r s)" and x: "x = take (length s - length t) s"
    by (auto simp: rx_match_def split: list.splits)
  from rests_suffix [OF t] obtain y where "s = y @ t" "min_len r \<le> length y" by blast
  with x show "s = x @ t" "min_len r \<le> length x" by simp_all
qed

lemma min_len_seq [simp]: "min_len (seq rs) = sum_list (map min_len rs)"
  by (induction rs rule: seq.induct) simp_all

lemma min_len_lit [simp]: "min_len (lit cs) = length cs"
  by (induction cs rule: lit.induct) simp_all

lemma min_len_parts [simp]:
  "min_len (some_of P) = 1" "min_len (one_of cs) = 1" "min_len ident_rx = 1" "min_len symbols_rx = 1"
  "min_len directive_rx = 6" "min_len (exponent_rx e) = 2"
  by (simp_all add: some_of_def one_of_def ident_rx_def symbols_rx_def directive_rx_def exponent_rx_def)

section \<open>Rules\<close>

text \<open>A rule makes progress and gives every text it matches a class.\<close>

definition rule_ok :: "rule \<Rightarrow> bool" where
  "rule_ok r \<longleftrightarrow> 0 < min_len (rule_rx r) \<and> (\<forall>s x t. rx_match (rule_rx r) s = Some (x, t) \<longrightarrow> rule_class r x \<noteq> None)"

lemma rule_of_ok [simp]: "rule_ok (rule_of r c n) = (0 < min_len r)"
  by (simp add: rule_ok_def rule_of_def)

lemma class_rule_ok [simp]:
  "rule_ok \<lparr>rule_rx = r, rule_class = (\<lambda>x. Some (f x)), rule_next = n\<rparr> = (0 < min_len r)"
  by (simp add: rule_ok_def)

lemma one_of_match: "rx_match (one_of cs) s = Some (x, t) \<Longrightarrow> \<exists>c. x = [c] \<and> c \<in> set cs"
  by (auto simp: rx_match_def one_of_def split: list.splits if_splits)

lemma bracket_rule_ok:
  "set cs \<subseteq> set ''{}()[]'' \<Longrightarrow> rule_ok \<lparr>rule_rx = one_of cs, rule_class = bracket_class, rule_next = n\<rparr>"
  unfolding rule_ok_def by (auto dest!: one_of_match simp: bracket_class_def)

lemma space_rules_ok: "list_all rule_ok commentOrSpace"
  by (simp add: commentOrSpace_def)

lemma number_rules_ok: "list_all rule_ok wgsl_numbers"
  by (simp add: wgsl_numbers_def)

lemma rules_ok: "list_all rule_ok (tokenizer q)"
  using space_rules_ok number_rules_ok bracket_rule_ok [of "''{}()[]''" Stay] bracket_rule_ok [of "''()''" Stay]
  by (cases q) (simp_all add: tokenizer_def ident_rule_def)

lemma first_rule_in: "first_rule rs s = Some (r, x, t) \<Longrightarrow> r \<in> set rs \<and> rx_match (rule_rx r) s = Some (x, t)"
  by (induction rs) (auto split: option.splits)

text \<open>Where a rule can lead: a comment is only pushed inside a comment, and only inner states end.\<close>

definition next_ok :: "lex_state \<Rightarrow> rule \<Rightarrow> bool" where
  "next_ok q r \<longleftrightarrow> (case rule_next r of Stay \<Rightarrow> True | Push \<Rightarrow> q \<noteq> Root | Pop \<Rightarrow> q \<noteq> Root | Goto p \<Rightarrow> p \<noteq> Root)"

lemma next_rules_ok: "list_all (next_ok q) (tokenizer q)"
  by (cases q) (simp_all add: tokenizer_def commentOrSpace_def wgsl_numbers_def ident_rule_def rule_of_def next_ok_def)

definition stack_ok :: "lex_state list \<Rightarrow> bool" where
  "stack_ok st \<longleftrightarrow> st \<noteq> [] \<and> last st = Root \<and> Root \<notin> set (butlast st)"

lemma inner_stack: "stack_ok st \<Longrightarrow> hd st \<noteq> Root \<Longrightarrow> \<exists>q st'. st = q # st' \<and> q \<noteq> Root \<and> stack_ok st'"
  by (cases st) (auto simp: stack_ok_def split: if_splits)

lemma next_stack_ok:
  assumes "stack_ok st" "next_ok (hd st) r" "length st < MAX_STACK"
  shows "\<exists>st'. next_stack (rule_next r) st = Some st' \<and> stack_ok st' \<and> length st' \<le> Suc (length st)"
proof (cases "rule_next r")
  case Push
  with assms show ?thesis by (cases st) (auto simp: next_stack_def next_ok_def stack_ok_def)
next
  case Pop
  with assms inner_stack [of st] obtain q st' where "st = q # st'" "stack_ok st'" by (auto simp: next_ok_def)
  with Pop show ?thesis by (cases st') (auto simp: next_stack_def stack_ok_def)
next
  case (Goto p)
  with assms show ?thesis by (auto simp: next_stack_def next_ok_def stack_ok_def)
qed (use assms in \<open>auto simp: next_stack_def\<close>)

section \<open>Results\<close>

lemma lex_step_total:
  assumes "stack_ok st" "s \<noteq> []" "length st < MAX_STACK"
  shows "\<exists>x c t st'. lex_step st s = Some (x, c, t, st') \<and> s = x @ t \<and> x \<noteq> [] \<and> stack_ok st' \<and> length st' \<le> Suc (length st)"
proof (cases "first_rule (tokenizer (hd st)) s")
  case None
  with assms show ?thesis by (cases s) (auto simp: lex_step_def)
next
  case (Some rxt)
  obtain r x t where rxt: "rxt = (r, x, t)" by (cases rxt)
  have r: "r \<in> set (tokenizer (hd st))" and m: "rx_match (rule_rx r) s = Some (x, t)"
    using first_rule_in [of "tokenizer (hd st)" s r x t] Some rxt by simp_all
  have ok: "rule_ok r" "next_ok (hd st) r"
    using rules_ok [of "hd st"] next_rules_ok [of "hd st"] r by (simp_all add: list_all_iff)
  obtain st' where st': "next_stack (rule_next r) st = Some st'" "stack_ok st'" "length st' \<le> Suc (length st)"
    using next_stack_ok [OF assms(1) ok(2) assms(3)] by blast
  obtain c where c: "rule_class r x = Some c" using ok(1) m by (auto simp: rule_ok_def)
  have "s = x @ t" "x \<noteq> []" using rx_match_split [OF m] ok(1) by (auto simp: rule_ok_def)
  with Some rxt st' c show ?thesis by (auto simp: lex_step_def)
qed

lemma lex_line_step:
  "s \<noteq> [] \<Longrightarrow> lex_step st s = Some (x, c, t, st') \<Longrightarrow> length t < length s \<Longrightarrow>
     lex_line st s = map_option (\<lambda>(ts, st''). ((x, c) # ts, st'')) (lex_line st' t)"
  by (simp add: lex_line.simps [of st s])

lemma many_rests_greedy:
  "list_all P cs \<Longrightarrow> r = [] \<or> \<not> P (hd r) \<Longrightarrow> \<exists>us. many_rests P (cs @ r) = r # us"
proof (induction cs)
  case Nil
  then show ?case by (cases r) auto
qed auto

text \<open>A whole word is one token of the class its table gives it, unless a directive's name begins it.\<close>

lemma word_token:
  assumes "hd st = Root" "c = CHR ''_'' \<or> xid_start c" "list_all xid_continue cs" "r = [] \<or> \<not> xid_continue (hd r)"
    "rests directive_rx (c # cs @ r) = []"
  shows "lex_step st (c # cs @ r) = Some (c # cs, word_class (c # cs) @ ''.wgsl'', r, st)"
proof -
  obtain us where "many_rests xid_continue (cs @ r) = r # us" using many_rests_greedy [OF assms(3,4)] by blast
  with assms(2) have "rx_match ident_rx (c # cs @ r) = Some (c # cs, r)" by (simp add: rx_match_def ident_rx_def)
  moreover have "rx_match directive_rx (c # cs @ r) = None" using assms(5) by (simp add: rx_match_def)
  ultimately show ?thesis
    using assms(1) by (simp add: lex_step_def tokenizer_def ident_rule_def rule_of_def next_stack_def)
qed

text \<open>
  The expression for directives has no word boundary: a longer identifier that starts with \<open>enable\<close> is cut
  after it and the rest of the line is read as a directive.
\<close>

lemma enable_prefix: "hd st = Root \<Longrightarrow> lex_step st (''enable'' @ r) = Some (''enable'', ''keyword.wgsl'', r, Directive # st)"
  by (simp add: lex_step_def tokenizer_def rule_of_def next_stack_def rx_match_def directive_rx_def)

text \<open>Every reserved word is shown as invalid: none of them is in an earlier table.\<close>

lemma qw_two: "qw (u @ SP # v) = qw u @ qw v"
  by (simp add: qw_def qw_from_line)

lemma atoms_words: "wgsl_atoms = [''true'', ''false'']"
  using qw_two [of "''true''" "''false''"] by (simp add: wgsl_atoms_def qw_word is_sep_def)

lemma reserved_disjoint: "list_all (\<lambda>w. w \<notin> set wgsl_atoms \<and> w \<notin> set wgsl_keywords) wgsl_reserved"
  unfolding atoms_words wgsl_keywords_def wgsl_reserved_def
  by (subst qw_words, simp add: is_sep_def)+ simp

lemma reserved_invalid: "w \<in> set wgsl_reserved \<Longrightarrow> word_class w = ''invalid''"
  using reserved_disjoint by (auto simp: word_class_def list_all_iff)

text \<open>
  C38. Highlighting a line never fails and loses nothing: with a stack that started from the root state and
  room for the line, the tokenizer returns, its tokens are not empty, and their texts put together are the
  line.
\<close>

theorem wgsl_line_tokenized:
  assumes "stack_ok st" "length st + length s \<le> MAX_STACK"
  shows "\<exists>ts st'. lex_line st s = Some (ts, st') \<and> concat (map fst ts) = s \<and> stack_ok st' \<and> (\<forall>t\<in>set ts. fst t \<noteq> [])"
  using assms
proof (induction "length s" arbitrary: st s rule: less_induct)
  case less
  show ?case
  proof (cases "s = []")
    case True
    with less.prems show ?thesis by (simp add: lex_line.simps)
  next
    case False
    then have len: "length st < MAX_STACK" using less.prems(2) by (cases s) auto
    obtain x c t st' where step: "lex_step st s = Some (x, c, t, st')" and s: "s = x @ t" "x \<noteq> []"
      and st': "stack_ok st'" "length st' \<le> Suc (length st)"
      using lex_step_total [OF less.prems(1) False len] by blast
    then have shorter: "length t < length s" "length st' + length t \<le> MAX_STACK"
      using less.prems(2) by (auto simp: length_greater_0_conv [symmetric] simp del: length_greater_0_conv)
    obtain ts st'' where "lex_line st' t = Some (ts, st'')" "concat (map fst ts) = t" "stack_ok st''" "\<forall>t\<in>set ts. fst t \<noteq> []"
      using less.hyps [OF shorter(1) st'(1) shorter(2)] by blast
    with lex_line_step [OF False step shorter(1)] s show ?thesis by auto
  qed
qed

theorem wgsl_line_tokenized_witness:
  "\<exists>ts st'. lex_line [Root] ''let x = 0x1fu; // one'' = Some (ts, st') \<and> concat (map fst ts) = ''let x = 0x1fu; // one''"
  using wgsl_line_tokenized [of "[Root]" "''let x = 0x1fu; // one''"] by (auto simp: stack_ok_def MAX_STACK_def)

end
