(* ===== verification/Emit_Helpers.thy ===== *)
theory Emit_Helpers imports JS_Prelude "HOL-Library.AList" begin

text \<open>
  The helper functions the TypeScript worker of the code editor puts into compiled programs
  (\<^verbatim>\<open>public/js/monaco-editor-0.52.2/min/vs/language/typescript/tsWorker.js\<close>, lines 33--268 and 314--318): decorators,
  object copies, arrays and iterators, classes, modules, private fields and access to a base class. Objects are association lists from
  names to values; a thrown exception is \<open>Inl\<close>. User code the helpers call is a function argument.
\<close>

datatype type_error = TypeError string

section \<open>Decorators\<close>

text \<open>
  \<open>__decorate\<close>: a decorator receives its arguments as a list; \<open>None\<close> is a missing entry of the array, and
  \<open>truthy\<close> the truthiness of a value. The number of arguments of the call tells a class from a member.
\<close>

definition decorate_call :: "nat \<Rightarrow> 'v \<Rightarrow> 'v \<Rightarrow> 'v \<Rightarrow> ('v list \<Rightarrow> 'v) \<Rightarrow> 'v" where
  "decorate_call c target key r d = (if c < 3 then d [r] else if 3 < c then d [target, key, r] else d [target, key])"

fun decorate_loop :: "('v \<Rightarrow> bool) \<Rightarrow> nat \<Rightarrow> 'v \<Rightarrow> 'v \<Rightarrow> ('v list \<Rightarrow> 'v) option list \<Rightarrow> 'v \<Rightarrow> 'v" where
  "decorate_loop tr c target key [] r = r"
| "decorate_loop tr c target key (None # ds) r = decorate_loop tr c target key ds r"
| "decorate_loop tr c target key (Some d # ds) r =
     decorate_loop tr c target key ds (let v = decorate_call c target key r d in if tr v then v else r)"

text \<open>
  The result and whether it is defined as the member's descriptor; \<open>desc\<close> is \<open>None\<close> for \<open>null\<close>, and \<open>own\<close> is
  the member's present descriptor. \<open>reflect\<close> is \<open>Reflect.decorate\<close>, where there is one.
\<close>

definition decorate ::
  "('v \<Rightarrow> bool) \<Rightarrow> (('v list \<Rightarrow> 'v) option list \<Rightarrow> 'v) option \<Rightarrow> nat \<Rightarrow> ('v list \<Rightarrow> 'v) option list \<Rightarrow> 'v \<Rightarrow> 'v \<Rightarrow> 'v option \<Rightarrow> 'v
    \<Rightarrow> 'v \<times> bool" where
  "decorate tr reflect c decorators target key desc own =
     (let r0 = (if c < 3 then target else (case desc of None \<Rightarrow> own | Some d \<Rightarrow> d));
          r = (case reflect of Some f \<Rightarrow> f decorators | None \<Rightarrow> decorate_loop tr c target key (rev decorators) r0)
      in (r, 3 < c \<and> tr r))"

definition metadata_helper :: "('k \<Rightarrow> 'v \<Rightarrow> 'd) option \<Rightarrow> 'k \<Rightarrow> 'v \<Rightarrow> 'd option" where
  "metadata_helper reflect k v = map_option (\<lambda>f. f k v) reflect"

definition param_helper :: "nat \<Rightarrow> ('t \<Rightarrow> 'k \<Rightarrow> nat \<Rightarrow> 'r) \<Rightarrow> 't \<Rightarrow> 'k \<Rightarrow> 'r" where
  "param_helper paramIndex decorator target key = decorator target key paramIndex"

lemma decorate_loop_append:
  "decorate_loop tr c t k (ds @ es) r = decorate_loop tr c t k es (decorate_loop tr c t k ds r)"
  by (induction tr c t k ds r rule: decorate_loop.induct) simp_all

subsection \<open>Standard decorators\<close>

datatype decorated_kind = KClass | KMethod | KGetter | KSetter | KAccessor | KField

text \<open>What a decorator gives back, and a part of an object it gives back.\<close>

datatype 'f part = Undefined | NotFunction | Function 'f

datatype 'f decorator_result =
    RUndefined
  | RNull
  | RFunction 'f
  | RObject "'f part" "'f part" "'f part"
  | ROther

record 'f descriptor =
  desc_get :: "'f option"
  desc_set :: "'f option"
  desc_value :: "'f option"

definition accept :: "'f part \<Rightarrow> type_error + 'f option" where
  "accept p = (case p of Undefined \<Rightarrow> Inr None | NotFunction \<Rightarrow> Inl (TypeError ''Function expected'') | Function f \<Rightarrow> Inr (Some f))"

definition put_value :: "decorated_kind \<Rightarrow> 'f \<Rightarrow> 'f descriptor \<Rightarrow> 'f descriptor" where
  "put_value k f d =
     (case k of KGetter \<Rightarrow> d\<lparr>desc_get := Some f\<rparr> | KSetter \<Rightarrow> d\<lparr>desc_set := Some f\<rparr> | _ \<Rightarrow> d\<lparr>desc_value := Some f\<rparr>)"

definition keep :: "'a option \<Rightarrow> 'a option \<Rightarrow> 'a option" where
  "keep new old = (case new of None \<Rightarrow> old | Some f \<Rightarrow> Some f)"

definition front :: "'a option \<Rightarrow> 'a list \<Rightarrow> 'a list" where
  "front x xs = (case x of None \<Rightarrow> xs | Some f \<Rightarrow> f # xs)"

text \<open>
  A decorator receives the accessor's pair or the member's value, may add initializers through its context,
  and gives a result. \<open>addInitializer\<close> refuses what is no function (\<open>f || null\<close>: also nothing), and every
  function once the decoration is complete.
\<close>

datatype 'f decorator_arg = AccessorArg "'f option" "'f option" | ValueArg "'f option"

type_synonym 'f decorator = "'f decorator_arg \<Rightarrow> 'f part list \<times> 'f decorator_result"

definition addInitializer :: "bool \<Rightarrow> 'f part \<Rightarrow> 'f list \<Rightarrow> type_error + 'f list" where
  "addInitializer completed p extra =
     (if completed then Inl (TypeError ''Cannot add initializers after decoration has completed'')
      else case p of Function f \<Rightarrow> Inr (extra @ [f]) | _ \<Rightarrow> Inl (TypeError ''Function expected''))"

fun add_all :: "'f part list \<Rightarrow> 'f list \<Rightarrow> type_error + 'f list" where
  "add_all [] extra = Inr extra"
| "add_all (p # ps) extra = (case addInitializer False p extra of Inl e \<Rightarrow> Inl e | Inr extra' \<Rightarrow> add_all ps extra')"

definition decorator_input :: "decorated_kind \<Rightarrow> 'f descriptor \<Rightarrow> 'f decorator_arg" where
  "decorator_input k d =
     (case k of
        KAccessor \<Rightarrow> AccessorArg (desc_get d) (desc_set d)
      | KGetter \<Rightarrow> ValueArg (desc_get d)
      | KSetter \<Rightarrow> ValueArg (desc_set d)
      | _ \<Rightarrow> ValueArg (desc_value d))"

text \<open>What becomes of a decorator's result: the descriptor and the initializers.\<close>

definition take_result ::
  "decorated_kind \<Rightarrow> 'f decorator_result \<Rightarrow> 'f descriptor \<times> 'f list \<Rightarrow> type_error + 'f descriptor \<times> 'f list" where
  "take_result k result s =
     (let desc = fst s; inits = snd s in
      if k = KAccessor
      then (case result of
              RUndefined \<Rightarrow> Inr s
            | RObject g st ini \<Rightarrow>
                (case accept g of
                   Inl e \<Rightarrow> Inl e
                 | Inr g' \<Rightarrow>
                     (case accept st of
                        Inl e \<Rightarrow> Inl e
                      | Inr s' \<Rightarrow>
                          (case accept ini of
                             Inl e \<Rightarrow> Inl e
                           | Inr i' \<Rightarrow> Inr (desc\<lparr>desc_get := keep g' (desc_get desc), desc_set := keep s' (desc_set desc)\<rparr>, front i' inits))))
            | _ \<Rightarrow> Inl (TypeError ''Object expected''))
      else (case result of
              RUndefined \<Rightarrow> Inr s
            | RFunction f \<Rightarrow> Inr (if k = KField then (desc, f # inits) else (put_value k f desc, inits))
            | _ \<Rightarrow> Inl (TypeError ''Function expected'')))"

text \<open>The loop of \<open>__esDecorate\<close>, on the descriptor, the initializers and the extra initializers.\<close>

type_synonym 'f decoration = "'f descriptor \<times> 'f list \<times> 'f list"

definition esDecorate_step :: "decorated_kind \<Rightarrow> 'f decorator \<Rightarrow> 'f decoration \<Rightarrow> type_error + 'f decoration" where
  "esDecorate_step k d s =
     (case s of
        (desc, inits, extra) \<Rightarrow>
          (case d (decorator_input k desc) of
             (added, result) \<Rightarrow>
               (case add_all added extra of
                  Inl e \<Rightarrow> Inl e
                | Inr extra' \<Rightarrow>
                    (case take_result k result (desc, inits) of
                       Inl e \<Rightarrow> Inl e
                     | Inr (desc', inits') \<Rightarrow> Inr (desc', inits', extra')))))"

fun esDecorate_loop :: "decorated_kind \<Rightarrow> 'f decorator list \<Rightarrow> 'f decoration \<Rightarrow> type_error + 'f decoration" where
  "esDecorate_loop k [] s = Inr s"
| "esDecorate_loop k (d # ds) s = (case esDecorate_step k d s of Inl e \<Rightarrow> Inl e | Inr s' \<Rightarrow> esDecorate_loop k ds s')"

text \<open>
  The whole helper. A descriptor that is passed in is changed in place; without one the member of the
  class or of its prototype (\<open>own\<close>) is decorated and defined again, and a field outside a class starts
  with an empty descriptor. The last component is what is defined on the target, if there is one.
\<close>

definition esDecorate ::
  "bool \<Rightarrow> 'f descriptor option \<Rightarrow> 'f descriptor \<Rightarrow> decorated_kind \<Rightarrow> 'f decorator list \<Rightarrow> 'f list \<Rightarrow> 'f list
    \<Rightarrow> type_error + 'f decoration \<times> 'f descriptor option" where
  "esDecorate has_ctor descriptorIn own k decorators inits extra =
     (let target = (descriptorIn = None \<and> has_ctor);
          desc = (case descriptorIn of
                    Some d \<Rightarrow> d
                  | None \<Rightarrow> if target then own else \<lparr>desc_get = None, desc_set = None, desc_value = None\<rparr>)
      in (case esDecorate_loop k (rev decorators) (desc, inits, extra) of
            Inl e \<Rightarrow> Inl e
          | Inr s \<Rightarrow> Inr (s, if target then Some (fst s) else None)))"

text \<open>
  \<open>__runInitializers\<close>: each initializer runs on the object, with the value so far if a value was passed; it
  gives the object after it and a value.
\<close>

definition runInitializers :: "('o \<Rightarrow> 'v option \<Rightarrow> 'o \<times> 'v) list \<Rightarrow> 'o \<Rightarrow> 'v option \<Rightarrow> 'o \<times> 'v option" where
  "runInitializers initializers obj val =
     (case val of
        Some v \<Rightarrow> (case fold (\<lambda>f (ob, w). f ob (Some w)) initializers (obj, v) of (ob, w) \<Rightarrow> (ob, Some w))
      | None \<Rightarrow> (fold (\<lambda>f ob. fst (f ob None)) initializers obj, None))"

text \<open>
  The decorators of a field run from the last to the first, each initializer is put in front, and so the
  initializers run in the order of the decorators; those added through the context run in the order they
  were added.
\<close>

definition field_decorator :: "'f \<Rightarrow> 'f decorator" where
  "field_decorator f _ = ([], RFunction f)"

lemma field_initializers:
  "esDecorate_loop KField (map field_decorator fs) (desc, inits, extra) = Inr (desc, rev fs @ inits, extra)"
  by (induction fs arbitrary: inits) (simp_all add: esDecorate_step_def field_decorator_def take_result_def)

theorem field_initializers_order:
  "esDecorate c (Some d) own KField (map field_decorator fs) [] extra = Inr ((d, fs, extra), None)"
  using field_initializers [of "rev fs" d "[]"] by (simp add: esDecorate_def rev_map)

lemma added_in_order: "add_all (map Function fs) extra = Inr (extra @ fs)"
  by (induction fs arbitrary: extra) (simp_all add: addInitializer_def)

text \<open>A decoration that fails with an exception defines nothing; one that succeeds defines what it computed.\<close>

lemma decoration_defined:
  assumes "esDecorate True None own k ds inits extra = Inr ((d, i, x), r)"
  shows "r = Some d"
  using assms by (auto simp: esDecorate_def split: sum.splits)

section \<open>Objects and arrays\<close>

type_synonym 'v obj = "(string \<times> 'v) list"

definition assign_own :: "'v obj \<Rightarrow> 'v obj \<Rightarrow> 'v obj" where
  "assign_own s t = fold (\<lambda>kv. AList.update (fst kv) (snd kv)) s t"

definition assign_helper :: "'v obj \<Rightarrow> 'v obj list \<Rightarrow> 'v obj" where
  "assign_helper t sources = fold assign_own sources t"

text \<open>\<open>__rest\<close>, for string keys and then for symbols; both are names here.\<close>

definition rest_helper :: "'v obj \<Rightarrow> 'v obj \<Rightarrow> string list \<Rightarrow> 'v obj" where
  "rest_helper s symbols e =
     assign_own (filter (\<lambda>kv. fst kv \<notin> set e) symbols) (assign_own (filter (\<lambda>kv. fst kv \<notin> set e) s) [])"

definition makeTemplateObject :: "'v obj \<Rightarrow> 'v \<Rightarrow> 'v obj" where
  "makeTemplateObject cooked raw = AList.update ''raw'' raw cooked"

lemma map_of_rev_distinct:
  assumes "distinct (map fst s)"
  shows "map_of (rev s) k = map_of s k"
proof -
  have "distinct (map fst (rev s))" using assms by (simp add: rev_map [symmetric])
  then have "map_of (rev s) k = Some v \<longleftrightarrow> map_of s k = Some v" for v using assms by simp
  then show ?thesis by (metis not_Some_eq)
qed

lemma map_of_assign_own: "map_of (assign_own s t) k = (case map_of (rev s) k of None \<Rightarrow> map_of t k | Some v \<Rightarrow> Some v)"
  by (induction s arbitrary: t) (auto simp: assign_own_def update_conv map_add_def split: option.split)

text \<open>A later source wins, and what no source has stays.\<close>

lemma map_of_assign:
  assumes "\<And>s. s \<in> set sources \<Longrightarrow> distinct (map fst s)"
  shows "map_of (assign_helper t sources) k = foldl (\<lambda>old s. case map_of s k of None \<Rightarrow> old | Some v \<Rightarrow> Some v) (map_of t k) sources"
  using assms
proof (induction sources arbitrary: t)
  case (Cons s sources)
  have "map_of (rev s) k = map_of s k" using Cons.prems [of s] by (simp add: map_of_rev_distinct)
  then show ?case using Cons by (simp add: assign_helper_def map_of_assign_own)
qed (simp add: assign_helper_def)

lemma map_of_rest:
  assumes "distinct (map fst s)"
  shows "map_of (rest_helper s [] e) k = (if k \<in> set e then None else map_of s k)"
proof -
  have d: "distinct (map fst (filter (\<lambda>kv. fst kv \<notin> set e) s))"
    using assms by (simp add: distinct_map_filter)
  have "map_of (rest_helper s [] e) k = map_of (filter (\<lambda>kv. fst kv \<notin> set e) s) k"
    using map_of_assign_own [of "filter (\<lambda>kv. fst kv \<notin> set e) s" "[]" k] d
    by (simp add: rest_helper_def assign_own_def map_of_rev_distinct split: option.split)
  also have "\<dots> = (if k \<in> set e then None else map_of s k)"
    by (induction s) auto
  finally show ?thesis .
qed

subsection \<open>Arrays with holes\<close>

text \<open>
  \<open>__spreadArray\<close>: \<open>None\<close> is a hole. The loop copies the elements before the first hole, once there is one,
  and then each element it reads, a hole as \<open>undefined\<close>.
\<close>

fun spread_loop :: "'v \<Rightarrow> 'v option list \<Rightarrow> 'v option list option \<Rightarrow> 'v option list \<Rightarrow> 'v option list option" where
  "spread_loop undef pre ar [] = ar"
| "spread_loop undef pre ar (x # xs) =
     spread_loop undef (pre @ [x])
       (case (ar, x) of
          (None, Some v) \<Rightarrow> None
        | (None, None) \<Rightarrow> Some (pre @ [Some undef])
        | (Some a, _) \<Rightarrow> Some (a @ [Some (case x of None \<Rightarrow> undef | Some v \<Rightarrow> v)])) xs"

definition spreadArray :: "'v \<Rightarrow> nat \<Rightarrow> 'v option list \<Rightarrow> 'v option list \<Rightarrow> bool \<Rightarrow> 'v option list" where
  "spreadArray undef argc to from pack =
     (let ar = (if pack \<or> argc = 2 then spread_loop undef [] None from else None)
      in to @ (case ar of None \<Rightarrow> from | Some a \<Rightarrow> a))"

definition fill :: "'v \<Rightarrow> 'v option \<Rightarrow> 'v option" where
  "fill undef x = Some (case x of None \<Rightarrow> undef | Some v \<Rightarrow> v)"

lemma spread_loop_some: "spread_loop undef pre (Some a) xs = Some (a @ map (fill undef) xs)"
  by (induction xs arbitrary: pre a) (simp_all add: fill_def)

lemma spread_loop_none:
  "spread_loop undef pre None xs = (if None \<in> set xs then Some (takeWhile (\<lambda>x. x \<noteq> None) (pre @ xs) @ drop (length (takeWhile (\<lambda>x. x \<noteq> None) (pre @ xs))) (map (fill undef) (pre @ xs))) else None)"
  if "None \<notin> set pre"
  using that
proof (induction xs arbitrary: pre)
  case (Cons x xs)
  show ?case
  proof (cases x)
    case None
    with Cons.prems show ?thesis
      by (auto simp: spread_loop_some fill_def takeWhile_append takeWhile_eq_all_conv [THEN iffD2])
  next
    case (Some v)
    with Cons.prems Cons.IH [of "pre @ [x]"] show ?thesis by simp
  qed
qed simp

lemma fill_takeWhile:
  "takeWhile (\<lambda>x. x \<noteq> None) xs @ drop (length (takeWhile (\<lambda>x. x \<noteq> None) xs)) (map (fill undef) xs) = map (fill undef) xs"
  by (induction xs) (auto simp: fill_def)

text \<open>Packing fills every hole of the second array and leaves the first as it is.\<close>

lemma spreadArray_packs: "spreadArray undef argc to from True = to @ map (fill undef) from"
proof -
  have "map (fill undef) from = from" if "None \<notin> set from"
    using that by (intro map_idI) (metis fill_def not_Some_eq option.simps(5))
  then show ?thesis
    using spread_loop_none [of "[]" undef "from"] fill_takeWhile [of "from" undef] by (simp add: spreadArray_def)
qed

lemma spreadArray_keeps: "argc \<noteq> 2 \<Longrightarrow> spreadArray undef argc to from False = to @ from"
  by (simp add: spreadArray_def)

subsection \<open>Iterators\<close>

text \<open>
  An iterator is the list of what its calls of \<open>next\<close> give: items, and at the end \<open>done\<close> or an exception.
  \<open>__read\<close> returns the items or the exception, and whether it called the iterator's \<open>return\<close>.
\<close>

datatype ('v, 'e) call_result = Item 'v | Fails 'e

fun read_loop :: "nat option \<Rightarrow> ('v, 'e) call_result list \<Rightarrow> bool \<Rightarrow> 'v list \<Rightarrow> ('e + 'v list) \<times> bool" where
  "read_loop n [] live ar = (if n = Some 0 then (Inr ar, live) else (Inr ar, False))"
| "read_loop n (c # cs) live ar =
     (if n = Some 0 then (Inr ar, live)
      else (case c of
              Item v \<Rightarrow> read_loop (map_option (\<lambda>k. k - 1) n) cs True (ar @ [v])
            | Fails e \<Rightarrow> (Inl e, live)))"

definition read_helper :: "nat option \<Rightarrow> ('v, 'e) call_result list \<Rightarrow> ('e + 'v list) \<times> bool" where
  "read_helper n calls = read_loop n calls False []"

lemma read_loop_items:
  "read_loop n (map Item vs) live ar =
     (case n of None \<Rightarrow> (Inr (ar @ vs), False)
      | Some k \<Rightarrow> (Inr (ar @ take k vs), k \<le> length vs \<and> (live \<or> 0 < k)))"
proof (induction vs arbitrary: n live ar)
  case Nil
  then show ?case by (auto split: option.split)
next
  case (Cons v vs)
  show ?case
  proof (cases n)
    case (Some k)
    with Cons show ?thesis by (cases k) auto
  qed (simp add: Cons)
qed

text \<open>Reading a fixed number of items takes that many and closes the iterator unless it ended; reading all does not.\<close>

lemma read_items:
  "read_helper (Some k) (map Item vs) = (Inr (take k vs), 0 < k \<and> k \<le> length vs)"
  "read_helper None (map Item vs) = (Inr vs, False)"
  by (auto simp: read_helper_def read_loop_items)

text \<open>\<open>__values\<close> on an array-like: the object is dropped once it is exhausted.\<close>

type_synonym 'v values_state = "'v list option \<times> nat"

definition values_next :: "'v values_state \<Rightarrow> 'v option \<times> 'v values_state" where
  "values_next s =
     (let o1 = (case fst s of None \<Rightarrow> None | Some xs \<Rightarrow> if length xs \<le> snd s then None else Some xs)
      in (case o1 of None \<Rightarrow> (None, (None, snd s)) | Some xs \<Rightarrow> (Some (xs ! snd s), (Some xs, Suc (snd s)))))"

fun values_calls :: "nat \<Rightarrow> 'v values_state \<Rightarrow> 'v option list" where
  "values_calls 0 s = []"
| "values_calls (Suc k) s = fst (values_next s) # values_calls k (snd (values_next s))"

lemma values_done: "values_calls k (None, i) = replicate k None"
  by (induction k) (simp_all add: values_next_def)

lemma values_in_order:
  "values_calls (length xs - i + k) (Some xs, i) = map Some (drop i xs) @ replicate k None" if "i \<le> length xs"
  using that
proof (induction "length xs - i" arbitrary: i)
  case 0
  then have "length xs = i" by simp
  then show ?case by (cases k) (simp_all add: values_next_def values_done)
next
  case (Suc m)
  then have i: "i < length xs" "m = length xs - Suc i" by simp_all
  then have "length xs - i + k = Suc (length xs - Suc i + k)" by simp
  with Suc.hyps(1) [of "Suc i"] i show ?case
    by (simp add: values_next_def Cons_nth_drop_Suc [symmetric])
qed

section \<open>Names\<close>

datatype prop_name = Symbol "string option" | Name string

definition propKey :: "('v \<Rightarrow> string) \<Rightarrow> prop_name + 'v \<Rightarrow> prop_name" where
  "propKey text x =
     (case x of Inl (Symbol d) \<Rightarrow> Symbol d | Inl (Name n) \<Rightarrow> Name n | Inr v \<Rightarrow> Name (text v))"

definition setFunctionName :: "prop_name \<Rightarrow> string \<Rightarrow> string" where
  "setFunctionName name pre =
     (let n = (case name of
                 Symbol d \<Rightarrow> (case d of Some (c # cs) \<Rightarrow> ''['' @ (c # cs) @ '']'' | _ \<Rightarrow> [])
               | Name m \<Rightarrow> m)
      in if pre \<noteq> [] then pre @ '' '' @ n else n)"

section \<open>Classes\<close>

text \<open>
  A heap of objects with their prototype and properties. \<open>__extends\<close> sets the static side of the subclass
  and makes its prototype an object that inherits from the base class's.
\<close>

datatype 'v slot = Ref nat | NullRef | Plain 'v

record 'v heap_obj =
  proto :: "nat option"
  slots :: "'v slot obj"

type_synonym 'v heap = "nat \<Rightarrow> 'v heap_obj option"

datatype base_class = BaseNull | BaseFunction nat | BaseOther string

text \<open>How the static side is inherited, by what the engine offers.\<close>

datatype extend_mode = SetPrototypeOf | ProtoProperty | CopyProperties

definition extendStatics :: "extend_mode \<Rightarrow> nat \<Rightarrow> nat \<Rightarrow> 'v heap \<Rightarrow> 'v heap" where
  "extendStatics m d b h =
     (case (h d, h b) of
        (Some od, Some ob) \<Rightarrow>
          h(d \<mapsto> (if m = CopyProperties then od\<lparr>slots := assign_own (slots ob) (slots od)\<rparr> else od\<lparr>proto := Some b\<rparr>))
      | _ \<Rightarrow> h)"

definition set_slot :: "nat \<Rightarrow> string \<Rightarrow> 'v slot \<Rightarrow> 'v heap \<Rightarrow> 'v heap" where
  "set_slot n k v h = (case h n of None \<Rightarrow> h | Some ob \<Rightarrow> h(n \<mapsto> ob\<lparr>slots := AList.update k v (slots ob)\<rparr>))"

text \<open>\<open>new\<close> is the address of the new prototype; for a \<open>null\<close> base it has neither a prototype nor a constructor.\<close>

definition extends_helper :: "extend_mode \<Rightarrow> nat \<Rightarrow> base_class \<Rightarrow> nat \<Rightarrow> 'v heap \<Rightarrow> type_error + 'v heap" where
  "extends_helper m d b new h =
     (case b of
        BaseOther text \<Rightarrow> Inl (TypeError (''Class extends value '' @ text @ '' is not a constructor or null''))
      | BaseNull \<Rightarrow> Inr (set_slot d ''prototype'' (Ref new) (h(new \<mapsto> \<lparr>proto = None, slots = []\<rparr>)))
      | BaseFunction n \<Rightarrow>
          let h1 = extendStatics m d n h;
              p = (case h1 n of
                     Some ob \<Rightarrow> (case map_of (slots ob) ''prototype'' of Some (Ref q) \<Rightarrow> Some q | _ \<Rightarrow> None)
                   | None \<Rightarrow> None)
          in Inr (set_slot d ''prototype'' (Ref new) (h1(new \<mapsto> \<lparr>proto = p, slots = [(''constructor'', Ref d)]\<rparr>))))"

text \<open>An instance of the subclass inherits from the base class: its prototype's prototype is the base's.\<close>

lemma extends_chain:
  assumes "extends_helper m d (BaseFunction n) new h = Inr h'" "h d = Some od" "h n = Some ob" "d \<noteq> n"
    "map_of (slots ob) ''prototype'' = Some (Ref q)" "new \<notin> {d, n}"
  shows "\<exists>o1. h' d = Some o1 \<and> map_of (slots o1) ''prototype'' = Some (Ref new) \<and> h' new = Some \<lparr>proto = Some q, slots = [(''constructor'', Ref d)]\<rparr>"
  using assms by (auto simp: extends_helper_def extendStatics_def set_slot_def Let_def update_conv)

section \<open>Modules\<close>

text \<open>
  A property of a module object: a value with its attributes, a getter of its own, or a getter that reads
  another module's property when it is called.
\<close>

datatype 'v prop_desc = Data 'v bool bool | Accessor | Live nat string

record 'v module =
  esModule :: bool
  props :: "'v prop_desc obj"

type_synonym 'v modules = "nat \<Rightarrow> 'v module"

definition binding_of :: "nat \<Rightarrow> 'v module \<Rightarrow> string \<Rightarrow> 'v prop_desc" where
  "binding_of mi m k =
     (case map_of (props m) k of
        None \<Rightarrow> Live mi k
      | Some (Data v writable configurable) \<Rightarrow> if writable \<or> configurable then Live mi k else Data v writable configurable
      | Some d \<Rightarrow> if \<not> esModule m then Live mi k else d)"

definition createBinding :: "nat \<Rightarrow> 'v module \<Rightarrow> string \<Rightarrow> string option \<Rightarrow> 'v module \<Rightarrow> 'v module" where
  "createBinding mi m k k2 ob =
     ob\<lparr>props := AList.update (case k2 of None \<Rightarrow> k | Some n \<Rightarrow> n) (binding_of mi m k) (props ob)\<rparr>"

definition setModuleDefault :: "'v \<Rightarrow> 'v module \<Rightarrow> 'v module" where
  "setModuleDefault v ob = ob\<lparr>props := AList.update ''default'' (Data v False False) (props ob)\<rparr>"

text \<open>\<open>self\<close> is the module as a value.\<close>

definition importStar :: "nat \<Rightarrow> 'v \<Rightarrow> 'v module \<Rightarrow> 'v module" where
  "importStar mi self m =
     (if esModule m then m
      else setModuleDefault self
             (fold (\<lambda>k. createBinding mi m k None) (filter (\<lambda>k. k \<noteq> ''default'') (map fst (props m)))
               \<lparr>esModule = False, props = []\<rparr>))"

definition importDefault :: "'v \<Rightarrow> 'v module \<Rightarrow> 'v module" where
  "importDefault self m =
     (if esModule m then m else \<lparr>esModule = False, props = [(''default'', Data self True True)]\<rparr>)"

definition exportStar :: "nat \<Rightarrow> 'v module \<Rightarrow> 'v module \<Rightarrow> 'v module" where
  "exportStar mi m ex =
     fold (\<lambda>k e. if k \<noteq> ''default'' \<and> k \<notin> fst ` set (props e) then createBinding mi m k None e else e) (map fst (props m)) ex"

lemma bindings_fold:
  "map_of (props (fold (\<lambda>k. createBinding mi m k None) ks ob)) k =
     (if k \<in> set ks then Some (binding_of mi m k) else map_of (props ob) k)"
  by (induction ks arbitrary: ob) (auto simp: createBinding_def update_conv)

text \<open>The namespace of a CommonJS module has its properties as bindings, and the module itself as default.\<close>

lemma importStar_commonjs:
  assumes "\<not> esModule m"
  shows "map_of (props (importStar mi self m)) k =
    (if k = ''default'' then Some (Data self False False)
     else if k \<in> fst ` set (props m) then Some (binding_of mi m k) else None)"
  using assms by (auto simp: importStar_def setModuleDefault_def update_conv bindings_fold)

text \<open>Re-exporting never overwrites what a module exports itself, and never its default.\<close>

definition export_one :: "nat \<Rightarrow> 'v module \<Rightarrow> string \<Rightarrow> 'v module \<Rightarrow> 'v module" where
  "export_one mi m k e = (if k \<noteq> ''default'' \<and> k \<notin> fst ` set (props e) then createBinding mi m k None e else e)"

lemma export_one_keeps: "map_of (props e) k = Some d \<Longrightarrow> map_of (props (export_one mi m k' e)) k = Some d"
  by (auto simp: export_one_def createBinding_def update_conv dest: map_of_SomeD) (force dest: map_of_SomeD)

lemma exportStar_keeps: "map_of (props ex) k = Some d \<Longrightarrow> map_of (props (exportStar mi m ex)) k = Some d"
proof -
  have "map_of (props e) k = Some d \<Longrightarrow> map_of (props (fold (export_one mi m) ks e)) k = Some d" for ks e
    by (induction ks arbitrary: e) (auto intro: export_one_keeps)
  then show "map_of (props ex) k = Some d \<Longrightarrow> ?thesis" by (simp add: exportStar_def export_one_def [abs_def])
qed

section \<open>Private members\<close>

text \<open>
  The state of a private name: for a static member the class itself, else the table of the instances that
  have it. \<open>f\<close> is the method, the accessor's function or the box of a static field; its value is its
  result here, and \<open>None\<close> is that there is none.
\<close>

datatype member_kind = Field | Method | AccessorMember

datatype ('r, 'v) private_state = Static 'r | Instances "('r \<times> 'v) list"

definition declared :: "('r, 'v) private_state \<Rightarrow> 'v option \<Rightarrow> 'r \<Rightarrow> bool" where
  "declared st f receiver =
     (case st of Static c \<Rightarrow> receiver = c \<and> f \<noteq> None | Instances t \<Rightarrow> map_of t receiver \<noteq> None)"

definition classPrivateFieldGet :: "'r \<Rightarrow> ('r, 'v) private_state \<Rightarrow> member_kind \<Rightarrow> 'v option \<Rightarrow> type_error + 'v option" where
  "classPrivateFieldGet receiver st kind f =
     (if kind = AccessorMember \<and> f = None then Inl (TypeError ''Private accessor was defined without a getter'')
      else if \<not> declared st f receiver
      then Inl (TypeError ''Cannot read private member from an object whose class did not declare it'')
      else Inr (if kind \<noteq> Field \<or> f \<noteq> None then f else (case st of Instances t \<Rightarrow> map_of t receiver | Static c \<Rightarrow> None)))"

text \<open>Writing gives the new state and the new content of the box.\<close>

definition classPrivateFieldSet ::
  "'r \<Rightarrow> ('r, 'v) private_state \<Rightarrow> 'v \<Rightarrow> member_kind \<Rightarrow> 'v option \<Rightarrow> type_error + ('r, 'v) private_state \<times> 'v option" where
  "classPrivateFieldSet receiver st v kind f =
     (if kind = Method then Inl (TypeError ''Private method is not writable'')
      else if kind = AccessorMember \<and> f = None then Inl (TypeError ''Private accessor was defined without a setter'')
      else if \<not> declared st f receiver
      then Inl (TypeError ''Cannot write private member to an object whose class did not declare it'')
      else Inr (if f \<noteq> None then (st, Some v)
                else (case st of Instances t \<Rightarrow> (Instances (AList.update receiver v t), f) | Static c \<Rightarrow> (st, f))))"

datatype 'r member_target = NoObject | Object 'r

definition classPrivateFieldIn :: "('r, 'v) private_state \<Rightarrow> 'r member_target \<Rightarrow> type_error + bool" where
  "classPrivateFieldIn st receiver =
     (case receiver of
        NoObject \<Rightarrow> Inl (TypeError ''Cannot use 'in' operator on non-object'')
      | Object r \<Rightarrow> Inr (case st of Static c \<Rightarrow> r = c | Instances t \<Rightarrow> map_of t r \<noteq> None))"

text \<open>
  A private field behaves like a field: what is written is read back from the same object, the fields
  of other objects do not change, and an object whose class does not declare the field is refused both
  ways.
\<close>

theorem private_field_read_back:
  "classPrivateFieldSet r (Instances t) v Field None =
     (if map_of t r = None then Inl (TypeError ''Cannot write private member to an object whose class did not declare it'')
      else Inr (Instances (AList.update r v t), None))
   \<and> classPrivateFieldGet r' (Instances (AList.update r v t)) Field None =
       (if r' = r then Inr (Some v) else classPrivateFieldGet r' (Instances t) Field None)"
  by (auto simp: classPrivateFieldSet_def classPrivateFieldGet_def declared_def update_conv)

section \<open>Members of the base class in asynchronous methods\<close>

text \<open>
  \<open>super[name]\<close> reads the prototype of the base class; writing to it makes a property of \<open>this\<close>, where the
  base class has no setter. The plain helper only reads. The other one hands out an accessor object for each
  name, kept in a table without inherited names: accessors are numbered in the order of their creation.
\<close>

record 'v super_view =
  base_members :: "(string \<times> 'v) list"
  own_members :: "(string \<times> 'v) list"

definition superIndex_get :: "string \<Rightarrow> 'v super_view \<Rightarrow> 'v option" where
  "superIndex_get name s = map_of (base_members s) name"

definition superIndex_set :: "string \<Rightarrow> 'v \<Rightarrow> 'v super_view \<Rightarrow> 'v super_view" where
  "superIndex_set name v s = s\<lparr>own_members := AList.update name v (own_members s)\<rparr>"

fun position :: "'a \<Rightarrow> 'a list \<Rightarrow> nat" where
  "position x [] = 0"
| "position x (y # ys) = (if x = y then 0 else Suc (position x ys))"

definition superIndex :: "string \<Rightarrow> string list \<Rightarrow> nat \<times> string list" where
  "superIndex name cache = (position name cache, if name \<in> set cache then cache else cache @ [name])"

definition accessor_get :: "string list \<Rightarrow> nat \<Rightarrow> 'v super_view \<Rightarrow> 'v option" where
  "accessor_get cache a s = (if a < length cache then superIndex_get (cache ! a) s else None)"

definition accessor_set :: "string list \<Rightarrow> nat \<Rightarrow> 'v \<Rightarrow> 'v super_view \<Rightarrow> 'v super_view" where
  "accessor_set cache a v s = (if a < length cache then superIndex_set (cache ! a) v s else s)"

lemma position_append: "position x (xs @ ys) = (if x \<in> set xs then position x xs else length xs + position x ys)"
  by (induction xs) auto

lemma position_new: "x \<notin> set xs \<Longrightarrow> position x xs = length xs"
  by (induction xs) auto

lemma nth_position: "x \<in> set xs \<Longrightarrow> position x xs < length xs \<and> xs ! position x xs = x"
  by (induction xs) auto

text \<open>
  An accessor stands for its member for as long as the method runs: whatever accessors are asked for
  later, it reads and writes the member it was made for, and asking for that member again gives it.
\<close>

theorem super_accessor_stable:
  assumes "superIndex name cache = (a, cache')" "later = fold (\<lambda>n c. snd (superIndex n c)) names cache'"
  shows "accessor_get later a s = map_of (base_members s) name
    \<and> accessor_get later a (accessor_set later a v s) = map_of (base_members s) name
    \<and> map_of (own_members (accessor_set later a v s)) = (map_of (own_members s))(name \<mapsto> v)
    \<and> fst (superIndex name later) = a"
proof -
  have "\<exists>zs. later = cache' @ zs" unfolding assms(2)
    by (induction names rule: rev_induct) (auto simp: superIndex_def)
  moreover have "name \<in> set cache'" "a = position name cache'"
    using assms(1) by (auto simp: superIndex_def position_append position_new split: if_splits)
  ultimately have "fst (superIndex name later) = a" "a < length later" "later ! a = name"
    using nth_position [of name cache'] by (auto simp: superIndex_def position_append nth_append)
  then show ?thesis
    by (simp add: accessor_get_def accessor_set_def superIndex_get_def superIndex_set_def update_conv')
qed

end
