(* ===== verification/Emit_Control.thy ===== *)
theory Emit_Control imports Emit_Helpers begin

text \<open>
  The helpers of the TypeScript worker that dispose resources and run asynchronous functions
  (\<^verbatim>\<open>tsWorker.js\<close>, lines 126--134 and 269--313). What a dispose function does and how the promise of an
  awaited value settles, if it ever does, are arguments.
\<close>

section \<open>Resources\<close>

text \<open>
  A value that is to be disposed: nothing (\<open>null\<close> or \<open>undefined\<close>), no object, or an object with its two
  dispose members. The stack has the newest entry last; an entry keeps the value, which is the receiver
  of the call, and its function; one for nothing only makes the disposal wait.
\<close>

datatype ('v, 'f) resource = Nothing | NoObjectValue | Resource 'v "'f part" "'f part"

datatype ('v, 'f) dispose_rec = Disposable 'v 'f bool | AsyncOnly

type_synonym ('v, 'f) dispose_stack = "('v, 'f) dispose_rec list"

definition addDisposableResource ::
  "bool \<Rightarrow> bool \<Rightarrow> ('v, 'f) dispose_stack \<Rightarrow> ('v, 'f) resource \<Rightarrow> bool \<Rightarrow> type_error + ('v, 'f) dispose_stack" where
  "addDisposableResource has_asyncDispose has_dispose stack val async =
     (case val of
        Nothing \<Rightarrow> Inr (if async then stack @ [AsyncOnly] else stack)
      | NoObjectValue \<Rightarrow> Inl (TypeError ''Object expected.'')
      | Resource v a d \<Rightarrow>
          if async \<and> \<not> has_asyncDispose then Inl (TypeError ''Symbol.asyncDispose is not defined.'')
          else let first = (if async then a else Undefined) in
               if first = Undefined \<and> \<not> has_dispose then Inl (TypeError ''Symbol.dispose is not defined.'')
               else (case (if first = Undefined then d else first) of
                       Function f \<Rightarrow> Inr (stack @ [Disposable v f async])
                     | _ \<Rightarrow> Inl (TypeError ''Object not disposable.'')))"

text \<open>
  An error of the block or of a disposal; one that came while another was pending keeps it. A disposal
  throws, or returns a value whose promise is fulfilled, rejected or never settled; that promise is
  only looked at in an asynchronous entry.
\<close>

datatype 'e failure = Failure 'e | Suppressed 'e "'e failure"

datatype 'e disposal = Throws_now 'e | Fulfils | Rejects 'e | Hangs

definition fail :: "'e \<Rightarrow> 'e failure option \<Rightarrow> 'e failure option" where
  "fail e err = Some (case err of None \<Rightarrow> Failure e | Some p \<Rightarrow> Suppressed e p)"

text \<open>
  \<open>next\<close>: the calls made so far, each with its receiver, and the pending error; whether it runs in a
  reaction of a promise already, and whether the promise it waits for will never settle.
\<close>

record ('v, 'f, 'e) disposing =
  called :: "('f \<times> 'v) list"
  env_error :: "'e failure option"
  deferred :: bool
  hung :: bool

definition dispose_one ::
  "('f \<Rightarrow> 'v \<Rightarrow> 'e disposal) \<Rightarrow> ('v, 'f) dispose_rec \<Rightarrow> ('v, 'f, 'e) disposing \<Rightarrow> ('v, 'f, 'e) disposing" where
  "dispose_one outcome r s =
     (case r of
        AsyncOnly \<Rightarrow> s\<lparr>deferred := True\<rparr>
      | Disposable v f async \<Rightarrow>
          let s1 = s\<lparr>called := called s @ [(f, v)]\<rparr> in
          case outcome f v of
            Throws_now e \<Rightarrow> s1\<lparr>env_error := fail e (env_error s1)\<rparr>
          | Fulfils \<Rightarrow> if async then s1\<lparr>deferred := True\<rparr> else s1
          | Rejects e \<Rightarrow> if async then s1\<lparr>deferred := True, env_error := fail e (env_error s1)\<rparr> else s1
          | Hangs \<Rightarrow> if async then s1\<lparr>deferred := True, hung := True\<rparr> else s1)"

function dispose_loop ::
  "('f \<Rightarrow> 'v \<Rightarrow> 'e disposal) \<Rightarrow> ('v, 'f) dispose_stack \<Rightarrow> ('v, 'f, 'e) disposing \<Rightarrow> ('v, 'f, 'e) disposing" where
  "dispose_loop outcome stack s =
     (if stack = [] \<or> hung s then s
      else dispose_loop outcome (butlast stack) (dispose_one outcome (last stack) s))"
  by pat_completeness auto
termination by (relation "measure (\<lambda>(_, stack, _). length stack)") auto

declare dispose_loop.simps [simp del]

text \<open>How a disposal ends: at once, or by a promise that is settled later or not at all.\<close>

datatype 'e disposed = Completed | Threw "'e failure" | ResolvesLater | RejectsLater "'e failure" | StaysPending

definition disposeResources ::
  "('f \<Rightarrow> 'v \<Rightarrow> 'e disposal) \<Rightarrow> ('v, 'f) dispose_stack \<Rightarrow> 'e failure option \<Rightarrow> ('f \<times> 'v) list \<times> 'e disposed" where
  "disposeResources outcome stack err =
     (let s = dispose_loop outcome stack \<lparr>called = [], env_error = err, deferred = False, hung = False\<rparr> in
      (called s,
       if hung s then StaysPending
       else case env_error s of
         None \<Rightarrow> if deferred s then ResolvesLater else Completed
       | Some e \<Rightarrow> if deferred s then RejectsLater e else Threw e))"

text \<open>
  What is asked of a disposal, entry by entry: the call it makes, the errors that must not be lost
  (an exception, or the rejection of a promise that is waited for), whether it waits and whether it
  waits for ever.
\<close>

fun errors_of :: "'e failure \<Rightarrow> 'e list" where
  "errors_of (Failure e) = [e]"
| "errors_of (Suppressed e p) = e # errors_of p"

definition all_errors :: "'e failure option \<Rightarrow> 'e list" where
  "all_errors err = (case err of None \<Rightarrow> [] | Some p \<Rightarrow> errors_of p)"

fun entry_call :: "('v, 'f) dispose_rec \<Rightarrow> ('f \<times> 'v) list" where
  "entry_call (Disposable v f async) = [(f, v)]"
| "entry_call AsyncOnly = []"

fun entry_errors :: "('f \<Rightarrow> 'v \<Rightarrow> 'e disposal) \<Rightarrow> ('v, 'f) dispose_rec \<Rightarrow> 'e list" where
  "entry_errors outcome (Disposable v f async) =
     (case outcome f v of Throws_now e \<Rightarrow> [e] | Rejects e \<Rightarrow> if async then [e] else [] | _ \<Rightarrow> [])"
| "entry_errors outcome AsyncOnly = []"

fun entry_waits :: "('f \<Rightarrow> 'v \<Rightarrow> 'e disposal) \<Rightarrow> ('v, 'f) dispose_rec \<Rightarrow> bool" where
  "entry_waits outcome (Disposable v f async) = (async \<and> (case outcome f v of Throws_now e \<Rightarrow> False | _ \<Rightarrow> True))"
| "entry_waits outcome AsyncOnly = True"

fun entry_hangs :: "('f \<Rightarrow> 'v \<Rightarrow> 'e disposal) \<Rightarrow> ('v, 'f) dispose_rec \<Rightarrow> bool" where
  "entry_hangs outcome (Disposable v f async) = (async \<and> outcome f v = Hangs)"
| "entry_hangs outcome AsyncOnly = False"

lemma all_errors_fail [simp]: "all_errors (fail e err) = e # all_errors err"
  by (simp add: all_errors_def fail_def split: option.split)

lemma dispose_one_effect:
  "called (dispose_one outcome r s) = called s @ entry_call r"
  "all_errors (env_error (dispose_one outcome r s)) = entry_errors outcome r @ all_errors (env_error s)"
  "deferred (dispose_one outcome r s) = (deferred s \<or> entry_waits outcome r)"
  "hung (dispose_one outcome r s) = (hung s \<or> entry_hangs outcome r)"
  by (cases r; simp add: dispose_one_def Let_def split: disposal.split)+

lemma dispose_loop_snoc:
  "dispose_loop outcome (stack @ [r]) s = (if hung s then s else dispose_loop outcome stack (dispose_one outcome r s))"
  by (subst dispose_loop.simps) simp

lemma dispose_loop_stop: "hung s \<Longrightarrow> dispose_loop outcome stack s = s" "dispose_loop outcome [] s = s"
  by (simp_all add: dispose_loop.simps)

lemma dispose_loop_all:
  assumes "\<not> list_ex (entry_hangs outcome) stack" "\<not> hung s"
  shows "called (dispose_loop outcome stack s) = called s @ concat (map entry_call (rev stack))
    \<and> all_errors (env_error (dispose_loop outcome stack s))
        = concat (map (entry_errors outcome) stack) @ all_errors (env_error s)
    \<and> deferred (dispose_loop outcome stack s) = (deferred s \<or> list_ex (entry_waits outcome) stack)
    \<and> \<not> hung (dispose_loop outcome stack s)"
  using assms
proof (induction stack arbitrary: s rule: rev_induct)
  case (snoc r stack)
  then show ?case by (auto simp: dispose_loop_snoc dispose_one_effect)
qed (simp add: dispose_loop_stop)

lemma dispose_loop_prefix:
  assumes "\<not> list_ex (entry_hangs outcome) newer" "\<not> hung s"
  shows "dispose_loop outcome (older @ newer) s = dispose_loop outcome older (dispose_loop outcome newer s)"
  using assms
proof (induction newer arbitrary: s rule: rev_induct)
  case (snoc r newer)
  from snoc.prems have "\<not> hung (dispose_one outcome r s)" by (simp add: dispose_one_effect)
  with snoc show ?case by (simp add: dispose_loop_snoc flip: append_assoc)
qed (simp add: dispose_loop_stop)

lemma last_hanging:
  "list_ex P xs \<Longrightarrow> \<exists>older r newer. xs = older @ r # newer \<and> P r \<and> \<not> list_ex P newer"
  using split_list_last_prop [of xs P] by (auto simp: list_ex_iff)

text \<open>
  C39. Resources are disposed one by one, the last one first, each by calling its own function on its own
  value, whatever goes wrong with another. If no disposal that is waited for stays pending for ever, all
  are disposed; the disposal then ends with an exception, or a rejected promise if it had to wait, exactly
  if the block or one of the disposals failed, and the error carries that of the block and that of each
  disposal that threw or whose awaited promise was rejected, the latest first. If one does stay pending
  for ever, the entries up to it are disposed, the older ones are not, and the promise stays pending.
\<close>

theorem resources_disposed_in_reverse:
  "if list_ex (entry_hangs outcome) stack
   then snd (disposeResources outcome stack err) = StaysPending
     \<and> (\<exists>older r newer. stack = older @ r # newer \<and> entry_hangs outcome r \<and> \<not> list_ex (entry_hangs outcome) newer
          \<and> fst (disposeResources outcome stack err) = concat (map entry_call (rev (r # newer))))
   else fst (disposeResources outcome stack err) = concat (map entry_call (rev stack))
     \<and> (\<exists>err'. all_errors err' = concat (map (entry_errors outcome) stack) @ all_errors err
          \<and> snd (disposeResources outcome stack err) =
              (case err' of
                 None \<Rightarrow> if list_ex (entry_waits outcome) stack then ResolvesLater else Completed
               | Some e \<Rightarrow> if list_ex (entry_waits outcome) stack then RejectsLater e else Threw e))"
proof (cases "list_ex (entry_hangs outcome) stack")
  case True
  then obtain older r newer where st: "stack = older @ r # newer" "entry_hangs outcome r"
    and n: "\<not> list_ex (entry_hangs outcome) newer" using last_hanging by meson
  let ?s = "\<lparr>called = [], env_error = err, deferred = False, hung = False\<rparr>"
  let ?t = "dispose_loop outcome newer ?s"
  note t = dispose_loop_all [OF n, of ?s, simplified]
  have "dispose_loop outcome stack ?s = dispose_one outcome r ?t"
    using dispose_loop_prefix [OF n, of ?s "older @ [r]"] t st(2)
    by (simp add: st(1) dispose_loop_snoc dispose_loop_stop(1) dispose_one_effect)
  with t st(2) have "disposeResources outcome stack err = (concat (map entry_call (rev (r # newer))), StaysPending)"
    by (simp add: disposeResources_def Let_def dispose_one_effect)
  with True st n show ?thesis by auto
next
  case False
  with dispose_loop_all [OF False, of "\<lparr>called = [], env_error = err, deferred = False, hung = False\<rparr>"]
  show ?thesis by (auto simp: disposeResources_def Let_def split: option.split)
qed

lemma resource_disposed_by_block:
  assumes "addDisposableResource True True stack (Resource v a d) async = Inr stack'"
  shows "\<exists>f. stack' = stack @ [Disposable v f async] \<and> (Function f = d \<or> async \<and> Function f = a)"
  using assms by (auto simp: addDisposableResource_def Let_def split: part.splits if_splits)

section \<open>Asynchronous functions\<close>

text \<open>
  \<open>__awaiter\<close>. The body is a generator, an argument: \<open>send\<close> resumes it. A yielded value is adopted as a
  promise, and the helper waits until that is fulfilled or rejected; a returned value resolves the
  promise of the function, which then follows it: a returned promise is waited for as well.
\<close>

datatype 'v resume = RNext 'v | RThrow 'v

datatype 'v gen_result = GYield 'v | GReturn 'v | GThrow 'v

datatype 'v promise = Waiting 'v | Following 'v | Resolved 'v | Rejected 'v

definition awaiter_result :: "'v gen_result \<Rightarrow> 'v promise" where
  "awaiter_result r = (case r of GYield v \<Rightarrow> Waiting v | GReturn v \<Rightarrow> Following v | GThrow e \<Rightarrow> Rejected e)"

definition awaiter_resume ::
  "('v resume \<Rightarrow> 'g \<Rightarrow> 'v gen_result \<times> 'g) \<Rightarrow> 'v resume \<Rightarrow> 'g \<Rightarrow> 'v promise \<times> 'g" where
  "awaiter_resume send m g = (case send m g of (r, g') \<Rightarrow> (awaiter_result r, g'))"

definition awaiter_start :: "'v \<Rightarrow> ('v resume \<Rightarrow> 'g \<Rightarrow> 'v gen_result \<times> 'g) \<Rightarrow> 'g \<Rightarrow> 'v promise \<times> 'g" where
  "awaiter_start undef send g = awaiter_resume send (RNext undef) g"

text \<open>
  The promise a value is adopted as settles: \<open>settle\<close> says how, \<open>None\<close> if never. A value that is no
  promise is fulfilled with itself.
\<close>

definition awaiter_event ::
  "('v resume \<Rightarrow> 'g \<Rightarrow> 'v gen_result \<times> 'g) \<Rightarrow> ('v \<Rightarrow> 'v resume option) \<Rightarrow> 'v promise \<times> 'g \<Rightarrow> 'v promise \<times> 'g" where
  "awaiter_event send settle s =
     (case fst s of
        Waiting v \<Rightarrow> (case settle v of None \<Rightarrow> s | Some m \<Rightarrow> awaiter_resume send m (snd s))
      | Following v \<Rightarrow>
          (case settle v of
             None \<Rightarrow> s
           | Some (RNext x) \<Rightarrow> (Resolved x, snd s)
           | Some (RThrow e) \<Rightarrow> (Rejected e, snd s))
      | _ \<Rightarrow> s)"

text \<open>
  What an asynchronous function means: each awaited value is replaced by what its promise gives, or
  thrown at that place, until the body ends, and the function has what the returned value's promise has.
\<close>

inductive async_eval ::
  "('v resume \<Rightarrow> 'g \<Rightarrow> 'v gen_result \<times> 'g) \<Rightarrow> ('v \<Rightarrow> 'v resume option) \<Rightarrow> 'v resume \<Rightarrow> 'g \<Rightarrow> 'v promise \<Rightarrow> bool"
  for send settle where
  ends: "send m g = (GReturn v, g') \<Longrightarrow> settle v = Some (RNext x) \<Longrightarrow> async_eval send settle m g (Resolved x)"
| ends_rejected: "send m g = (GReturn v, g') \<Longrightarrow> settle v = Some (RThrow e) \<Longrightarrow> async_eval send settle m g (Rejected e)"
| raises: "send m g = (GThrow e, g') \<Longrightarrow> async_eval send settle m g (Rejected e)"
| awaits: "send m g = (GYield v, g') \<Longrightarrow> settle v = Some m' \<Longrightarrow> async_eval send settle m' g' p \<Longrightarrow>
    async_eval send settle m g p"

lemmas awaiter_defs = awaiter_event_def awaiter_resume_def awaiter_result_def

lemma awaiter_follows_eval:
  assumes "async_eval send settle m g p"
  shows "\<exists>n. fst ((awaiter_event send settle ^^ n) (awaiter_resume send m g)) = p"
  using assms
proof induction
  case (ends m g v g' x)
  then show ?case by (intro exI [of _ 1]) (simp add: awaiter_defs)
next
  case (ends_rejected m g v g' e)
  then show ?case by (intro exI [of _ 1]) (simp add: awaiter_defs)
next
  case (raises m g e g')
  then show ?case by (intro exI [of _ 0]) (simp add: awaiter_defs)
next
  case (awaits m g v g' m' p)
  then obtain n where n: "fst ((awaiter_event send settle ^^ n) (awaiter_resume send m' g')) = p"
    by blast
  have "awaiter_event send settle (awaiter_resume send m g) = awaiter_resume send m' g'"
    using awaits.hyps by (simp add: awaiter_defs)
  with n show ?case by (intro exI [of _ "Suc n"]) (simp add: funpow_swap1)
qed

definition promise_settled :: "'v promise \<Rightarrow> bool" where
  "promise_settled p \<longleftrightarrow> (\<exists>x. p = Resolved x \<or> p = Rejected x)"

lemma awaiter_stays:
  assumes "awaiter_event send settle s = s"
  shows "(awaiter_event send settle ^^ n) s = s"
  using assms by (induction n) simp_all

lemma eval_follows_awaiter:
  assumes "fst ((awaiter_event send settle ^^ n) (awaiter_resume send m g)) = p" "promise_settled p"
  shows "async_eval send settle m g p"
  using assms
proof (induction n arbitrary: m g)
  case 0
  obtain r g' where r: "send m g = (r, g')" by fastforce
  with 0 show ?case
    by (cases r) (auto simp: awaiter_defs promise_settled_def intro: async_eval.raises)
next
  case (Suc n)
  obtain r g' where r: "send m g = (r, g')" by fastforce
  let ?s = "awaiter_resume send m g"
  have it: "(awaiter_event send settle ^^ Suc n) ?s = (awaiter_event send settle ^^ n) (awaiter_event send settle ?s)"
    by (simp add: funpow_swap1)
  consider (stay) "awaiter_event send settle ?s = ?s"
    | (yield) v m' where "r = GYield v" "settle v = Some m'" "awaiter_event send settle ?s = awaiter_resume send m' g'"
    | (returned) v x where "r = GReturn v" "settle v = Some (RNext x)" "awaiter_event send settle ?s = (Resolved x, g')"
    | (thrown) v e where "r = GReturn v" "settle v = Some (RThrow e)" "awaiter_event send settle ?s = (Rejected e, g')"
  proof (cases r)
    case (GYield v)
    with r that(1,2) show thesis by (cases "settle v") (simp_all add: awaiter_defs)
  next
    case (GReturn v)
    with r that(1) that(3,4) [of v] show thesis
      by (cases "settle v"; cases "the (settle v)") (simp_all add: awaiter_defs)
  next
    case (GThrow e)
    with r that(1) show thesis by (simp add: awaiter_defs)
  qed
  then show ?case
  proof cases
    case stay
    then have "fst ((awaiter_event send settle ^^ n) ?s) = p" using Suc.prems(1) by (simp only: it awaiter_stays)
    with Suc show ?thesis by blast
  next
    case yield
    then have "async_eval send settle m' g' p" using Suc unfolding it by simp
    with yield r show ?thesis by (auto intro: async_eval.awaits)
  next
    case returned
    then have "p = Resolved x" using Suc.prems(1) unfolding it by (simp add: awaiter_stays awaiter_event_def)
    with returned r show ?thesis by (auto intro: async_eval.ends)
  next
    case thrown
    then have "p = Rejected e" using Suc.prems(1) unfolding it by (simp add: awaiter_stays awaiter_event_def)
    with thrown r show ?thesis by (auto intro: async_eval.ends_rejected)
  qed
qed

lemma eval_settles: "async_eval send settle m g p \<Longrightarrow> promise_settled p"
  by (induction rule: async_eval.induct) (auto simp: promise_settled_def)

text \<open>
  C40. A compiled asynchronous function does what the function means: its promise is settled after
  finitely many awaited promises if and only if the body, with every awaited value replaced by what its
  promise gives or thrown at that place, ends with an exception or with a value whose own promise
  settles, and then it is settled in the same way: rejected with the exception, or as the returned value
  is, which for a returned promise is that promise's outcome.
\<close>

theorem awaiter_refines_async:
  "async_eval send settle (RNext undef) g p \<longleftrightarrow>
     (\<exists>x. p = Resolved x \<or> p = Rejected x)
     \<and> (\<exists>n. fst ((awaiter_event send settle ^^ n) (awaiter_start undef send g)) = p)"
  unfolding awaiter_start_def
  using awaiter_follows_eval eval_follows_awaiter eval_settles unfolding promise_settled_def by metis

end
