(* ===== verification/Emit_Generator.thy ===== *)
theory Emit_Generator imports Emit_Control begin

text \<open>
  The generators of the TypeScript worker's helpers (\<^verbatim>\<open>tsWorker.js\<close>, lines 90--114 and 198--223):
  \<open>__generator\<close>, the loop that runs a function body cut into labelled pieces, and
  \<open>__asyncGenerator\<close>, \<open>__asyncDelegator\<close> and \<open>__asyncValues\<close>.
\<close>

section \<open>Asynchronous generators\<close>

text \<open>
  \<open>__asyncGenerator\<close>. The queue \<open>q\<close> holds the requests that are not answered, each with its verb, its
  value and the number of its promise. A result of the inner generator is a value to wait for
  (an \<open>__await\<close>) or an answer.
\<close>

datatype gen_verb = VNext | VThrow | VReturn

type_synonym 'v gen_request = "gen_verb \<times> 'v \<times> nat"

datatype 'v async_result = Await 'v | Answer 'v bool | Throws 'v

record ('g, 'v) async_gen =
  inner_gen :: 'g
  gen_queue :: "'v gen_request list"
  answers :: "(nat \<times> 'v async_result) list"
  gen_waits :: nat
  gen_broken :: bool
  issued :: nat

text \<open>
  \<open>resume\<close>, \<open>step\<close> and \<open>settle\<close> for the queue of the moment: the inner generator runs; if it has a result, the
  first request is answered with it and the next request is resumed. With an empty queue \<open>q[0]\<close> is
  undefined, and reading its resolver fails.
\<close>

fun resume_queue ::
  "(gen_verb \<Rightarrow> 'v \<Rightarrow> 'g \<Rightarrow> 'v async_result \<times> 'g) \<Rightarrow> gen_verb \<Rightarrow> 'v \<Rightarrow> 'g \<Rightarrow> 'v gen_request list
    \<Rightarrow> 'g \<times> 'v gen_request list \<times> (nat \<times> 'v async_result) list \<times> bool \<times> bool" where
  "resume_queue send n v g [] =
     (case send n v g of (Await p, g') \<Rightarrow> (g', [], [], True, False) | (_, g') \<Rightarrow> (g', [], [], False, True))"
| "resume_queue send n v g [r] =
     (case send n v g of (Await p, g') \<Rightarrow> (g', [r], [], True, False) | (a, g') \<Rightarrow> (g', [], [(snd (snd r), a)], False, False))"
| "resume_queue send n v g (r # r' # rs) =
     (case send n v g of
        (Await p, g') \<Rightarrow> (g', r # r' # rs, [], True, False)
      | (a, g') \<Rightarrow>
          (case resume_queue send (fst r') (fst (snd r')) g' (r' # rs) of
             (g'', q, as, w, b) \<Rightarrow> (g'', q, (snd (snd r), a) # as, w, b)))"

definition gen_resume ::
  "(gen_verb \<Rightarrow> 'v \<Rightarrow> 'g \<Rightarrow> 'v async_result \<times> 'g) \<Rightarrow> gen_verb \<Rightarrow> 'v \<Rightarrow> ('g, 'v) async_gen \<Rightarrow> ('g, 'v) async_gen" where
  "gen_resume send n v s =
     (case resume_queue send n v (inner_gen s) (gen_queue s) of
        (g, q, as, w, b) \<Rightarrow>
          s\<lparr>inner_gen := g, gen_queue := q, answers := answers s @ as,
            gen_waits := gen_waits s + (if w then 1 else 0), gen_broken := gen_broken s \<or> b\<rparr>)"

text \<open>
  The verbs: the request is appended, and resumed at once if it is alone. \<open>return\<close> waits for its value
  first (\<open>awaitReturn\<close>), so that its request is made when the value is there; a value that is rejected is
  thrown into the generator without a request.
\<close>

definition verb_call ::
  "(gen_verb \<Rightarrow> 'v \<Rightarrow> 'g \<Rightarrow> 'v async_result \<times> 'g) \<Rightarrow> gen_verb \<Rightarrow> 'v \<Rightarrow> ('g, 'v) async_gen \<Rightarrow> ('g, 'v) async_gen" where
  "verb_call send n v s =
     (let s1 = s\<lparr>gen_queue := gen_queue s @ [(n, v, issued s)], issued := Suc (issued s)\<rparr>
      in if 1 < length (gen_queue s1) then s1 else gen_resume send n v s1)"

datatype 'v async_event = CallNext 'v | CallThrow 'v | ReturnReady 'v | ReturnRejected 'v | Fulfilled 'v | WaitRejected 'v

definition asyncGenerator_step ::
  "(gen_verb \<Rightarrow> 'v \<Rightarrow> 'g \<Rightarrow> 'v async_result \<times> 'g) \<Rightarrow> 'v async_event \<Rightarrow> ('g, 'v) async_gen \<Rightarrow> ('g, 'v) async_gen" where
  "asyncGenerator_step send e s =
     (case e of
        CallNext v \<Rightarrow> verb_call send VNext v s
      | CallThrow v \<Rightarrow> verb_call send VThrow v s
      | ReturnReady v \<Rightarrow> verb_call send VReturn v s
      | ReturnRejected v \<Rightarrow> gen_resume send VThrow v s
      | Fulfilled v \<Rightarrow>
          if gen_waits s = 0 then s else gen_resume send VNext v (s\<lparr>gen_waits := gen_waits s - 1\<rparr>)
      | WaitRejected v \<Rightarrow>
          if gen_waits s = 0 then s else gen_resume send VThrow v (s\<lparr>gen_waits := gen_waits s - 1\<rparr>))"

definition asyncGenerator :: "'g \<Rightarrow> ('g, 'v) async_gen" where
  "asyncGenerator g = \<lparr>inner_gen = g, gen_queue = [], answers = [], gen_waits = 0, gen_broken = False, issued = 0\<rparr>"

text \<open>The promises that were answered, and those in the queue, are all promises in the order they were made.\<close>

definition in_order :: "('g, 'v) async_gen \<Rightarrow> bool" where
  "in_order s \<longleftrightarrow> map fst (answers s) @ map (snd \<circ> snd) (gen_queue s) = [0 ..< issued s]"

lemma resume_queue_answer:
  assumes "send n v g = (a, h)" "\<And>p. a \<noteq> Await p"
    and "resume_queue send (fst r') (fst (snd r')) h (r' # rs) = (g', q', as, w, b)"
  shows "resume_queue send n v g (r # r' # rs) = (g', q', (snd (snd r), a) # as, w, b)"
  using assms by (cases a) auto

lemma resume_queue_spec:
  "resume_queue send n v g q = (g', q', as, w, b) \<Longrightarrow>
     map fst as @ map (snd \<circ> snd) q' = map (snd \<circ> snd) q \<and> (q \<noteq> [] \<longrightarrow> \<not> b \<and> (w \<longleftrightarrow> q' \<noteq> []))"
proof (induction q arbitrary: n v g g' q' as w b)
  case Nil
  then show ?case by (auto split: async_result.splits prod.splits)
next
  case (Cons r q)
  obtain a h where ah: "send n v g = (a, h)" by fastforce
  show ?case
  proof (cases q)
    case Nil
    with Cons.prems ah show ?thesis by (auto split: async_result.splits)
  next
    case q: (Cons r' rs)
    show ?thesis
    proof (cases "\<exists>p. a = Await p")
      case True
      with Cons.prems ah q show ?thesis by auto
    next
      case False
      obtain g1 q1 as1 w1 b1 where r: "resume_queue send (fst r') (fst (snd r')) h (r' # rs) = (g1, q1, as1, w1, b1)"
        by (metis prod_cases5)
      have "(g', q', as, w, b) = (g1, q1, (snd (snd r), a) # as1, w1, b1)"
        using resume_queue_answer [OF ah _ r, of r] False Cons.prems q by simp
      with Cons.IH [unfolded q, OF r] q show ?thesis by simp
    qed
  qed
qed

lemma resume_in_order:
  assumes "in_order s"
  shows "in_order (gen_resume send n v s)"
proof -
  obtain g q as w b where *: "resume_queue send n v (inner_gen s) (gen_queue s) = (g, q, as, w, b)"
    by (metis prod_cases5)
  from resume_queue_spec [OF this] assms * show ?thesis by (simp add: gen_resume_def in_order_def)
qed

lemma verb_call_in_order:
  assumes "in_order s"
  shows "in_order (verb_call send n v s)"
proof -
  have "in_order (s\<lparr>gen_queue := gen_queue s @ [(n, v, issued s)], issued := Suc (issued s)\<rparr>)" (is "in_order ?s")
    using assms by (simp add: in_order_def flip: append_assoc)
  from this resume_in_order [OF this] show ?thesis by (simp add: verb_call_def Let_def del: append_is_Nil_conv) auto
qed

lemma step_in_order:
  assumes "in_order s"
  shows "in_order (asyncGenerator_step send e s)"
proof -
  have "in_order (s\<lparr>gen_waits := k\<rparr>)" for k using assms by (simp add: in_order_def)
  with assms show ?thesis
    by (auto simp: asyncGenerator_step_def verb_call_in_order resume_in_order split: async_event.split)
qed

theorem requests_answered_in_order:
  "\<exists>k. map fst (answers (fold (asyncGenerator_step send) es (asyncGenerator g))) = [0 ..< k]"
proof -
  let ?s = "fold (asyncGenerator_step send) es (asyncGenerator g)"
  have "in_order (fold (asyncGenerator_step send) es s)" if "in_order s" for s
    using that by (induction es arbitrary: s) (simp_all add: step_in_order)
  then have "in_order ?s" by (simp add: in_order_def asyncGenerator_def)
  then have "map fst (answers ?s) = take (length (answers ?s)) [0 ..< issued ?s]"
    by (metis append_eq_conv_conj in_order_def length_map)
  then show ?thesis by (metis add_0 nat_le_linear take_all take_upt length_upt diff_zero)
qed

text \<open>
  Without a rejected return value the generator is at work exactly while a request is open, and nothing
  fails; with one, a generator without requests fails instead of passing the rejection on.
\<close>

definition at_work :: "('g, 'v) async_gen \<Rightarrow> bool" where
  "at_work s \<longleftrightarrow> \<not> gen_broken s \<and> gen_waits s = (if gen_queue s = [] then 0 else 1)"

lemma resume_at_work:
  assumes "gen_queue s \<noteq> []" "gen_waits s = 0" "\<not> gen_broken s"
  shows "at_work (gen_resume send n v s)"
proof -
  obtain g q as w b where *: "resume_queue send n v (inner_gen s) (gen_queue s) = (g, q, as, w, b)"
    by (metis prod_cases5)
  from resume_queue_spec [OF this] assms * show ?thesis by (auto simp: gen_resume_def at_work_def)
qed

lemma verb_call_at_work: "at_work s \<Longrightarrow> at_work (verb_call send n v s)"
  using resume_at_work [of "s\<lparr>gen_queue := gen_queue s @ [(n, v, issued s)], issued := Suc (issued s)\<rparr>"]
  by (cases "gen_queue s = []") (simp_all add: verb_call_def Let_def at_work_def)

theorem step_at_work:
  assumes "at_work s" "\<forall>v. e \<noteq> ReturnRejected v"
  shows "at_work (asyncGenerator_step send e s)"
proof -
  have "at_work (gen_resume send n v (s\<lparr>gen_waits := gen_waits s - 1\<rparr>))" if "gen_waits s \<noteq> 0" for n v
    using assms(1) that by (intro resume_at_work) (auto simp: at_work_def split: if_splits)
  with assms show ?thesis
    by (cases e) (auto simp: asyncGenerator_step_def verb_call_at_work)
qed

theorem rejected_return_breaks_idle:
  assumes "gen_queue s = []" "send VThrow v (inner_gen s) = (Throws v, g')"
  shows "gen_broken (asyncGenerator_step send (ReturnRejected v) s)"
    and "answers (asyncGenerator_step send (ReturnRejected v) s) = answers s"
  using assms by (simp_all add: asyncGenerator_step_def gen_resume_def)

subsection \<open>Delegation and plain iterators\<close>

text \<open>
  \<open>__asyncDelegator\<close>: a call asks the other iterator on every first turn and hands the awaited result over
  on every second. A verb the other iterator does not have is missing, apart from \<open>throw\<close>.
\<close>

datatype 'v delegated = Asks gen_verb 'v | HandsOver 'v | RaisesAgain 'v

definition delegator_call :: "(gen_verb \<Rightarrow> bool) \<Rightarrow> gen_verb \<Rightarrow> 'v \<Rightarrow> bool \<Rightarrow> 'v delegated option \<times> bool" where
  "delegator_call has n v p =
     (if has n
      then (Some (if \<not> p then Asks n v else if n = VThrow then RaisesAgain v else HandsOver v), \<not> p)
      else (if n = VThrow then Some (RaisesAgain v) else None, p))"

text \<open>
  \<open>__asyncValues\<close>: the asynchronous iterator of an object, or its plain iterator whose values are waited
  for. \<open>settle\<close> is what becomes of a value: \<open>Inl\<close> a rejection.
\<close>

datatype 'v iter_call = Missing | Raises 'v | Gives 'v bool

definition values_verb :: "('v \<Rightarrow> 'v + 'v) \<Rightarrow> 'v iter_call \<Rightarrow> ('v + 'v \<times> bool) option" where
  "values_verb settle r =
     (case r of
        Missing \<Rightarrow> None
      | Raises e \<Rightarrow> Some (Inl e)
      | Gives v d \<Rightarrow> Some (case settle v of Inl e \<Rightarrow> Inl e | Inr w \<Rightarrow> Inr (w, d)))"

definition asyncValues ::
  "bool \<Rightarrow> ('v \<Rightarrow> 'v + 'v) \<Rightarrow> ('i \<Rightarrow> gen_verb \<Rightarrow> 'v \<Rightarrow> ('v + 'v \<times> bool) option) option \<Rightarrow> ('i \<Rightarrow> gen_verb \<Rightarrow> 'v \<Rightarrow> 'v iter_call)
    \<Rightarrow> type_error + ('i \<Rightarrow> gen_verb \<Rightarrow> 'v \<Rightarrow> ('v + 'v \<times> bool) option)" where
  "asyncValues has_symbol settle m plain =
     (if \<not> has_symbol then Inl (TypeError ''Symbol.asyncIterator is not defined.'')
      else Inr (case m of Some f \<Rightarrow> f | None \<Rightarrow> \<lambda>i n v. values_verb settle (plain i n v)))"

lemma delegator_round:
  assumes "has VNext"
  shows "delegator_call has VNext v False = (Some (Asks VNext v), True)"
    and "delegator_call has VNext r True = (Some (HandsOver r), False)"
  using assms by (simp_all add: delegator_call_def)

lemma plain_values_awaited:
  assumes "settle v = Inr w" "asyncValues True settle None plain = Inr it" "plain i n x = Gives v d"
  shows "it i n x = Some (Inr (w, d))"
  using assms by (auto simp: asyncValues_def values_verb_def)

section \<open>Generators\<close>

text \<open>
  \<open>__generator\<close>. The compiled body is an argument: from its local state, the label and what was sent it
  gives its new local state, the label it left, the regions it opened and an exception or an instruction.
  The instructions are the code's numbers 0 to 7 in this order. The stacks \<open>trys\<close> and \<open>ops\<close> have their top
  first. An iterator the body delegates to (\<open>y\<close>) is an argument too.
\<close>

datatype ('v, 'i) genop =
    ONext 'v | OThrow 'v | OReturn 'v | OBreak nat | OYield 'v | ODelegate 'i | OCaught 'v | OEndfinally

text \<open>What \<open>_.sent()\<close> gives: a value, an exception, or nothing the body reads.\<close>

datatype 'v sent = SentValue 'v | Thrown 'v | NoSent

record region =
  region_start :: nat
  region_catch :: "nat option"
  region_finally :: "nat option"
  region_end :: nat

record ('l, 'v, 'i) generator =
  gen_locals :: 'l
  gen_label :: nat
  gen_trys :: "region list"
  gen_ops :: "('v, 'i) genop list"
  gen_inner :: "'i option"
  gen_fresh :: bool
  gen_finished :: bool
  gen_executing :: bool

type_synonym ('l, 'v, 'i) gen_body =
  "'l \<Rightarrow> nat \<Rightarrow> 'v sent \<Rightarrow> 'l \<times> nat \<times> region list \<times> ('v + ('v, 'i) genop)"

type_synonym ('v, 'i) gen_iterator = "gen_verb \<Rightarrow> 'v \<Rightarrow> 'i \<Rightarrow> 'v iter_call \<times> 'i"

text \<open>A turn of the loop goes on with an instruction, or leaves the generator with an answer.\<close>

datatype ('v, 'i, 's) turn = Again "('v, 'i) genop" 's | Out "'v async_result" 's

definition run_body ::
  "('l, 'v, 'i) gen_body \<Rightarrow> 'v sent \<Rightarrow> ('l, 'v, 'i) generator \<Rightarrow> ('v, 'i, ('l, 'v, 'i) generator) turn" where
  "run_body body t s =
     (case body (gen_locals s) (gen_label s) t of
        (l, lab, opened, r) \<Rightarrow>
          Again (case r of Inl e \<Rightarrow> OCaught e | Inr op \<Rightarrow> op)
                (s\<lparr>gen_locals := l, gen_label := lab, gen_trys := opened @ gen_trys s\<rparr>))"

definition before :: "nat \<Rightarrow> nat option \<Rightarrow> bool" where
  "before n m = (case m of None \<Rightarrow> False | Some k \<Rightarrow> n < k)"

text \<open>
  The default branch: a jump, a return or an exception meets the innermost open region, if any. It runs
  the region's \<open>finally\<close> part with the instruction put aside, or closes the region.
\<close>

definition leave_region ::
  "('l, 'v, 'i) gen_body \<Rightarrow> ('v, 'i) genop \<Rightarrow> region \<Rightarrow> region list \<Rightarrow> ('l, 'v, 'i) generator
    \<Rightarrow> ('v, 'i, ('l, 'v, 'i) generator) turn" where
  "leave_region body op r rs s =
     (if before (gen_label s) (region_finally r)
      then run_body body NoSent (s\<lparr>gen_label := the (region_finally r), gen_ops := op # gen_ops s\<rparr>)
      else Again op (s\<lparr>gen_ops := (if before 0 (region_finally r) then tl (gen_ops s) else gen_ops s), gen_trys := rs\<rparr>))"

definition gen_unwind ::
  "('l, 'v, 'i) gen_body \<Rightarrow> ('v, 'i) genop \<Rightarrow> ('l, 'v, 'i) generator \<Rightarrow> ('v, 'i, ('l, 'v, 'i) generator) turn" where
  "gen_unwind body op s =
     (case gen_trys s of
        [] \<Rightarrow>
          (case op of
             OCaught e \<Rightarrow> Out (Throws e) (s\<lparr>gen_finished := True\<rparr>)
           | OReturn v \<Rightarrow> Out (Answer v True) (s\<lparr>gen_finished := True\<rparr>)
           | OBreak n \<Rightarrow> run_body body NoSent (s\<lparr>gen_label := n\<rparr>)
           | _ \<Rightarrow> Again op s)
      | r # rs \<Rightarrow>
          (case op of
             OBreak n \<Rightarrow>
               if region_start r < n \<and> n < region_end r then run_body body NoSent (s\<lparr>gen_label := n\<rparr>)
               else leave_region body op r rs s
           | OCaught e \<Rightarrow>
               if before (gen_label s) (region_catch r)
               then run_body body (SentValue e) (s\<lparr>gen_label := the (region_catch r)\<rparr>)
               else leave_region body op r rs s
           | _ \<Rightarrow> leave_region body op r rs s))"

text \<open>
  The \<open>switch\<close>. An \<open>endfinally\<close> takes the instruction that was put aside; if there is none, reading its
  code fails in the next turn, inside the \<open>try\<close>: \<open>terr\<close> is that error.
\<close>

definition gen_switch ::
  "'v \<Rightarrow> 'v \<Rightarrow> ('l, 'v, 'i) gen_body \<Rightarrow> ('v, 'i) genop \<Rightarrow> ('l, 'v, 'i) generator
    \<Rightarrow> ('v, 'i, ('l, 'v, 'i) generator) turn" where
  "gen_switch undef terr body op s =
     (case op of
        ONext v \<Rightarrow> run_body body (SentValue v) s
      | OThrow e \<Rightarrow> run_body body (Thrown e) s
      | OYield v \<Rightarrow> Out (Answer v False) (s\<lparr>gen_label := Suc (gen_label s)\<rparr>)
      | ODelegate i \<Rightarrow> Again (ONext undef) (s\<lparr>gen_label := Suc (gen_label s), gen_inner := Some i\<rparr>)
      | OEndfinally \<Rightarrow>
          Again (case gen_ops s of [] \<Rightarrow> OCaught terr | op' # _ \<Rightarrow> op')
                (s\<lparr>gen_ops := tl (gen_ops s), gen_trys := tl (gen_trys s)\<rparr>)
      | _ \<Rightarrow> gen_unwind body op s)"

text \<open>
  The delegation before it. The iterator is asked with the verb of the request; one without \<open>throw\<close> is
  closed with \<open>return\<close>. An answer that is not the last one leaves the generator, the last one becomes the
  value of the expression, or is returned. Only a request can meet a delegation: every other instruction
  comes from the body, which runs after the delegation has ended.
\<close>

definition ask_inner ::
  "('v, 'i) gen_iterator \<Rightarrow> gen_verb \<Rightarrow> 'v \<Rightarrow> 'i \<Rightarrow> ('v, 'i) genop \<Rightarrow> ('v \<Rightarrow> ('v, 'i) genop) \<Rightarrow> ('l, 'v, 'i) generator
    \<Rightarrow> ('v, 'i, ('l, 'v, 'i) generator) turn" where
  "ask_inner iter n v i op final s =
     (case iter n v i of
        (Missing, _) \<Rightarrow> Again op (s\<lparr>gen_inner := None\<rparr>)
      | (Raises e, _) \<Rightarrow> Again (OCaught e) (s\<lparr>gen_inner := None\<rparr>)
      | (Gives w d, i') \<Rightarrow>
          if d then Again (final w) (s\<lparr>gen_inner := None\<rparr>)
          else Out (Answer w False) (s\<lparr>gen_inner := Some i'\<rparr>))"

definition gen_delegate ::
  "'v \<Rightarrow> ('v, 'i) gen_iterator \<Rightarrow> ('v, 'i) genop \<Rightarrow> 'i \<Rightarrow> ('l, 'v, 'i) generator
    \<Rightarrow> ('v, 'i, ('l, 'v, 'i) generator) turn" where
  "gen_delegate undef iter op i s =
     (case op of
        ONext v \<Rightarrow> ask_inner iter VNext v i op ONext s
      | OReturn v \<Rightarrow> ask_inner iter VReturn v i op OReturn s
      | OThrow e \<Rightarrow>
          (case iter VThrow e i of
             (Missing, _) \<Rightarrow>
               (case iter VReturn undef i of
                  (Raises e', _) \<Rightarrow> Again (OCaught e') (s\<lparr>gen_inner := None\<rparr>)
                | _ \<Rightarrow> Again op (s\<lparr>gen_inner := None\<rparr>))
           | _ \<Rightarrow> ask_inner iter VThrow e i op ONext s)
      | _ \<Rightarrow> Again op (s\<lparr>gen_inner := None\<rparr>))"

definition gen_turn ::
  "'v \<Rightarrow> 'v \<Rightarrow> ('v, 'i) gen_iterator \<Rightarrow> ('l, 'v, 'i) gen_body \<Rightarrow> ('v, 'i) genop \<Rightarrow> ('l, 'v, 'i) generator
    \<Rightarrow> ('v, 'i, ('l, 'v, 'i) generator) turn" where
  "gen_turn undef terr iter body op s =
     (case gen_inner s of
        Some i \<Rightarrow> gen_delegate undef iter op i s
      | None \<Rightarrow> gen_switch undef terr body op s)"

text \<open>The loop need not end: a body may jump for ever. \<open>None\<close> is a call that does not return.\<close>

partial_function (option) gen_loop ::
  "'v \<Rightarrow> 'v \<Rightarrow> ('v, 'i) gen_iterator \<Rightarrow> ('l, 'v, 'i) gen_body \<Rightarrow> ('v, 'i) genop \<Rightarrow> ('l, 'v, 'i) generator
    \<Rightarrow> ('v async_result \<times> ('l, 'v, 'i) generator) option" where
  "gen_loop undef terr iter body op s =
     (case gen_turn undef terr iter body op s of
        Again op' s' \<Rightarrow> gen_loop undef terr iter body op' s'
      | Out a s' \<Rightarrow> Some (a, s'))"

definition gen_answer :: "'v \<Rightarrow> gen_verb \<Rightarrow> 'v \<Rightarrow> 'v async_result" where
  "gen_answer undef n v = (case n of VNext \<Rightarrow> Answer undef True | VThrow \<Rightarrow> Throws v | VReturn \<Rightarrow> Answer v True)"

definition request_op :: "gen_verb \<Rightarrow> 'v \<Rightarrow> ('v, 'i) genop" where
  "request_op n v = (case n of VNext \<Rightarrow> ONext v | VThrow \<Rightarrow> OThrow v | VReturn \<Rightarrow> OReturn v)"

definition generator_step ::
  "'v \<Rightarrow> 'v \<Rightarrow> 'v \<Rightarrow> ('v, 'i) gen_iterator \<Rightarrow> ('l, 'v, 'i) gen_body \<Rightarrow> gen_verb \<Rightarrow> 'v \<Rightarrow> ('l, 'v, 'i) generator
    \<Rightarrow> ('v async_result \<times> ('l, 'v, 'i) generator) option" where
  "generator_step undef terr running iter body n v s =
     (if gen_executing s then Some (Throws running, s)
      else let s1 = s\<lparr>gen_fresh := False, gen_finished := gen_finished s \<or> gen_fresh s \<and> n \<noteq> VNext\<rparr>
           in if gen_finished s1 then Some (gen_answer undef n v, s1)
              else gen_loop undef terr iter body (request_op n v) s1)"

definition generator_of :: "'l \<Rightarrow> ('l, 'v, 'i) generator" where
  "generator_of l =
     \<lparr>gen_locals = l, gen_label = 0, gen_trys = [], gen_ops = [], gen_inner = None,
      gen_fresh = True, gen_finished = False, gen_executing = False\<rparr>"

lemmas gen_defs = gen_turn_def gen_switch_def gen_unwind_def leave_region_def run_body_def

lemma gen_loop_out:
  "gen_turn undef terr iter body op s = Out a s' \<Longrightarrow> gen_loop undef terr iter body op s = Some (a, s')"
  by (simp add: gen_loop.simps)

lemma gen_loop_again:
  "gen_turn undef terr iter body op s = Again op' s' \<Longrightarrow>
     gen_loop undef terr iter body op s = gen_loop undef terr iter body op' s'"
  by (simp add: gen_loop.simps)

text \<open>A generator that has ended answers every request by itself and never runs its body again.\<close>

theorem finished_generator_stays:
  assumes "gen_finished s" "\<not> gen_executing s" "\<not> gen_fresh s"
  shows "generator_step undef terr running iter body n v s = Some (gen_answer undef n v, s)"
  using assms by (simp add: generator_step_def)

theorem unstarted_generator_closed:
  assumes "n \<noteq> VNext"
  shows "map_option fst (generator_step undef terr running iter body n v (generator_of l)) = Some (gen_answer undef n v)"
  using assms by (simp add: generator_step_def generator_of_def)

text \<open>
  A generator that waits inside a \<open>try\<close> with a \<open>finally\<close> part runs that part when it is told to return,
  and then returns.
\<close>

theorem return_runs_finally:
  assumes "gen_trys s = [r]" "region_finally r = Some k" "gen_label s < k"
    and "gen_inner s = None" "\<not> gen_finished s" "\<not> gen_fresh s" "\<not> gen_executing s"
    and "body (gen_locals s) k NoSent = (l, lab, [], Inr OEndfinally)"
  shows "\<exists>s'. generator_step undef terr running iter body VReturn v s = Some (Answer v True, s')
              \<and> gen_locals s' = l \<and> gen_finished s'"
proof -
  define s1 where "s1 = s\<lparr>gen_fresh := False, gen_finished := False\<rparr>"
  define s2 where "s2 = s1\<lparr>gen_label := lab, gen_ops := OReturn v # gen_ops s, gen_locals := l\<rparr>"
  define s3 where "s3 = s2\<lparr>gen_ops := gen_ops s, gen_trys := []\<rparr>"
  have t1: "gen_turn undef terr iter body (OReturn v) s1 = Again OEndfinally s2"
    using assms by (simp add: gen_defs before_def s1_def s2_def)
  have t2: "gen_turn undef terr iter body OEndfinally s2 = Again (OReturn v) s3"
    using assms by (simp add: gen_defs s1_def s2_def s3_def)
  have t3: "gen_turn undef terr iter body (OReturn v) s3 = Out (Answer v True) (s3\<lparr>gen_finished := True\<rparr>)"
    using assms by (simp add: gen_defs s1_def s2_def s3_def)
  have "generator_step undef terr running iter body VReturn v s = gen_loop undef terr iter body (OReturn v) s1"
    using assms by (simp add: generator_step_def request_op_def s1_def)
  also have "\<dots> = Some (Answer v True, s3\<lparr>gen_finished := True\<rparr>)"
    by (simp add: gen_loop_again [OF t1] gen_loop_again [OF t2] gen_loop_out [OF t3])
  finally show ?thesis by (simp add: s3_def s2_def)
qed

text \<open>A body that yields a list of values, one at each label, gives them in order and then ends.\<close>

definition yield_all :: "'v \<Rightarrow> 'v list \<Rightarrow> ('l, 'v, 'i) gen_body" where
  "yield_all undef vs l lab t = (l, lab, [], Inr (if lab < length vs then OYield (vs ! lab) else OReturn undef))"

definition at_yield :: "nat \<Rightarrow> ('l, 'v, 'i) generator \<Rightarrow> bool" where
  "at_yield k s \<longleftrightarrow> gen_label s = k \<and> gen_trys s = [] \<and> gen_inner s = None \<and> \<not> gen_finished s \<and> \<not> gen_executing s"

lemma yield_all_next:
  assumes "at_yield k s" "k < length vs"
  shows "\<exists>s'. generator_step undef terr running iter (yield_all undef vs) VNext v s = Some (Answer (vs ! k) False, s')
              \<and> at_yield (Suc k) s'"
  using assms
  by (simp add: generator_step_def request_op_def at_yield_def gen_loop.simps gen_defs yield_all_def)

lemma yield_all_end:
  assumes "at_yield (length vs) s"
  shows "\<exists>s'. generator_step undef terr running iter (yield_all undef vs) VNext v s = Some (Answer undef True, s')
              \<and> gen_finished s'"
  using assms
  by (simp add: generator_step_def request_op_def at_yield_def gen_loop.simps gen_defs yield_all_def)

text \<open>Calling \<open>next\<close> again and again collects the values, until the generator has ended.\<close>

fun next_calls ::
  "'v \<Rightarrow> 'v \<Rightarrow> 'v \<Rightarrow> ('v, 'i) gen_iterator \<Rightarrow> ('l, 'v, 'i) gen_body \<Rightarrow> nat \<Rightarrow> ('l, 'v, 'i) generator \<Rightarrow> 'v async_result list option" where
  "next_calls undef terr running iter body 0 s = Some []"
| "next_calls undef terr running iter body (Suc n) s =
     (case generator_step undef terr running iter body VNext undef s of
        None \<Rightarrow> None
      | Some (a, s') \<Rightarrow> map_option ((#) a) (next_calls undef terr running iter body n s'))"

lemma yield_all_calls:
  assumes "at_yield k s" "n + k = length vs"
  shows "next_calls undef terr running iter (yield_all undef vs) (Suc n) s
           = Some (map (\<lambda>v. Answer v False) (drop k vs) @ [Answer undef True])"
  using assms
proof (induction n arbitrary: k s)
  case 0
  with yield_all_end [of vs s undef terr running iter undef] show ?case by auto
next
  case (Suc n)
  then have k: "k < length vs" by simp
  from yield_all_next [OF Suc.prems(1) k] obtain s'
    where s': "generator_step undef terr running iter (yield_all undef vs) VNext undef s = Some (Answer (vs ! k) False, s')"
      "at_yield (Suc k) s'" by blast
  have "drop k vs = vs ! k # drop (Suc k) vs" using k by (simp add: Cons_nth_drop_Suc)
  then show ?case using Suc.IH [OF s'(2)] Suc.prems s'(1) by (simp del: next_calls.simps(2) add: next_calls.simps(2) [of _ _ _ _ _ "Suc n"])
qed

theorem values_yielded_in_order:
  "next_calls undef terr running iter (yield_all undef vs) (Suc (length vs)) (generator_of l)
     = Some (map (\<lambda>v. Answer v False) vs @ [Answer undef True])"
  using yield_all_calls [of 0 "generator_of l" "length vs" vs] by (simp add: at_yield_def generator_of_def)

end
