(* ===== verification/Repo_Tests.thy ===== *)
theory Repo_Tests imports Ssh_Properties Livewire_Failure Session_Timer begin

text \<open>
  The repository's own tests, run on the model: \<^verbatim>\<open>docker/coolify-realtime/terminal-utils.test.js\<close>,
  \<^verbatim>\<open>resources/js/livewire-request-failure.test.js\<close> and \<^verbatim>\<open>resources/js/terminal.test.js\<close>. Each lemma is one test
  with its inputs and expectations, evaluated by the kernel from the definitions that model the tested
  functions; they tie the model to behaviour the authors of the code have written down.
\<close>

section \<open>terminal-utils.test.js\<close>

text \<open>The commands of the tests, with the script that ends them.\<close>

definition script :: "string \<Rightarrow> string" where
  "script delimiter = BASH_SE @ '' << '' @ delimiter @ [LF] @ ''echo hi'' @ [LF] @ ''abc''"

definition generated_options :: string where
  "generated_options =
     ''-i /var/www/html/storage/app/ssh/keys/ssh_key@cm123 -o StrictHostKeyChecking=no -o UserKnownHostsFile=/dev/null '' @
     ''-o PasswordAuthentication=no -o ConnectTimeout=10 -o ServerAliveInterval=20 -o RequestTTY=no -o LogLevel=ERROR ''"

definition generated_words :: "string list" where
  "generated_words =
     [''-i'', ''/var/www/html/storage/app/ssh/keys/ssh_key@cm123'', ''-o'', ''StrictHostKeyChecking=no'',
      ''-o'', ''UserKnownHostsFile=/dev/null'', ''-o'', ''PasswordAuthentication=no'', ''-o'', ''ConnectTimeout=10'',
      ''-o'', ''ServerAliveInterval=20'', ''-o'', ''RequestTTY=yes'', ''-o'', ''LogLevel=ERROR'']"

definition quoted :: "string \<Rightarrow> string" where
  "quoted s = [SQ] @ s @ [SQ]"

lemma test_target_host_of_quoted_command:
  "extractTargetHost (extractSshArgs
     (''timeout 3600 ssh -o StrictHostKeyChecking=no -o UserKnownHostsFile=/dev/null -o LogLevel=ERROR -o ServerAliveInterval=20 '' @
      ''-o ConnectTimeout=10 '' @ quoted ''root'' @ ''@'' @ quoted ''10.0.0.5'' @ script ([BSL, BSL] @ ''$abc'')))
   = Some ''10.0.0.5''"
  by code_simp

lemma test_quotes_stripped:
  "take 5 (extractSshArgs
     (''timeout 3600 ssh -p '' @ quoted ''22'' @ '' -o StrictHostKeyChecking=no '' @ quoted ''root'' @ ''@'' @ quoted ''10.0.0.5'' @
      script ([BSL, BSL] @ ''$abc'')))
   = [''-p'', ''22'', ''-o'', ''StrictHostKeyChecking=no'', ''root@10.0.0.5'']"
  by code_simp

lemma test_proxy_command_one_word:
  "let args = extractSshArgs
     (''timeout 3600 ssh -o ProxyCommand='' @ quoted ''cloudflared access ssh --hostname %h'' @ '' -o StrictHostKeyChecking=no '' @
      quoted ''root'' @ ''@'' @ quoted ''example.com'' @ script ([BSL, BSL] @ ''$abc''))
   in args ! 1 = ''ProxyCommand=cloudflared access ssh --hostname %h'' \<and> args ! 4 = ''root@example.com''"
  by code_simp

lemma test_authorized_hosts:
  "isAuthorizedTargetHost (Some (quoted ''10.0.0.5'')) [''10.0.0.5'']"
  "isAuthorizedTargetHost (Some ([DQ] @ ''host.docker.internal'' @ [DQ])) [''host.docker.internal'']"
  "normalizeHostForAuthorization (Some (quoted ''[2001:db8::10]'')) = Some ''2001:db8::10''"
  "isAuthorizedTargetHost (Some (quoted ''[2001:db8::10]'')) [''2001:db8::10'']"
  "\<not> isAuthorizedTargetHost (Some (quoted ''10.0.0.9'')) [''10.0.0.5'']"
  by code_simp+

lemma quoted_arguments:
  "extractSshArgs
     (''timeout 3600 ssh '' @ generated_options @ ''-p '' @ quoted ''22'' @ '' '' @ quoted ''root'' @ ''@'' @ quoted ''10.0.0.5'' @
      script ([BSL] @ ''$abc''))
   = generated_words @ [''-p'', ''22'', ''root@10.0.0.5'']"
  by code_simp

lemma test_generated_arguments_accepted:
  "validateSshArgs (extractSshArgs
     (''timeout 3600 ssh '' @ generated_options @ ''-p '' @ quoted ''22'' @ '' '' @ quoted ''root'' @ ''@'' @ quoted ''10.0.0.5'' @
      script ([BSL] @ ''$abc''))) [''10.0.0.5'']"
  unfolding quoted_arguments by (simp add: generated_words_def ssh_eval)

lemma test_injected_proxy_command:
  "\<not> validateSshArgs (extractSshArgs
     (''timeout 300 ssh -o '' @ quoted ''ProxyCommand=/bin/busybox id >/tmp/marker'' @ '' root@10.0.0.5'' @
      BASH_SE @ '' << '' @ [BSL] @ ''ENDSSH'' @ [LF] @ ''ENDSSH'')) [''10.0.0.5'']"
  by code_simp

text \<open>The arguments of the command with a proxy, and the same with something appended to it.\<close>

lemma proxied_arguments:
  "extractSshArgs
     (''timeout 3600 ssh -o ProxyCommand='' @ quoted ''cloudflared access ssh --hostname %h'' @ '' '' @ generated_options @
      ''-p 22 root@example.com'' @ script ([BSL] @ ''$abc''))
   = [''-o'', ''ProxyCommand=cloudflared access ssh --hostname %h''] @ generated_words @ [''-p'', ''22'', ''root@example.com'']"
  by code_simp

lemma test_only_fixed_proxy_command:
  "let args = extractSshArgs
     (''timeout 3600 ssh -o ProxyCommand='' @ quoted ''cloudflared access ssh --hostname %h'' @ '' '' @ generated_options @
      ''-p 22 root@example.com'' @ script ([BSL] @ ''$abc''))
   in validateSshArgs args [''example.com'']
      \<and> \<not> validateSshArgs (args[1 := ''ProxyCommand=cloudflared access ssh --hostname %h; id'']) [''example.com'']"
  unfolding proxied_arguments by (simp add: generated_words_def ssh_eval)

lemma base_arguments:
  "extractSshArgs (''timeout 3600 ssh '' @ generated_options @ ''-p 22 root@10.0.0.5'' @ script ([BSL] @ ''$abc''))
   = generated_words @ [''-p'', ''22'', ''root@10.0.0.5'']"
  by code_simp

lemma test_unknown_options_and_key_paths:
  "let args = extractSshArgs (''timeout 3600 ssh '' @ generated_options @ ''-p 22 root@10.0.0.5'' @ script ([BSL] @ ''$abc''))
   in \<not> validateSshArgs ([''-F'', ''/tmp/config''] @ args) [''10.0.0.5'']
      \<and> \<not> validateSshArgs ([''-i'', ''/tmp/attacker-key''] @ drop 2 args) [''10.0.0.5'']"
  unfolding base_arguments by (simp add: generated_words_def ssh_eval)

lemma evil_arguments:
  "extractSshArgs (''timeout 3600 ssh '' @ generated_options @ ''-p 22 -evil@10.0.0.5'' @ script ([BSL] @ ''$abc''))
   = generated_words @ [''-p'', ''22'', ''-evil@10.0.0.5'']"
  by code_simp

lemma test_destination_like_an_option:
  "\<not> validateSshArgs (extractSshArgs
     (''timeout 3600 ssh '' @ generated_options @ ''-p 22 -evil@10.0.0.5'' @ script ([BSL] @ ''$abc''))) [''10.0.0.5'']"
  unfolding evil_arguments by (simp add: generated_words_def ssh_eval)

lemma multiplexed_arguments:
  "extractSshArgs
     (''timeout 3600 ssh -o ControlMaster=auto -o ControlPath=/var/www/html/storage/app/ssh/mux/mux_cm123 -o ControlPersist=3600 '' @
      generated_options @ ''-p 22 root@10.0.0.5'' @ script ([BSL] @ ''$abc''))
   = [''-o'', ''ControlMaster=auto'', ''-o'', ''ControlPath=/var/www/html/storage/app/ssh/mux/mux_cm123'',
      ''-o'', ''ControlPersist=3600''] @ generated_words @ [''-p'', ''22'', ''root@10.0.0.5'']"
  by code_simp

lemma test_multiplexing_removed:
  "let args = extractSshArgs
     (''timeout 3600 ssh -o ControlMaster=auto -o ControlPath=/var/www/html/storage/app/ssh/mux/mux_cm123 -o ControlPersist=3600 '' @
      generated_options @ ''-p 22 root@10.0.0.5'' @ script ([BSL] @ ''$abc''))
   in validateSshArgs args [''10.0.0.5''] \<and> sanitizeSshArgs args = generated_words @ [''-p'', ''22'', ''root@10.0.0.5'']"
  unfolding multiplexed_arguments by (simp add: generated_words_def ssh_eval)

lemma test_session_timeout: "getTerminalSessionTimeout = MAX_TERMINAL_SESSION_TIMEOUT_SECONDS"
  by (rule getTerminalSessionTimeout_def)

section \<open>livewire-request-failure.test.js\<close>

text \<open>
  The harness: a clock that starts at 100000, trusted or synthetic clicks, and requests that fail as soon
  as they are sent.
\<close>

datatype harness_call = Gesture bool | Advance int | FailWith nat

fun harness :: "harness_call list \<Rightarrow> int \<times> page \<Rightarrow> int \<times> page" where
  "harness [] h = h"
| "harness (Gesture trusted # cs) (now, p) = harness cs (now, page_step p (DomEvent ''click'' trusted now))"
| "harness (Advance ms # cs) (now, p) = harness cs (now + ms, p)"
| "harness (FailWith status # cs) (now, p) =
     harness cs (now, page_step (page_step p (RequestSent 0 now)) (RequestFailed 0 now status (JStr ''<html>proxy error</html>'')))"

definition calls :: "harness_call list \<Rightarrow> page_effect list" where
  "calls cs = effects (snd (harness cs (100000, page_init)))"

definition count_prevented :: "page_effect list \<Rightarrow> nat" where
  "count_prevented es = length (filter (\<lambda>e. e = PreventDefault) es)"

lemmas failure_eval =
  calls_def count_prevented_def page_init_def markUserGesture_def gesture_of_request_def handleFailure_def at_least_after_def clip_content_def
  INFRASTRUCTURE_FAILURE_STATUSES_def USER_GESTURE_EVENTS_def GESTURE_WINDOW_MS_def WARN_COOLDOWN_MS_def
  WARN_CONTENT_MAX_LENGTH_def

lemma test_failure_after_gesture:
  "count_prevented (calls [Gesture True, FailWith 504]) = 1" "length (toasts (calls [Gesture True, FailWith 504])) = 1"
  by (simp_all add: failure_eval)

lemma test_background_failure:
  "calls [FailWith 524] = [PreventDefault, Warn 100000 524 (JStr ''<html>proxy error</html>'')]"
  by (simp add: failure_eval)

lemma test_one_toast_per_gesture:
  "length (toasts (calls [Gesture True, FailWith 504, FailWith 504])) = 1"
  "length (toasts (calls [Gesture True, FailWith 504, FailWith 504, Advance 8000, Gesture True, FailWith 504])) = 2"
  by (simp_all add: failure_eval)

lemma test_outside_gesture_window: "toasts (calls [Gesture True, Advance (GESTURE_WINDOW_MS + 1), FailWith 504]) = []"
  by (simp add: failure_eval)

lemma test_untrusted_gesture: "toasts (calls [Gesture False, FailWith 504]) = []"
  by (simp add: failure_eval)

lemma test_warnings_throttled:
  "length (warn_times (calls [FailWith 502, FailWith 504])) = 1"
  "length (warn_times (calls [FailWith 502, FailWith 504, Advance 10000, FailWith 504])) = 2"
  by (simp_all add: failure_eval)

lemma test_warning_truncated:
  "snd (handleFailure 0 502 (JStr (replicate 5000 (CHR ''x''))) None (failures page_init)) =
     [PreventDefault, Warn 0 502 (JStr (replicate 2000 (CHR ''x'')))]"
  by (simp add: failure_eval)

lemma test_all_infrastructure_statuses:
  "count_prevented (calls (map FailWith INFRASTRUCTURE_FAILURE_STATUSES)) = length INFRASTRUCTURE_FAILURE_STATUSES"
  by (simp add: failure_eval)

lemma test_other_failures: "calls (Gesture True # map FailWith [401, 419, 422, 429, 500]) = []"
  by (simp add: failure_eval)

section \<open>terminal.test.js\<close>

lemma test_remaining_time:
  "MAX_TERMINAL_SESSION_SECONDS = 8 * 60 * 60"
  "formatTerminalSessionRemainingTime (of_int MAX_TERMINAL_SESSION_SECONDS) = ''8h 00m 00s''"
  "formatTerminalSessionRemainingTime (7 * 60 * 60 + 59 * 60 + 59) = ''7h 59m 59s''"
  "formatTerminalSessionRemainingTime (65 * 60) = ''1h 05m 00s''"
  "formatTerminalSessionRemainingTime 59 = ''0m 59s''"
  "formatTerminalSessionRemainingTime 0 = ''expired''"
  by (simp_all add: formatTerminalSessionRemainingTime_def MAX_TERMINAL_SESSION_SECONDS_def show_nat.simps digit_char_def
      pad_start_def Let_def)
    code_simp+

end
