(* ===== verification/Server_Polite.thy ===== *)
theory Server_Polite imports Server_Log begin

text \<open>
  The server among clients that keep to its protocol. A client that sends other messages can end the
  server (\<open>malformed_command_crashes_server\<close>); here the messages of the protocol are defined, and no
  run in which every connection keeps to them and has a user id of its own, and the backend names the hosts
  as an array of strings, ends it.
\<close>

section \<open>The protocol\<close>

fun protocol_entry :: "string \<Rightarrow> json \<Rightarrow> bool" where
  "protocol_entry k (JStr t) = (k = ''message'' \<or> k = ''checkActive'' \<and> t = ''force'')"
| "protocol_entry k (JBool b) = (b \<and> k \<in> {''ping'', ''pause'', ''resume''})"
| "protocol_entry k (JObj kvs) =
     (k = ''resize'' \<and> map fst kvs = [''cols'', ''rows''] \<and> list_all (\<lambda>kv. \<exists>n. snd kv = JNum (of_int n)) kvs)"
| "protocol_entry k (JArr vs) = (k = ''command'' \<and> command_text (JArr vs) \<noteq> None)"
| "protocol_entry k _ = False"

definition protocol_message :: "json \<Rightarrow> bool" where
  "protocol_message m \<longleftrightarrow> (case m of JObj [(k, v)] \<Rightarrow> protocol_entry k v | _ \<Rightarrow> False)"

definition polite_text :: "string \<Rightarrow> bool" where
  "polite_text t \<longleftrightarrow> (case parseMessage t of None \<Rightarrow> False | Some m \<Rightarrow> protocol_message m)"

lemma polite_textE:
  assumes "polite_text t"
  obtains k v where "parseMessage t = Some (JObj [(k, v)])" "protocol_entry k v"
proof -
  from assms obtain m where m: "parseMessage t = Some m" "protocol_message m"
    by (auto simp: polite_text_def split: option.splits)
  then obtain k v kvs where "m = JObj ((k, v) # kvs)"
    by (auto simp: protocol_message_def split: json.splits list.splits)
  with m that show thesis by (cases kvs) (auto simp: protocol_message_def)
qed

lemma protocol_handler:
  assumes "protocol_entry k v"
  obtains "k = ''message''" | "k = ''checkActive''" | "k = ''ping''" | "k = ''pause''" | "k = ''resume''"
    | "k = ''resize''" "v \<noteq> JNull" | "k = ''command''" "command_text v \<noteq> None"
  using assms by (cases v) auto

section \<open>The invariant\<close>

text \<open>A pending termination that does nothing to the register of sessions.\<close>

definition tame :: "kill_cont \<Rightarrow> bool" where
  "tame c = (case c of KIgnore \<Rightarrow> True | KDelete uid \<Rightarrow> False | KCommand ws command \<Rightarrow> command_text command \<noteq> None)"

definition ident :: "server \<Rightarrow> nat \<Rightarrow> string option" where
  "ident s cid = map_option userId (sessions s cid)"

definition calm :: "server \<Rightarrow> bool" where
  "calm s \<longleftrightarrow> \<not> crashed s \<and> \<not> rejected s"

definition register_ok :: "server \<Rightarrow> bool" where
  "register_ok s \<longleftrightarrow>
     (\<forall>cid p i. mail s cid = Some (p, True, i) \<longrightarrow> live_socket s cid \<longrightarrow> userSessions s (the (ident s cid)) = Some cid)
     \<and> (\<forall>uid cid. userSessions s uid = Some cid \<longrightarrow> ident s cid = Some uid)
     \<and> (\<forall>c d. ident s c = ident s d \<longrightarrow> ident s c \<noteq> None \<longrightarrow> c = d)"

definition tasks_ok :: "server \<Rightarrow> bool" where
  "tasks_ok s \<longleftrightarrow> (\<forall>kid t. kills s kid = Some t \<longrightarrow>
     tame (kt_cont t) \<or> (\<exists>uid cid. kt_cont t = KDelete uid \<and> ident s cid = Some uid \<and> \<not> live_socket s cid))"

definition mail_ok :: "server \<Rightarrow> bool" where
  "mail_ok s \<longleftrightarrow> (\<forall>cid p r i. mail s cid = Some (p, r, i) \<longrightarrow> list_all polite_text p \<and> host_list i \<noteq> None)"

definition polite_inv :: "server \<Rightarrow> bool" where
  "polite_inv s \<longleftrightarrow> server_inv s \<and> calm s \<and> register_ok s \<and> tasks_ok s \<and> mail_ok s"

text \<open>Actions that touch neither the register nor what it depends on.\<close>

definition keeps :: "server \<Rightarrow> server \<Rightarrow> bool" where
  "keeps s t \<longleftrightarrow> userSessions t = userSessions s \<and> live_socket t = live_socket s \<and> ident t = ident s \<and> mail t = mail s
     \<and> (\<forall>kid k. kills t kid = Some k \<longrightarrow> kills s kid = Some k \<or> tame (kt_cont k)) \<and> (calm s \<longrightarrow> calm t)"

lemma keeps_refl [simp]: "keeps s s"
  by (simp add: keeps_def)

lemma keeps_trans: "keeps s t \<Longrightarrow> keeps t u \<Longrightarrow> keeps s u"
  unfolding keeps_def by metis

lemma keeps_polite: "polite_inv s \<Longrightarrow> keeps s t \<Longrightarrow> server_inv t \<Longrightarrow> polite_inv t"
proof -
  assume p: "polite_inv s" and k: "keeps s t" and i: "server_inv t"
  have eq: "userSessions t = userSessions s" "live_socket t = live_socket s" "ident t = ident s" "mail t = mail s"
    using k by (simp_all add: keeps_def)
  have "register_ok t" "mail_ok t"
    using p unfolding polite_inv_def register_ok_def mail_ok_def eq by blast+
  moreover have "tasks_ok t"
    unfolding tasks_ok_def eq
  proof (intro allI impI)
    fix kid x assume "kills t kid = Some x"
    with k have "kills s kid = Some x \<or> tame (kt_cont x)" by (simp add: keeps_def)
    then show "tame (kt_cont x) \<or> (\<exists>uid cid. kt_cont x = KDelete uid \<and> ident s cid = Some uid \<and> \<not> live_socket s cid)"
      using p unfolding polite_inv_def tasks_ok_def by blast
  qed
  ultimately show ?thesis using p k i by (simp add: polite_inv_def keeps_def)
qed

named_theorems keeps_intros \<open>actions that keep the register\<close>

lemma live_socket_cong: "sockets t = sockets s \<Longrightarrow> live_socket t = live_socket s"
  by (simp add: live_socket_def fun_eq_iff)

lemma ident_cong: "sessions t = sessions s \<Longrightarrow> ident t = ident s"
  by (simp add: ident_def fun_eq_iff)

lemma keeps_plain:
  assumes "userSessions t = userSessions s" "sockets t = sockets s" "ident t = ident s" "mail t = mail s"
    "kills t = kills s" "crashed t = crashed s" "rejected t = rejected s"
  shows "keeps s t"
  using assms live_socket_cong [OF assms(2)] by (simp add: keeps_def calm_def)

lemma keeps_send [keeps_intros]: "keeps s (ws_send c x s)"
  by (rule keeps_plain; (rule ident_cong)?; simp add: mail_frame)

lemma keeps_pty_do [keeps_intros]: "pid \<noteq> None \<Longrightarrow> keeps s (pty_do pid x s)"
  by (rule keeps_plain; (rule ident_cong)?; auto simp: mail_frame pty_do_def)

lemma keeps_handled [keeps_intros]: "keeps s (s\<lparr>handled := h\<rparr>)"
  by (rule keeps_plain; (rule ident_cong)?; simp add: mail_frame)

lemma keeps_timers [keeps_intros]: "keeps s (s\<lparr>server.timers := h\<rparr>)"
  by (rule keeps_plain; (rule ident_cong)?; simp add: mail_frame)

lemma ident_upd_session: "(\<And>x. userId (f x) = userId x) \<Longrightarrow> ident (upd_session c f s) = ident s"
  by (auto simp: ident_def fun_eq_iff option.map_comp comp_def)

lemma keeps_clear_timer [keeps_intros]: "keeps s (clear_session_timer c s)"
proof (rule keeps_plain)
  show "ident (clear_session_timer c s) = ident s"
    by (auto simp: ident_def fun_eq_iff sessions_clear_timer option.map_comp comp_def)
qed (simp_all add: mail_frame)

lemma keeps_spawn [keeps_intros]: "keeps s (spawn_pty ws cid args s)"
proof (rule keeps_plain)
  show "ident (spawn_pty ws cid args s) = ident s"
    by (auto simp: ident_def fun_eq_iff sessions_spawn option.map_comp comp_def)
qed (simp_all add: mail_frame)

lemma mail_ok_hosts: "mail_ok s \<Longrightarrow> sessions s cid = Some ss \<Longrightarrow> host_list (authorizedIPs ss) \<noteq> None"
  unfolding mail_ok_def mail_def by (metis (no_types, lifting) option.map(2))

lemma keeps_run_command:
  assumes "command_text command \<noteq> None" "sessions s cid = Some ss" "host_list (authorizedIPs ss) \<noteq> None"
  shows "keeps s (run_command ws cid command s)"
  using assms keeps_clear_timer [of s cid] check_target_total [OF assms(3)]
  by (auto simp: run_command_def Let_def session_of_def sessions_clear_timer intro: keeps_trans [OF _ keeps_send] keeps_trans [OF _ keeps_spawn] split: option.split)

lemma keeps_attemptKill:
  assumes "sessions s cid = Some ss" "ptyProcess ss \<noteq> None" "tame cont"
  shows "keeps s (attemptKill cid k cont s)"
proof -
  let ?s = "pty_do (ptyProcess ss) (PWrite (JStr KILL_TEXT)) s"
  have "keeps s ?s" using assms(2) by (rule keeps_pty_do)
  moreover have "keeps ?s (attemptKill cid k cont s)"
    using assms by (auto simp: keeps_def attemptKill_def Let_def session_of_def calm_def mail_frame
        ident_def live_socket_def mail_def fun_eq_iff)
  ultimately show ?thesis by (rule keeps_trans)
qed

section \<open>Messages\<close>

text \<open>A kill that is asked for while the session is registered.\<close>

lemma keeps_kill:
  assumes "userSessions s uid = Some cid" "sessions s cid = Some ss" "tame cont" "cont = KIgnore \<or> ptyProcess ss \<noteq> None"
  shows "keeps s (killPtyProcess uid cont s)"
  using assms keeps_attemptKill [OF assms(2) _ assms(3)]
  by (auto simp: killPtyProcess_def session_of_def kill_resolve_def)

lemma active_process:
  assumes "server_inv s" "sessions s cid = Some ss" "isActive ss"
  shows "ptyProcess ss \<noteq> None"
  using assms unfolding server_inv_def active_ok_def by blast

lemma keeps_handleCommand:
  assumes "server_inv s" "userSessions s uid = Some cid" "sessions s cid = Some ss" "mail_ok s" "command_text v \<noteq> None"
  shows "keeps s (handleCommand ws v uid s)"
  using assms active_process [OF assms(1,3)] keeps_kill [OF assms(2,3), of "KCommand ws v"]
    keeps_run_command [OF assms(5,3) mail_ok_hosts [OF assms(4,3)]]
  by (auto simp: handleCommand_def session_of_def tame_def)

lemma keeps_call_handler:
  assumes inv: "server_inv s" "mail_ok s" and ss: "sessions s cid = Some ss" "userSessions s (userId ss) = Some cid"
    and m: "protocol_entry k v" "messageHandlers k = Some h" "isActive ss \<or> always_handled k"
  shows "keeps s (call_handler h cid v s)"
proof -
  note active = active_process [OF inv(1) ss(1)]
  have kill: "keeps s (killPtyProcess (userId ss) KIgnore s)"
    using keeps_kill [OF ss(2,1), of KIgnore] by (simp add: tame_def)
  note simps = m(2,3) messageHandlers_def always_handled_def call_handler_def session_of_def ss(1)
  from m(1) show ?thesis
    by (cases rule: protocol_handler)
      (use m(2,3) active kill in \<open>auto simp: simps Let_def intro: keeps_intros keeps_handleCommand [OF inv(1) ss(2,1) inv(2)]\<close>)
qed

lemma keeps_handleMessage:
  assumes inv: "server_inv s" "mail_ok s" and ss: "sessions s cid = Some ss" "userSessions s (userId ss) = Some cid"
    and t: "polite_text t"
  shows "keeps s (handleMessage cid t s)"
proof -
  let ?s = "s\<lparr>handled := handled s @ [(cid, t)]\<rparr>"
  from t obtain k v where m: "parseMessage t = Some (JObj [(k, v)])" "protocol_entry k v" by (rule polite_textE)
  have h: "keeps s ?s" by (rule keeps_handled)
  have "mail_ok ?s" using inv(2) by (simp add: mail_ok_def mail_frame)
  then have "keeps ?s (handle_entry cid (k, v) ?s)"
    using keeps_call_handler [of ?s cid ss k v] m(2) ss inv_handled [OF inv(1)]
    by (auto simp: handle_entry_def session_of_def split: option.split)
  with h have "keeps s (handle_entry cid (k, v) ?s)" by (rule keeps_trans)
  then show ?thesis by (simp add: handleMessage_def Let_def m(1))
qed

lemma polite_handleMessage:
  assumes "polite_inv s" "sessions s cid = Some ss" "userSessions s (userId ss) = Some cid" "polite_text t"
  shows "polite_inv (handleMessage cid t s)"
  using assms keeps_polite [OF assms(1) keeps_handleMessage [OF _ _ assms(2-4)]] inv_handleMessage
  by (simp add: polite_inv_def)

text \<open>The loop that drains a mailbox of such messages, for a session that is registered.\<close>

lemma mail_ident: "mail s cid = Some x \<Longrightarrow> \<exists>ss. sessions s cid = Some ss \<and> ident s cid = Some (userId ss)"
  by (auto simp: mail_def ident_def)

lemma polite_set_pending:
  assumes "polite_inv s" "mail s cid = Some (p, r, i)" "list_all polite_text ms"
  shows "polite_inv (upd_session cid (\<lambda>x. x\<lparr>pendingMessages := ms\<rparr>) s)" (is "polite_inv ?t")
proof -
  have m: "mail ?t = (mail s)(cid \<mapsto> (ms, r, i))" using assms(2) by (rule mail_set_pending)
  have e: "userSessions ?t = userSessions s" "ident ?t = ident s" "kills ?t = kills s" "calm ?t = calm s"
    by (simp_all add: ident_upd_session calm_def)
  have l: "live_socket ?t = live_socket s" by (rule live_socket_cong) simp
  have "register_ok ?t" using assms(1,2) unfolding polite_inv_def register_ok_def m e l by auto
  moreover have "mail_ok ?t" using assms unfolding polite_inv_def mail_ok_def m by auto
  moreover have "tasks_ok ?t" using assms(1) unfolding polite_inv_def tasks_ok_def e l by blast
  moreover have "server_inv ?t" using assms(1) inv_pending [of s cid "\<lambda>_. ms"] by (simp add: polite_inv_def)
  ultimately show ?thesis using assms(1) e(4) by (simp add: polite_inv_def)
qed

lemma polite_drain_rule:
  assumes pending: "\<And>s ms. J s \<Longrightarrow> J (upd_session cid (\<lambda>x. x\<lparr>pendingMessages := ms\<rparr>) s)"
    and handle: "\<And>s ss m. polite_inv s \<Longrightarrow> J s \<Longrightarrow> sessions s cid = Some ss \<Longrightarrow> userSessions s (userId ss) = Some cid \<Longrightarrow>
      polite_text m \<Longrightarrow> J (handleMessage cid m s)"
  shows "polite_inv s \<Longrightarrow> J s \<Longrightarrow> mail s cid = Some (ms, r, i) \<Longrightarrow> userSessions s (the (ident s cid)) = Some cid \<Longrightarrow>
    polite_inv (drain cid ms s) \<and> J (drain cid ms s)"
proof (induction ms arbitrary: s)
  case (Cons m ms)
  let ?u = "upd_session cid (\<lambda>x. x\<lparr>pendingMessages := ms\<rparr>) s"
  have p: "polite_text m" "list_all polite_text ms" using Cons.prems unfolding polite_inv_def mail_ok_def by fastforce+
  have u: "polite_inv ?u" using polite_set_pending Cons.prems p by blast
  have mu: "mail ?u cid = Some (ms, r, i)" using mail_set_pending [OF Cons.prems(3)] by simp
  have iu: "ident ?u = ident s" by (simp add: ident_upd_session)
  obtain ss where ss: "sessions ?u cid = Some ss" "ident ?u cid = Some (userId ss)" using mail_ident [OF mu] by blast
  have us: "userSessions ?u (userId ss) = Some cid" using Cons.prems(4) ss(2) iu by simp
  have k: "keeps ?u (handleMessage cid m ?u)"
    using keeps_handleMessage [OF _ _ ss(1) us p(1)] u by (simp add: polite_inv_def)
  then have "mail (handleMessage cid m ?u) = mail ?u" "ident (handleMessage cid m ?u) = ident s"
    "userSessions (handleMessage cid m ?u) = userSessions s" using iu by (simp_all add: keeps_def)
  moreover have "J (handleMessage cid m ?u)" using handle [OF u pending [OF Cons.prems(2)] ss(1) us p(1)] .
  ultimately have "polite_inv (drain cid ms (handleMessage cid m ?u)) \<and> J (drain cid ms (handleMessage cid m ?u))"
    using Cons.IH [OF polite_handleMessage [OF u ss(1) us p(1)]] mu Cons.prems(4) by simp
  then show ?case using Cons.prems(1) by (simp add: polite_inv_def calm_def)
qed simp

section \<open>Events\<close>

lemma polite_delete:
  assumes "polite_inv s" "ident s cid = Some uid" "\<not> live_socket s cid"
  shows "polite_inv (s\<lparr>userSessions := (userSessions s)(uid := None)\<rparr>)" (is "polite_inv ?t")
proof -
  have e: "mail ?t = mail s" "ident ?t = ident s" "live_socket ?t = live_socket s" "kills ?t = kills s" "calm ?t = calm s"
    by (simp_all add: mail_def ident_def live_socket_def calm_def fun_eq_iff)
  have "register_ok ?t" unfolding register_ok_def e
  proof (intro conjI allI impI)
    fix c p i assume c: "mail s c = Some (p, True, i)" "live_socket s c"
    then have "userSessions s (the (ident s c)) = Some c" using assms(1) unfolding polite_inv_def register_ok_def by blast
    moreover have "the (ident s c) \<noteq> uid"
      using c assms mail_ident [OF c(1)] unfolding polite_inv_def register_ok_def by (metis option.sel option.distinct(1))
    ultimately show "userSessions ?t (the (ident s c)) = Some c" by simp
  next
    fix u c assume "userSessions ?t u = Some c"
    then show "ident s c = Some u" using assms(1) unfolding polite_inv_def register_ok_def by (auto split: if_splits)
  next
    fix c d assume "ident s c = ident s d" "ident s c \<noteq> None"
    then show "c = d" using assms(1) unfolding polite_inv_def register_ok_def by blast
  qed
  moreover have "tasks_ok ?t" "mail_ok ?t" using assms(1) unfolding polite_inv_def tasks_ok_def mail_ok_def e by blast+
  moreover have "server_inv ?t" using assms(1) inv_unset_user by (simp add: polite_inv_def)
  ultimately show ?thesis using assms(1) e(5) by (simp add: polite_inv_def)
qed

lemma polite_drop_task:
  assumes "polite_inv s"
  shows "polite_inv (s\<lparr>kills := (kills s)(kid := None)\<rparr>)" (is "polite_inv ?t")
proof (rule keeps_polite [OF assms])
  show "server_inv ?t" using assms inv_unset_kill by (simp add: polite_inv_def)
qed (auto simp: keeps_def mail_def ident_def live_socket_def calm_def fun_eq_iff split: if_splits)

lemma polite_attempt:
  assumes "polite_inv s" "sessions s c = Some ss" "authReady ss" "ptyProcess ss \<noteq> None"
    and "tame cont \<or> cont = KDelete uid \<and> ident s cid = Some uid \<and> \<not> live_socket s cid"
  shows "polite_inv (attemptKill c k cont s)"
proof -
  have i: "server_inv (attemptKill c k cont s)"
    using assms(1-4) by (auto simp: polite_inv_def intro: inv_attemptKill)
  have e: "mail (attemptKill c k cont s) = mail s" "ident (attemptKill c k cont s) = ident s"
    "live_socket (attemptKill c k cont s) = live_socket s" "userSessions (attemptKill c k cont s) = userSessions s"
    "calm (attemptKill c k cont s) = calm s"
    using assms(2,4)
    by (auto simp: attemptKill_def Let_def mail_def ident_def live_socket_def calm_def fun_eq_iff session_of_def pty_do_def)
  have "kills (attemptKill c k cont s) =
      (kills s)(next_id s \<mapsto> \<lparr>kt_session = c, kt_attempts = Suc k, kt_cont = cont\<rparr>)"
    by (simp add: attemptKill_def Let_def)
  then have "tasks_ok (attemptKill c k cont s)"
    using assms(1,5) unfolding polite_inv_def tasks_ok_def e by auto
  moreover have "register_ok (attemptKill c k cont s)" "mail_ok (attemptKill c k cont s)"
    using assms(1) unfolding polite_inv_def register_ok_def mail_ok_def e by blast+
  ultimately show ?thesis using i assms(1) e(5) by (simp add: polite_inv_def)
qed

lemma polite_kill:
  assumes inv: "polite_inv s"
    and cont: "cont = KIgnore \<or> cont = KDelete uid \<and> ident s cid = Some uid \<and> \<not> live_socket s cid"
  shows "polite_inv (killPtyProcess uid cont s)"
proof -
  have r: "polite_inv (kill_resolve c cont False s)" for c
    using assms by (auto simp: kill_resolve_def intro: polite_delete)
  show ?thesis
  proof (cases "userSessions s uid")
    case None
    with r show ?thesis by (simp add: killPtyProcess_def)
  next
    case (Some c)
    then obtain ss where ss: "sessions s c = Some ss" "authReady ss" "session_of s c = ss"
      using inv map_session unfolding polite_inv_def by blast
    have t: "tame cont \<or> cont = KDelete uid \<and> ident s cid = Some uid \<and> \<not> live_socket s cid"
      using cont by (auto simp: tame_def)
    show ?thesis using r Some ss polite_attempt [OF inv ss(1,2) _ t] by (simp add: killPtyProcess_def)
  qed
qed

lemma polite_resolve:
  assumes inv: "polite_inv s" and cont: "tame cont \<or> cont = KDelete uid \<and> ident s cid = Some uid \<and> \<not> live_socket s cid"
    and ok: "ok \<Longrightarrow> \<exists>ss. sessions s c = Some ss \<and> authReady ss \<and> \<not> isActive ss"
  shows "polite_inv (kill_resolve c cont ok s)"
proof (cases cont)
  case (KCommand ws command)
  then have "command_text command \<noteq> None" using cont by (auto simp: tame_def)
  then have "keeps s (run_command ws c command s)" if ok
    using ok [OF that] inv keeps_run_command mail_ok_hosts unfolding polite_inv_def by blast
  moreover have "server_inv (kill_resolve c cont ok s)"
    using inv ok by (intro inv_kill_resolve) (auto simp: polite_inv_def)
  ultimately show ?thesis
    using inv KCommand by (intro keeps_polite [OF inv]) (auto simp: kill_resolve_def intro: keeps_intros)
qed (use assms polite_delete in \<open>auto simp: kill_resolve_def tame_def\<close>)

lemma polite_kill_check:
  assumes inv: "polite_inv s"
  shows "polite_inv (kill_check kid s)"
proof (cases "kills s kid")
  case (Some t)
  let ?c = "kt_session t" and ?s = "s\<lparr>kills := (kills s)(kid := None)\<rparr>"
  obtain ss where ss: "sessions s ?c = Some ss" "authReady ss" "ptyProcess ss \<noteq> None"
    using inv Some unfolding polite_inv_def server_inv_def kill_ok_def by blast
  obtain uid cid where t: "tame (kt_cont t) \<or> kt_cont t = KDelete uid \<and> ident s cid = Some uid \<and> \<not> live_socket s cid"
    using inv Some unfolding polite_inv_def tasks_ok_def by blast
  have p: "polite_inv ?s" using inv by (rule polite_drop_task)
  let ?u = "clear_session_timer ?c ?s"
  show ?thesis
  proof (cases "isActive ss")
    case True
    have "polite_inv (attemptKill ?c k (kt_cont t) ?s)" for k
      using p ss t by (intro polite_attempt [where uid = uid and cid = cid]) (simp_all add: ident_def live_socket_def)
    moreover have "polite_inv (kill_resolve ?c (kt_cont t) False ?s)"
      using p t by (intro polite_resolve [where uid = uid and cid = cid]) (simp_all add: ident_def live_socket_def)
    ultimately show ?thesis using Some True ss by (auto simp: kill_check_def Let_def session_of_def)
  next
    case False
    have u: "server_inv ?u" using p ss False by (intro inv_clear_timer) (auto simp: polite_inv_def)
    have k: "keeps ?s ?u" by (rule keeps_clear_timer)
    then have e: "ident ?u = ident s" "live_socket ?u = live_socket s"
      by (simp_all add: keeps_def ident_def live_socket_def fun_eq_iff)
    have "polite_inv (kill_resolve ?c (kt_cont t) True ?u)"
      using keeps_polite [OF p k u] t ss False
      by (intro polite_resolve [where uid = uid and cid = cid]) (auto simp: e sessions_clear_timer)
    then show ?thesis using Some False ss by (simp add: kill_check_def Let_def session_of_def)
  qed
qed (use inv in \<open>simp add: kill_check_def\<close>)

text \<open>Sockets: only the close event makes a connection one that is no longer live.\<close>

lemma keeps_sockets:
  assumes "\<And>c. live_socket t c = live_socket s c" "sessions t = sessions s" "userSessions t = userSessions s"
    "kills t = kills s" "crashed t = crashed s" "rejected t = rejected s"
  shows "keeps s t"
  using assms mail_cong [OF assms(2)] ident_cong [OF assms(2)] by (simp add: keeps_def calm_def fun_eq_iff)

lemma live_upd_socket:
  "(\<And>k. sockets s c = Some k \<Longrightarrow> sock_state (f k) = Closed \<longleftrightarrow> sock_state k = Closed) \<Longrightarrow>
     live_socket (upd_socket c f s) d = live_socket s d"
  by (cases "sockets s c") (auto simp: live_socket_def upd_socket_def)

lemma live_ws_send [simp]: "live_socket (ws_send c x s) d = live_socket s d"
  by (simp add: live_socket_def)

lemma keeps_ws_close: "keeps s (ws_close c n r s)"
  by (rule keeps_sockets) (simp_all add: ws_close_def live_upd_socket)

lemma keeps_heartbeat: "keeps s (on_heartbeat cs s)"
proof -
  have "keeps s (heartbeat_client c s)" for c s
  proof (rule keeps_sockets)
    show "live_socket (heartbeat_client c s) d = live_socket s d" for d
      by (cases "sockets s c") (auto simp: heartbeat_client_def live_socket_def upd_socket_def ws_send_def)
  qed (auto simp: heartbeat_client_def split: option.split)
  then show ?thesis unfolding on_heartbeat_def
    by (induction cs arbitrary: s) (auto intro: keeps_trans)
qed

lemma keeps_pong: "keeps s (on_pong c s)"
  by (rule keeps_sockets) (simp_all add: on_pong_def live_upd_socket)

lemma keeps_pty_exit: "keeps s (on_pty_exit pid s)"
proof (cases "ptys s pid")
  case (Some p)
  let ?s = "ws_send (pty_ws p) (OText ''pty-exited'') (s\<lparr>ptys := (ptys s)(pid \<mapsto> p\<lparr>pty_live := False\<rparr>)\<rparr>)"
  let ?t = "upd_session (pty_owner p) (\<lambda>x. x\<lparr>isActive := False\<rparr>) ?s"
  have "keeps s ?t"
  proof (rule keeps_plain)
    have "ident ?t = ident ?s" by (rule ident_upd_session) simp
    also have "\<dots> = ident s" by (rule ident_cong) simp
    finally show "ident ?t = ident s" .
  qed (simp_all add: mail_frame mail_upd_session)
  from keeps_trans [OF this keeps_clear_timer] show ?thesis using Some by (simp add: on_pty_exit_def Let_def)
qed (simp add: on_pty_exit_def)

lemma polite_close_socket:
  assumes "polite_inv s"
  shows "polite_inv (upd_socket c (\<lambda>k. k\<lparr>sock_state := Closed\<rparr>) s)" (is "polite_inv ?t")
proof -
  have l: "live_socket ?t d \<longleftrightarrow> live_socket s d \<and> d \<noteq> c" for d
    by (cases "sockets s c") (auto simp: live_socket_def upd_socket_def)
  have e: "mail ?t = mail s" "ident ?t = ident s" "userSessions ?t = userSessions s" "kills ?t = kills s" "calm ?t = calm s"
    by (simp_all add: mail_def ident_def calm_def fun_eq_iff)
  have "register_ok ?t" "tasks_ok ?t" "mail_ok ?t"
    using assms unfolding polite_inv_def register_ok_def tasks_ok_def mail_ok_def l e by blast+
  then show ?thesis using assms inv_upd_socket e(5) by (simp add: polite_inv_def)
qed

lemma polite_on_close:
  assumes "polite_inv s" "sessions s c = Some ss"
  shows "polite_inv (on_close c s)"
proof -
  let ?t = "upd_socket c (\<lambda>k. k\<lparr>sock_state := Closed\<rparr>) s"
  have "ident ?t c = Some (userId ss)" "\<not> live_socket ?t c"
    using assms(2) by (cases "sockets s c"; simp add: ident_def live_socket_def upd_socket_def)+
  then have "polite_inv (killPtyProcess (userId ss) (KDelete (userId ss)) ?t)"
    using polite_kill [OF polite_close_socket [OF assms(1)]] by blast
  then show ?thesis using assms(2) by (simp add: on_close_def handleClose_def session_of_def)
qed

lemma polite_on_message:
  assumes "polite_inv s" "sessions s c = Some ss" "live_socket s c" "polite_text t"
  shows "polite_inv (on_message c t s)"
proof (cases "authReady ss")
  case True
  then have "userSessions s (userId ss) = Some c"
    using assms(1-3) unfolding polite_inv_def register_ok_def by (force simp: mail_def ident_def)
  then show ?thesis using True assms polite_handleMessage by (simp add: on_message_def session_of_def)
next
  case False
  have m: "mail s c = Some (pendingMessages ss, False, authorizedIPs ss)" using False assms(2) by (simp add: mail_def)
  then have "list_all polite_text (pendingMessages ss @ [t])"
    using assms(1,4) unfolding polite_inv_def mail_ok_def by fastforce
  from polite_set_pending [OF assms(1) m this]
  have "polite_inv (upd_session c (\<lambda>x. x\<lparr>pendingMessages := pendingMessages ss @ [t]\<rparr>) s)" .
  moreover have "upd_session c (\<lambda>x. x\<lparr>pendingMessages := pendingMessages x @ [t]\<rparr>) s =
      upd_session c (\<lambda>x. x\<lparr>pendingMessages := pendingMessages ss @ [t]\<rparr>) s"
    using assms(2) by (simp add: upd_session_def)
  ultimately show ?thesis using False assms(2) by (simp add: on_message_def session_of_def)
qed

text \<open>The session is registered when its hosts have come.\<close>

definition authorized :: "nat \<Rightarrow> json \<Rightarrow> server \<Rightarrow> server" where
  "authorized c ips s =
     (let u = upd_session c (\<lambda>x. x\<lparr>awaitingIps := False\<rparr>) s in
      upd_session c (\<lambda>x. x\<lparr>authorizedIPs := ips, authReady := True\<rparr>)
        (u\<lparr>userSessions := (userSessions u)(userId (session_of u c) \<mapsto> c)\<rparr>))"

lemma on_ips_cases:
  assumes "sessions s c = Some ss"
  shows "on_ips c r s =
    (case fetch_ips r of
       None \<Rightarrow> ws_close c 1011 ''Failed to fetch terminal authorization data'' (upd_session c (\<lambda>x. x\<lparr>awaitingIps := False\<rparr>) s)
     | Some ips \<Rightarrow> drain c (pendingMessages ss) (authorized c ips s))"
  using assms by (simp add: on_ips_def authorized_def Let_def session_of_def split: option.split)

lemma authorized_facts:
  assumes ss: "sessions s c = Some ss"
  shows "mail (authorized c ips s) = (mail s)(c \<mapsto> (pendingMessages ss, True, ips))"
    "ident (authorized c ips s) = ident s" "live_socket (authorized c ips s) = live_socket s"
    "userSessions (authorized c ips s) = (userSessions s)(userId ss \<mapsto> c)"
    "kills (authorized c ips s) = kills s" "calm (authorized c ips s) = calm s"
    "ptys (authorized c ips s) = ptys s" "handled (authorized c ips s) = handled s"
  using ss by (auto simp: authorized_def Let_def mail_def ident_def live_socket_def calm_def session_of_def fun_eq_iff)

lemma polite_authorized:
  assumes inv: "polite_inv s" and ss: "sessions s c = Some ss" "awaitingIps ss" and hosts: "host_list ips \<noteq> None"
  shows "polite_inv (authorized c ips s)"
proof -
  let ?u = "upd_session c (\<lambda>x. x\<lparr>awaitingIps := False\<rparr>) s" and ?t = "authorized c ips s"
  note t = authorized_facts [OF ss(1), of ips]
  have n: "\<not> authReady ss" using inv ss unfolding polite_inv_def server_inv_def wait_ok_def by blast
  have "server_inv ?u" using inv inv_awaiting by (simp add: polite_inv_def)
  from inv_authorize [OF this, of c] have "server_inv ?t"
    using ss n by (simp add: authorized_def Let_def session_of_def)
  moreover have ids: "ident s c = Some (userId ss)" using ss by (simp add: ident_def)
  have reg: "register_ok s" using inv by (simp add: polite_inv_def)
  have "register_ok ?t" unfolding register_ok_def t
  proof (intro conjI allI impI)
    fix d p i assume d: "((mail s)(c \<mapsto> (pendingMessages ss, True, ips))) d = Some (p, True, i)" "live_socket s d"
    show "((userSessions s)(userId ss \<mapsto> c)) (the (ident s d)) = Some d"
    proof (cases "d = c")
      case False
      with d have "mail s d = Some (p, True, i)" by simp
      moreover from this have "the (ident s d) \<noteq> userId ss"
        using False reg mail_ident [of s d] ids unfolding register_ok_def by (metis option.sel option.distinct(1))
      ultimately show ?thesis using d(2) reg unfolding register_ok_def by simp
    qed (simp add: ids)
  next
    fix uid d assume "((userSessions s)(userId ss \<mapsto> c)) uid = Some d"
    then show "ident s d = Some uid" using reg ids unfolding register_ok_def by (auto split: if_splits)
  next
    fix a b assume "ident s a = ident s b" "ident s a \<noteq> None"
    then show "a = b" using reg unfolding register_ok_def by blast
  qed
  moreover have "tasks_ok ?t" using inv unfolding polite_inv_def tasks_ok_def t by simp
  moreover have "mail s c = Some (pendingMessages ss, authReady ss, authorizedIPs ss)" using ss(1) by (simp add: mail_def)
  then have "mail_ok ?t" using inv hosts unfolding polite_inv_def mail_ok_def t by auto
  ultimately show ?thesis using inv t(6) by (simp add: polite_inv_def)
qed

text \<open>The backend answers with an array of strings, or refuses.\<close>

definition fair_reply :: "http_reply \<Rightarrow> bool" where
  "fair_reply r = (case fetch_ips r of None \<Rightarrow> True | Some v \<Rightarrow> host_list v \<noteq> None)"

text \<open>Any further property that the buffered messages keep, one by one, holds when they are handled.\<close>

lemma polite_ips_rule:
  assumes inv: "polite_inv s" and ss: "sessions s c = Some ss" "awaitingIps ss"
    and fair: "fair_reply r"
    and J: "J (ws_close c 1011 ''Failed to fetch terminal authorization data'' (upd_session c (\<lambda>x. x\<lparr>awaitingIps := False\<rparr>) s))"
      "\<And>ips. J (authorized c ips s)"
    and pending: "\<And>s ms. J s \<Longrightarrow> J (upd_session c (\<lambda>x. x\<lparr>pendingMessages := ms\<rparr>) s)"
    and handle: "\<And>s ss m. polite_inv s \<Longrightarrow> J s \<Longrightarrow> sessions s c = Some ss \<Longrightarrow> userSessions s (userId ss) = Some c \<Longrightarrow>
      polite_text m \<Longrightarrow> J (handleMessage c m s)"
  shows "polite_inv (on_ips c r s) \<and> J (on_ips c r s)"
proof (cases "fetch_ips r")
  case None
  let ?u = "upd_session c (\<lambda>x. x\<lparr>awaitingIps := False\<rparr>) s"
  have ku: "keeps s ?u" by (rule keeps_plain) (simp_all add: mail_upd_session ident_upd_session)
  have iu: "server_inv ?u" using inv inv_awaiting by (simp add: polite_inv_def)
  from keeps_polite [OF keeps_polite [OF inv ku iu] keeps_ws_close inv_ws_close [OF iu]]
  show ?thesis using None J(1) by (simp add: on_ips_cases [OF ss(1)])
next
  case (Some ips)
  with fair have hosts: "host_list ips \<noteq> None" by (simp add: fair_reply_def)
  have reg: "userSessions (authorized c ips s) (the (ident (authorized c ips s) c)) = Some c"
    and mail: "mail (authorized c ips s) c = Some (pendingMessages ss, True, ips)"
    using ss(1) by (simp_all add: authorized_facts [OF ss(1)] ident_def)
  have "polite_inv (drain c (pendingMessages ss) (authorized c ips s)) \<and> J (drain c (pendingMessages ss) (authorized c ips s))"
    by (rule polite_drain_rule [where J = J]) (fact pending handle polite_authorized [OF inv ss hosts] J(2) mail reg)+
  with Some show ?thesis by (simp add: on_ips_cases [OF ss(1)])
qed

lemma polite_on_ips:
  assumes "polite_inv s" "sessions s c = Some ss" "awaitingIps ss" "fair_reply r"
  shows "polite_inv (on_ips c r s)"
  using polite_ips_rule [OF assms, of "\<lambda>_. True"] by simp

text \<open>A connection with a user id of its own is a new, unregistered session.\<close>

definition fresh_user :: "server \<Rightarrow> string \<Rightarrow> bool" where
  "fresh_user s uid \<longleftrightarrow> (\<forall>cid. ident s cid \<noteq> Some uid)"

lemma polite_on_connection:
  assumes inv: "polite_inv s" and ok: "event_ok s (Connection c uid k)" and fresh: "fresh_user s uid"
  shows "polite_inv (on_connection c uid k s)"
proof -
  let ?t = "on_connection c uid k s"
  have new: "sessions s c = None" "sockets s c = None" "has_tokens k" using ok by simp_all
  have id: "ident ?t = (ident s)(c \<mapsto> uid)" using new by (simp add: on_connection_def ident_def fun_eq_iff new_session_def)
  have m: "mail ?t = (mail s)(c \<mapsto> ([], False, JArr []))"
    using new by (simp add: on_connection_def mail_def fun_eq_iff new_session_def)
  have l: "live_socket ?t d \<longleftrightarrow> d = c \<or> live_socket s d" for d
    using new by (simp add: on_connection_def live_socket_def)
  have e: "userSessions ?t = userSessions s" "kills ?t = kills s" "calm ?t = calm s"
    using new by (simp_all add: on_connection_def calm_def)
  have none: "ident s c = None" "mail s c = None" using new by (simp_all add: ident_def mail_def)
  have reg: "register_ok s" and tasks: "tasks_ok s" and mails: "mail_ok s" using inv by (simp_all add: polite_inv_def)
  have "register_ok ?t" unfolding register_ok_def id m l e
    using reg fresh none unfolding register_ok_def fresh_user_def by (auto split: if_splits)
  moreover have "tasks_ok ?t" unfolding tasks_ok_def id l e
  proof (intro allI impI)
    fix kid x assume "kills s kid = Some x"
    with tasks consider "tame (kt_cont x)" | u d where "kt_cont x = KDelete u" "ident s d = Some u" "\<not> live_socket s d"
      unfolding tasks_ok_def by blast
    then show "tame (kt_cont x) \<or> (\<exists>u d. kt_cont x = KDelete u \<and> ((ident s)(c \<mapsto> uid)) d = Some u \<and> \<not> (d = c \<or> live_socket s d))"
    proof cases
      case 2
      then have "d \<noteq> c" using none by auto
      with 2 show ?thesis by auto
    qed blast
  qed
  moreover have "mail_ok ?t" unfolding mail_ok_def m using mails unfolding mail_ok_def by (auto simp: host_list_def)
  moreover have "server_inv ?t" using inv ok react_inv [of s "Connection c uid k"] by (simp add: polite_inv_def)
  ultimately show ?thesis using inv e(3) by (simp add: polite_inv_def)
qed

text \<open>
  The events of clients that keep to the protocol: their texts are messages of the protocol, a
  connection draws a user id that no session has had, and the hosts the backend names are a list of strings.
\<close>

fun polite_ok :: "server \<Rightarrow> event \<Rightarrow> bool" where
  "polite_ok s (Connection cid uid c) = (event_ok s (Connection cid uid c) \<and> fresh_user s uid)"
| "polite_ok s (IpsReply cid r) = (event_ok s (IpsReply cid r) \<and> fair_reply r)"
| "polite_ok s (Message cid t) = (event_ok s (Message cid t) \<and> polite_text t)"
| "polite_ok s e = event_ok s e"

lemma polite_event: "polite_ok s e \<Longrightarrow> event_ok s e"
  by (cases e) auto

lemma polite_react:
  assumes inv: "polite_inv s" and ok: "polite_ok s e"
  shows "polite_inv (react e s)"
proof -
  have i: "server_inv (react e s)" using inv polite_event [OF ok] react_inv by (simp add: polite_inv_def)
  note plain = keeps_polite [OF inv _ i]
  show ?thesis
  proof (cases e)
    case (SessionTimer tid)
    have "keeps s (s\<lparr>server.timers := (server.timers s)(tid := None)\<rparr>)" by (rule keeps_timers)
    from keeps_polite [OF inv this] have "polite_inv (s\<lparr>server.timers := (server.timers s)(tid := None)\<rparr>)"
      using inv inv_timers by (simp add: polite_inv_def)
    then show ?thesis using SessionTimer inv
      by (auto simp: on_session_timeout_def intro: polite_kill split: option.split)
  next
    case (PtyData pid d)
    with plain show ?thesis by (auto simp: on_pty_data_def keeps_send inv split: option.splits)
  qed (use inv ok plain in \<open>auto simp: on_error_def handleError_def keeps_heartbeat keeps_pong keeps_pty_exit
      intro: polite_on_connection polite_on_ips polite_on_message polite_on_close polite_kill polite_kill_check
      split: option.splits\<close>)
qed

lemma polite_step: "polite_inv s \<Longrightarrow> polite_ok s e \<Longrightarrow> polite_inv (server_step s e)"
  using polite_react [of s e] by (simp add: server_step_def end_turn_def polite_inv_def calm_def)

interpretation polite: invariant_machine server_step polite_ok polite_inv
  by unfold_locales (rule polite_step)

lemma polite_init: "polite_inv server_init"
  using server_inv_init
  by (simp add: polite_inv_def calm_def register_ok_def tasks_ok_def mail_ok_def mail_def ident_def server_init_def)

end
