(* ===== verification/Server_Origin.thy ===== *)
theory Server_Origin imports Server_Polite begin

text \<open>
  Where the terminals of the server come from. Among clients that keep to the protocol every terminal
  belongs to the connection whose message asked for it, and runs the command line read from that message:
  a command that waits for an older terminal to end is not forgotten, mixed up or invented.
\<close>

section \<open>Commands and terminals\<close>

definition wanted :: "server \<Rightarrow> nat \<Rightarrow> json \<Rightarrow> bool" where
  "wanted s ws c \<longleftrightarrow> (\<exists>t. (ws, t) \<in> set (handled s) \<and> parseMessage t = Some (JObj [(''command'', c)]))"

definition command_line :: "json \<Rightarrow> string list" where
  "command_line c =
     (let line = replace_char LF SP (the (command_text c)) in sanitizeSshArgs (extractSshArgs line) @ [extractHereDocContent line])"

definition pty_origin :: "server \<Rightarrow> pty \<Rightarrow> bool" where
  "pty_origin s p \<longleftrightarrow> pty_owner p = pty_ws p \<and> (\<exists>c. wanted s (pty_ws p) c \<and> pty_args p = command_line c)"

definition task_origin :: "server \<Rightarrow> kill_task \<Rightarrow> bool" where
  "task_origin s k \<longleftrightarrow> (\<forall>ws c. kt_cont k = KCommand ws c \<longrightarrow> kt_session k = ws \<and> wanted s ws c)"

definition origin_inv :: "server \<Rightarrow> bool" where
  "origin_inv s \<longleftrightarrow> (\<forall>pid p. ptys s pid = Some p \<longrightarrow> pty_origin s p) \<and> (\<forall>kid k. kills s kid = Some k \<longrightarrow> task_origin s k)"

lemma wanted_mono: "wanted s ws c \<Longrightarrow> set (handled s) \<subseteq> set (handled t) \<Longrightarrow> wanted t ws c"
  by (auto simp: wanted_def)

text \<open>Actions that start nothing: terminals keep whose they are and what they run, and commands that wait were waiting.\<close>

definition pty_label :: "server \<Rightarrow> nat \<Rightarrow> (nat \<times> nat \<times> string list) option" where
  "pty_label s pid = map_option (\<lambda>p. (pty_owner p, pty_ws p, pty_args p)) (ptys s pid)"

definition quiet :: "server \<Rightarrow> server \<Rightarrow> bool" where
  "quiet s t \<longleftrightarrow> pty_label t = pty_label s \<and> (\<forall>kid k. kills t kid = Some k \<longrightarrow> kills s kid = Some k)
     \<and> set (handled s) \<subseteq> set (handled t)"

lemma quiet_origin:
  assumes "origin_inv s" "quiet s t"
  shows "origin_inv t"
proof -
  have w: "wanted s ws c \<Longrightarrow> wanted t ws c" for ws c using assms(2) wanted_mono by (auto simp: quiet_def)
  have "pty_origin t p" if p: "ptys t pid = Some p" for pid p
  proof -
    have "pty_label s pid = pty_label t pid" using assms(2) by (simp add: quiet_def)
    then obtain q where "ptys s pid = Some q" "pty_owner q = pty_owner p" "pty_ws q = pty_ws p" "pty_args q = pty_args p"
      using p by (auto simp: pty_label_def)
    then show ?thesis using assms(1) w unfolding origin_inv_def pty_origin_def by metis
  qed
  moreover have "task_origin t k" if "kills t kid = Some k" for kid k
    using assms that w unfolding origin_inv_def quiet_def task_origin_def by blast
  ultimately show ?thesis by (simp add: origin_inv_def)
qed

lemma quiet_trans: "quiet s t \<Longrightarrow> quiet t u \<Longrightarrow> quiet s u"
  unfolding quiet_def by (metis subset_trans)

lemma quiet_same: "ptys t = ptys s \<Longrightarrow> kills t = kills s \<Longrightarrow> handled t = handled s \<Longrightarrow> quiet s t"
  by (simp add: quiet_def pty_label_def fun_eq_iff)

lemma quiet_pty_do: "quiet s (pty_do pid x s)"
  by (auto simp: quiet_def pty_label_def pty_do_def fun_eq_iff option.map_comp comp_def split: option.split)

lemma quiet_pty_exit: "quiet s (on_pty_exit pid s)"
  by (auto simp: quiet_def pty_label_def on_pty_exit_def Let_def fun_eq_iff split: option.split)

lemma quiet_heartbeat: "quiet s (on_heartbeat cs s)"
proof -
  have "quiet s (heartbeat_client c s)" for c s
    by (rule quiet_same) (simp_all add: heartbeat_client_def split: option.split)
  then show ?thesis unfolding on_heartbeat_def
    by (induction cs arbitrary: s) (auto intro: quiet_trans simp: quiet_same)
qed

section \<open>Starting and ending\<close>

lemma origin_spawn:
  assumes "origin_inv s" "wanted s ws c" "args = command_line c"
  shows "origin_inv (spawn_pty ws ws args s)"
proof -
  have "wanted (spawn_pty ws ws args s) = wanted s" by (simp add: wanted_def fun_eq_iff)
  then show ?thesis
    using assms unfolding origin_inv_def pty_origin_def task_origin_def by (auto simp: ptys_spawn split: if_splits)
qed

lemma origin_run_command:
  assumes "origin_inv s" "wanted s ws c" "command_text c \<noteq> None"
  shows "origin_inv (run_command ws ws c s)"
proof -
  obtain words where words: "command_text c = Some words" using assms(3) by blast
  let ?s = "clear_session_timer ws s" and ?line = "replace_char LF SP words"
  have s: "origin_inv ?s" by (rule quiet_origin [OF assms(1)], rule quiet_same) simp_all
  have "wanted ?s ws c" using assms(2) by (rule wanted_mono) simp
  then have "origin_inv (spawn_pty ws ws (sanitizeSshArgs (extractSshArgs ?line) @ [extractHereDocContent ?line]) ?s)"
    using s words by (intro origin_spawn [where c = c]) (simp_all add: command_line_def Let_def)
  moreover have "origin_inv (ws_send ws x ?s)" for x by (rule quiet_origin [OF s], rule quiet_same) simp_all
  moreover have "origin_inv (reject ?s)" by (rule quiet_origin [OF s], rule quiet_same) (simp_all add: reject_def)
  ultimately show ?thesis by (simp add: run_command_def Let_def words split: option.split)
qed

definition cont_origin :: "server \<Rightarrow> nat \<Rightarrow> kill_cont \<Rightarrow> bool" where
  "cont_origin s cid cont \<longleftrightarrow> (\<forall>ws c. cont = KCommand ws c \<longrightarrow> cid = ws \<and> wanted s ws c \<and> command_text c \<noteq> None)"

lemma origin_attemptKill:
  assumes "origin_inv s" "cont_origin s cid cont"
  shows "origin_inv (attemptKill cid k cont s)"
proof -
  let ?s = "pty_do (ptyProcess (session_of s cid)) (PWrite (JStr KILL_TEXT)) s"
  have s: "origin_inv ?s" using quiet_origin [OF assms(1) quiet_pty_do] .
  have w: "wanted (attemptKill cid k cont s) = wanted s" "wanted ?s = wanted s"
    by (simp_all add: wanted_def fun_eq_iff mail_frame attemptKill_def Let_def)
  show ?thesis unfolding origin_inv_def pty_origin_def task_origin_def w
    using s assms(2) unfolding origin_inv_def pty_origin_def task_origin_def w cont_origin_def
    by (auto simp: attemptKill_def Let_def)
qed

lemma origin_resolve:
  assumes "origin_inv s" "cont_origin s cid cont"
  shows "origin_inv (kill_resolve cid cont ok s)"
  using assms origin_run_command [OF assms(1)]
  by (cases cont) (auto simp: kill_resolve_def cont_origin_def intro: quiet_origin [OF assms(1) quiet_same])

lemma origin_kill:
  assumes "origin_inv s" "\<And>cid. userSessions s uid = Some cid \<Longrightarrow> cont_origin s cid cont"
    "userSessions s uid = None \<Longrightarrow> cont_origin s 0 cont"
  shows "origin_inv (killPtyProcess uid cont s)"
  using assms by (auto simp: killPtyProcess_def intro: origin_resolve origin_attemptKill split: option.split)

lemma cont_origin_simps [simp]: "cont_origin s cid KIgnore" "cont_origin s cid (KDelete uid)"
  by (simp_all add: cont_origin_def)

lemma origin_kill_check:
  assumes inv: "polite_inv s" "origin_inv s"
  shows "origin_inv (kill_check kid s)"
proof (cases "kills s kid")
  case (Some t)
  let ?c = "kt_session t" and ?s = "s\<lparr>kills := (kills s)(kid := None)\<rparr>"
  have s: "origin_inv ?s" using inv(2) by (rule quiet_origin) (auto simp: quiet_def pty_label_def fun_eq_iff split: if_splits)
  have c: "cont_origin ?s ?c (kt_cont t)"
    using inv Some unfolding origin_inv_def task_origin_def polite_inv_def tasks_ok_def cont_origin_def wanted_def
    by (fastforce simp: tame_def)
  let ?u = "clear_session_timer ?c ?s"
  have u: "origin_inv ?u" by (rule quiet_origin [OF s], rule quiet_same) simp_all
  have cu: "cont_origin ?u ?c (kt_cont t)" using c by (simp add: cont_origin_def wanted_def)
  show ?thesis using origin_resolve [OF s c] origin_attemptKill [OF s c] origin_resolve [OF u cu] Some
    by (simp add: kill_check_def Let_def)
qed (use inv in \<open>simp add: kill_check_def\<close>)

section \<open>Messages\<close>

lemma origin_handleMessage:
  assumes inv: "origin_inv s" and ss: "sessions s cid = Some ss" "userSessions s (userId ss) = Some cid"
    and t: "polite_text t"
  shows "origin_inv (handleMessage cid t s)"
proof -
  let ?s = "s\<lparr>handled := handled s @ [(cid, t)]\<rparr>"
  from t obtain k v where m: "parseMessage t = Some (JObj [(k, v)])" "protocol_entry k v" by (rule polite_textE)
  have s: "origin_inv ?s" using inv by (rule quiet_origin) (auto simp: quiet_def pty_label_def fun_eq_iff)
  have c: "k = ''command'' \<Longrightarrow> cont_origin ?s cid (KCommand cid v)"
    using m by (auto simp: cont_origin_def wanted_def elim: protocol_handler)
  have run: "k = ''command'' \<Longrightarrow> origin_inv (handleCommand cid v (userId ss) ?s)"
    using c origin_run_command [OF s, of cid v] origin_kill [OF s, of "userId ss" "KCommand cid v"] ss
    by (simp add: handleCommand_def) (simp add: cont_origin_def)
  have send: "origin_inv (ws_send cid x ?s)" for x by (rule quiet_origin [OF s], rule quiet_same) simp_all
  have pty: "origin_inv (pty_do pid x ?s)" for pid x using quiet_origin [OF s quiet_pty_do] .
  have kill: "origin_inv (killPtyProcess (userId ss) KIgnore ?s)" using s by (rule origin_kill) simp_all
  have crash: "origin_inv (crash ?s)" by (rule quiet_origin [OF s], rule quiet_same) (simp_all add: crash_def)
  have "origin_inv (call_handler h cid v ?s)" if "messageHandlers k = Some h" for h
    using that run send pty kill crash s ss m(2)
    by (cases h) (auto simp: call_handler_def session_of_def messageHandlers_def split: if_splits)
  then have "origin_inv (handle_entry cid (k, v) ?s)" using s by (auto simp: handle_entry_def split: option.split)
  then show ?thesis by (simp add: handleMessage_def Let_def m(1))
qed

section \<open>Events\<close>

lemma origin_react:
  assumes inv: "polite_inv s" "origin_inv s" and ok: "polite_ok s e"
  shows "origin_inv (react e s)"
proof -
  have plain: "quiet s t \<Longrightarrow> origin_inv t" for t using inv(2) by (rule quiet_origin)
  have kill: "origin_inv (killPtyProcess uid cont t)" if "quiet s t" "\<And>t c. cont_origin t c cont" for uid cont t
    using that plain origin_kill by blast
  show ?thesis
  proof (cases e)
    case (Message c t)
    then obtain ss where ss: "sessions s c = Some ss" "live_socket s c" "polite_text t" using ok by auto
    show ?thesis
    proof (cases "authReady ss")
      case True
      then have "userSessions s (userId ss) = Some c"
        using inv(1) ss unfolding polite_inv_def register_ok_def by (force simp: mail_def ident_def)
      then show ?thesis using True Message ss inv origin_handleMessage by (simp add: on_message_def session_of_def)
    qed (use Message ss plain in \<open>simp add: on_message_def session_of_def quiet_same\<close>)
  next
    case (IpsReply c r)
    then obtain ss where ss: "sessions s c = Some ss" "awaitingIps ss" "fair_reply r" using ok by (auto split: option.splits)
    have "origin_inv (upd_session c f t)" if "origin_inv t" for f t
      using that by (rule quiet_origin) (simp add: quiet_same)
    moreover have "origin_inv (authorized c ips s)" for ips
      by (rule plain, rule quiet_same) (simp_all add: authorized_facts [OF ss(1)])
    ultimately show ?thesis using polite_ips_rule [OF inv(1) ss, of origin_inv] origin_handleMessage plain IpsReply
      by (simp add: quiet_same)
  next
    case (SessionTimer tid)
    then show ?thesis using plain [of s] kill [of "s\<lparr>server.timers := (server.timers s)(tid := None)\<rparr>" KIgnore]
      by (auto simp: on_session_timeout_def quiet_same split: option.split)
  next
    case (Connection c uid k)
    then show ?thesis using ok plain by (simp add: on_connection_def Let_def quiet_same)
  qed (use inv plain kill in \<open>simp_all add: on_error_def handleError_def on_close_def handleClose_def on_pong_def
      on_pty_data_def quiet_same quiet_heartbeat quiet_pty_exit origin_kill_check split: option.split\<close>)
qed

lemma origin_end_turn: "origin_inv s \<Longrightarrow> origin_inv (end_turn s)"
  by (erule quiet_origin) (simp add: quiet_same end_turn_def crash_def)

lemma origin_step: "polite_inv s \<and> origin_inv s \<Longrightarrow> polite_ok s e \<Longrightarrow> polite_inv (server_step s e) \<and> origin_inv (server_step s e)"
  using polite_step [of s e] origin_end_turn [OF origin_react [of s e]] by (simp add: server_step_def)

interpretation origin: invariant_machine server_step polite_ok "\<lambda>s. polite_inv s \<and> origin_inv s"
  by unfold_locales (rule origin_step)

lemma origin_init: "origin_inv server_init"
  by (simp add: origin_inv_def server_init_def)

end
