(* ===== verification/Server_Life.thy ===== *)
theory Server_Life imports Server_Origin Server_Properties begin

text \<open>
  The life of a connection. An automaton with five phases is what the server promises for one connection,
  and the server implements it: whatever happens, the phase that can be read off its state changes only as
  the automaton does.
\<close>

section \<open>The automaton\<close>

datatype phase = Absent | Fetching | Refused | Idle json | Running json

inductive life :: "nat \<Rightarrow> phase \<Rightarrow> event \<Rightarrow> phase \<Rightarrow> bool" for cid where
  stay: "life cid p e p"
| connect: "life cid Absent (Connection cid uid k) Fetching"
| refuse: "fetch_ips r = None \<Longrightarrow> life cid Fetching (IpsReply cid r) Refused"
| admit: "fetch_ips r = Some ips \<Longrightarrow> life cid Fetching (IpsReply cid r) (Idle ips)"
| admit_start: "fetch_ips r = Some ips \<Longrightarrow> life cid Fetching (IpsReply cid r) (Running ips)"
| start: "life cid (Idle ips) (Message d m) (Running ips)"
| restart: "life cid (Idle ips) (KillTimer kid) (Running ips)"
| exit: "life cid (Running ips) (PtyExit pid) (Idle ips)"

definition status_of :: "session \<Rightarrow> bool \<times> bool \<times> json \<times> bool" where
  "status_of ss = (awaitingIps ss, authReady ss, authorizedIPs ss, isActive ss)"

definition status_at :: "server \<Rightarrow> nat \<Rightarrow> (bool \<times> bool \<times> json \<times> bool) option" where
  "status_at s cid = map_option status_of (sessions s cid)"

fun phase_of :: "(bool \<times> bool \<times> json \<times> bool) option \<Rightarrow> phase" where
  "phase_of None = Absent"
| "phase_of (Some (waiting, ready, ips, active)) =
     (if waiting then Fetching else if \<not> ready then Refused else if active then Running ips else Idle ips)"

definition phase :: "server \<Rightarrow> nat \<Rightarrow> phase" where
  "phase s cid = phase_of (status_at s cid)"

section \<open>Actions\<close>

text \<open>
  Actions that only ever start terminals: the sessions in \<open>D\<close> may become active, nothing else that matters
  here changes.
\<close>

definition activated :: "bool \<times> bool \<times> json \<times> bool \<Rightarrow> bool \<times> bool \<times> json \<times> bool" where
  "activated x = (case x of (waiting, ready, ips, active) \<Rightarrow> (waiting, ready, ips, True))"

definition starts :: "nat set \<Rightarrow> server \<Rightarrow> server \<Rightarrow> bool" where
  "starts D s t \<longleftrightarrow> userSessions t = userSessions s \<and> ident t = ident s \<and>
     (\<forall>cid. status_at t cid = status_at s cid \<or> cid \<in> D \<and> status_at t cid = map_option activated (status_at s cid))"

definition registered :: "server \<Rightarrow> nat \<Rightarrow> nat set" where
  "registered s cid = {d. userSessions s (userId (session_of s cid)) = Some d}"

lemma activated_simps [simp]: "activated (w, r, i, a) = (w, r, i, True)" "activated (activated x) = activated x"
  by (simp_all add: activated_def split: prod.split)

lemma starts_trans: "starts D s t \<Longrightarrow> starts D t u \<Longrightarrow> starts D s u"
proof -
  have "map_option activated (map_option activated x) = map_option activated x" for x by (cases x) auto
  then show "starts D s t \<Longrightarrow> starts D t u \<Longrightarrow> starts D s u" unfolding starts_def by metis
qed

lemma status_upd_session: "(\<And>x. status_of (f x) = status_of x) \<Longrightarrow> status_at (upd_session c f s) = status_at s"
  by (auto simp: status_at_def fun_eq_iff option.map_comp comp_def)

lemma starts_sessions: "sessions t = sessions s \<Longrightarrow> userSessions t = userSessions s \<Longrightarrow> starts D s t"
  using ident_cong [of t s] by (simp add: starts_def status_at_def)

lemma starts_upd_session:
  "(\<And>x. status_of (f x) = status_of x) \<Longrightarrow> (\<And>x. userId (f x) = userId x) \<Longrightarrow> starts D s (upd_session c f s)"
  by (simp add: starts_def status_upd_session ident_upd_session)

lemma starts_clear_timer: "starts D s (clear_session_timer c s)"
proof -
  have "starts D s (upd_session c (\<lambda>x. x\<lparr>terminalSessionTimer := None\<rparr>) (s\<lparr>server.timers := h\<rparr>))" for h
    by (rule starts_trans [OF starts_sessions starts_upd_session]) (simp_all add: status_of_def)
  then show ?thesis using starts_sessions [of s s] by (simp add: clear_session_timer_def split: option.split)
qed

lemma registered_starts: "starts D s t \<Longrightarrow> registered t cid = registered s cid"
proof -
  assume "starts D s t"
  then have i: "ident t cid = ident s cid" and u: "userSessions t = userSessions s" by (simp_all add: starts_def)
  from i have "userId (session_of t cid) = userId (session_of s cid)"
    by (cases "sessions t cid"; cases "sessions s cid") (simp_all add: ident_def session_of_def)
  with u show ?thesis by (simp add: registered_def)
qed

lemma starts_spawn: "cid \<in> D \<Longrightarrow> starts D s (spawn_pty ws cid args s)"
  using keeps_spawn [of s ws cid args]
  by (auto simp: starts_def keeps_def status_at_def status_of_def sessions_spawn activated_def option.map_comp comp_def)

lemma starts_run_command: "cid \<in> D \<Longrightarrow> starts D s (run_command ws cid c s)"
  by (auto simp: run_command_def Let_def reject_def intro: starts_trans [OF starts_clear_timer starts_spawn]
      starts_trans [OF starts_clear_timer starts_sessions] split: option.split)

lemma starts_attemptKill: "starts D s (attemptKill cid k cont s)"
  by (rule starts_sessions) (simp_all add: attemptKill_def Let_def)

lemma starts_kill_resolve: "cid \<in> D \<Longrightarrow> \<forall>uid. cont \<noteq> KDelete uid \<Longrightarrow> starts D s (kill_resolve cid cont ok s)"
  by (auto simp: kill_resolve_def starts_run_command starts_sessions split: kill_cont.split)

lemma starts_kill:
  assumes "\<forall>uid. cont \<noteq> KDelete uid"
  shows "starts {d. userSessions s uid = Some d} s (killPtyProcess uid cont s)"
proof (cases "userSessions s uid")
  case None
  then show ?thesis using assms by (cases cont) (simp_all add: killPtyProcess_def kill_resolve_def starts_sessions)
next
  case (Some c)
  then show ?thesis using assms starts_kill_resolve starts_attemptKill by (simp add: killPtyProcess_def)
qed

section \<open>Messages\<close>

lemma starts_handler: "starts (registered s cid) s (call_handler h cid v s)"
proof -
  have "starts (registered s cid) s (handleCommand cid v (userId (session_of s cid)) s)"
    using starts_kill [of "KCommand cid v" s "userId (session_of s cid)"]
    by (auto simp: handleCommand_def registered_def reject_def intro: starts_sessions starts_run_command split: option.split)
  moreover have "starts (registered s cid) s (killPtyProcess (userId (session_of s cid)) KIgnore s)"
    using starts_kill [of KIgnore s "userId (session_of s cid)"] by (simp add: registered_def)
  ultimately show ?thesis by (cases h) (auto simp: call_handler_def Let_def crash_def intro: starts_sessions)
qed

lemma starts_entry: "starts (registered s cid) s (handle_entry cid kv s)"
  using starts_handler starts_sessions [of s s] by (auto simp: handle_entry_def split: option.split)

lemma starts_entries: "starts (registered s cid) s (fold (handle_entry cid) kvs s)"
proof (induction kvs arbitrary: s)
  case (Cons kv kvs)
  have e: "starts (registered s cid) s (handle_entry cid kv s)" by (rule starts_entry)
  show ?case using starts_trans [OF e] Cons [of "handle_entry cid kv s"] by (simp add: registered_starts [OF e])
qed (simp add: starts_sessions)

lemma starts_handleMessage: "starts (registered s cid) s (handleMessage cid m s)"
proof -
  let ?s = "s\<lparr>handled := handled s @ [(cid, m)]\<rparr>"
  have h: "starts (registered s cid) s ?s" by (rule starts_sessions) simp_all
  show ?thesis using h starts_trans [OF h starts_entries [of ?s cid, unfolded registered_starts [OF h]]]
    by (auto simp: handleMessage_def Let_def split: option.split)
qed

lemma starts_drain: "starts (registered s cid) s (drain cid ms s)"
proof (induction ms arbitrary: s)
  case (Cons m ms)
  let ?s = "upd_session cid (\<lambda>x. x\<lparr>pendingMessages := ms\<rparr>) s" and ?D = "registered s cid"
  have u: "starts ?D s ?s" by (rule starts_upd_session) (simp_all add: status_of_def)
  have h: "starts ?D ?s (handleMessage cid m ?s)" using starts_handleMessage [of ?s cid m] by (simp add: registered_starts [OF u])
  have uh: "starts ?D s (handleMessage cid m ?s)" using u h by (rule starts_trans)
  show ?case using starts_trans [OF uh] Cons [of "handleMessage cid m ?s"] starts_sessions [of s s]
    by (simp add: registered_starts [OF uh])
qed (simp add: starts_sessions)

section \<open>Steps\<close>

lemma starts_life:
  assumes "starts D s t" "\<And>ips. cid \<in> D \<Longrightarrow> life cid (Idle ips) e (Running ips)"
  shows "life cid (phase s cid) e (phase t cid)"
proof (cases "status_at t cid = status_at s cid")
  case False
  then have t: "status_at t cid = map_option activated (status_at s cid)" "cid \<in> D"
    using assms(1) unfolding starts_def by blast+
  show ?thesis
  proof (cases "status_at s cid")
    case (Some x)
    obtain w r i a where "x = (w, r, i, a)" by (cases x)
    with Some t assms(2) show ?thesis by (auto simp: phase_def intro: life.stay)
  qed (use t False in simp)
qed (simp add: phase_def life.stay)

lemma quiet_life: "status_at t cid = status_at s cid \<Longrightarrow> life cid (phase s cid) e (phase t cid)"
  by (simp add: phase_def life.stay)

lemma sessions_life: "sessions t = sessions s \<Longrightarrow> life cid (phase s cid) e (phase t cid)"
  by (rule quiet_life) (simp add: status_at_def)

lemma kill_sessions [simp]:
  "sessions (killPtyProcess uid KIgnore s) = sessions s" "sessions (killPtyProcess uid (KDelete u) s) = sessions s"
  by (simp_all add: killPtyProcess_def kill_resolve_def attemptKill_def Let_def split: option.split)

lemma kill_check_life: "life cid (phase s cid) (KillTimer kid) (phase (kill_check kid s) cid)"
proof (cases "kills s kid")
  case (Some t)
  let ?c = "kt_session t" and ?s = "s\<lparr>kills := (kills s)(kid := None)\<rparr>"
  let ?u = "clear_session_timer ?c ?s"
  have s: "starts {?c} s ?s" by (rule starts_sessions) simp_all
  have u: "starts {?c} s ?u" by (rule starts_trans [OF s starts_clear_timer])
  have "life cid (phase s cid) (KillTimer kid) (phase (kill_resolve ?c (kt_cont t) ok v) cid)" if v: "starts {?c} s v" for ok v
  proof (cases "\<exists>uid. kt_cont t = KDelete uid")
    case True
    then have "status_at (kill_resolve ?c (kt_cont t) ok v) = status_at v" by (auto simp: kill_resolve_def status_at_def)
    then show ?thesis using starts_life [OF v, of cid "KillTimer kid"] by (simp add: phase_def life.restart)
  next
    case False
    then show ?thesis using starts_trans [OF v starts_kill_resolve] by (intro starts_life) (auto simp: life.restart)
  qed
  moreover have "life cid (phase s cid) (KillTimer kid) (phase (attemptKill ?c k (kt_cont t) ?s) cid)" for k
    by (rule starts_life [OF starts_trans [OF s starts_attemptKill]]) (rule life.restart)
  ultimately show ?thesis using Some s u by (simp add: kill_check_def Let_def)
qed (simp add: kill_check_def life.stay)

lemma ips_life:
  assumes ss: "sessions s c = Some ss" "awaitingIps ss" and inv: "server_inv s"
  shows "life cid (phase s cid) (IpsReply c r) (phase (on_ips c r s) cid)"
proof (cases "fetch_ips r")
  case None
  have n: "\<not> authReady ss" using inv ss unfolding server_inv_def wait_ok_def by blast
  have "sessions (on_ips c r s) d = (if d = c then Some (ss\<lparr>awaitingIps := False\<rparr>) else sessions s d)" for d
    using None ss by (simp add: on_ips_cases [OF ss(1)])
  then show ?thesis using ss n None
    by (cases "cid = c") (simp_all add: phase_def status_at_def status_of_def life.refuse life.stay)
next
  case (Some ips)
  let ?t = "authorized c ips s"
  have on: "on_ips c r s = drain c (pendingMessages ss) ?t" using Some by (simp add: on_ips_cases [OF ss(1)])
  have t: "status_at ?t = (status_at s)(c \<mapsto> (False, True, ips, isActive ss))"
    using ss by (auto simp: authorized_def Let_def status_at_def status_of_def fun_eq_iff)
  have "registered ?t c = {c}" using ss by (auto simp: registered_def authorized_def Let_def session_of_def)
  then have st: "starts {c} ?t (on_ips c r s)" unfolding on using starts_drain [of ?t c] by simp
  show ?thesis
  proof (cases "cid = c")
    case True
    have "status_at (on_ips c r s) c \<in> {Some (False, True, ips, isActive ss), Some (False, True, ips, True)}"
      using st t unfolding starts_def by (metis activated_simps(1) fun_upd_same insertI1 insertI2 option.map(2))
    moreover have "phase s c = Fetching" using ss by (simp add: phase_def status_at_def status_of_def)
    ultimately show ?thesis using True Some by (auto simp: phase_def intro: life.intros)
  next
    case False
    then have "status_at (on_ips c r s) cid = status_at s cid" using st t unfolding starts_def by (metis fun_upd_other singletonD)
    then show ?thesis by (rule quiet_life)
  qed
qed

lemma exit_life: "life cid (phase s cid) (PtyExit pid) (phase (on_pty_exit pid s) cid)"
proof (cases "ptys s pid")
  case (Some p)
  let ?t = "upd_session (pty_owner p) (\<lambda>x. x\<lparr>isActive := False\<rparr>)
    (ws_send (pty_ws p) (OText ''pty-exited'') (s\<lparr>ptys := (ptys s)(pid \<mapsto> p\<lparr>pty_live := False\<rparr>)\<rparr>))"
  have "status_at (clear_session_timer (pty_owner p) ?t) = status_at ?t"
    by (auto simp: status_at_def status_of_def fun_eq_iff sessions_clear_timer option.map_comp comp_def)
  then have "status_at (on_pty_exit pid s) = status_at ?t" using Some by (simp add: on_pty_exit_def Let_def)
  then show ?thesis
    by (cases "sessions s cid") (auto simp: phase_def status_at_def status_of_def life.stay life.exit)
qed (simp add: on_pty_exit_def life.stay)

lemma heartbeat_sessions: "sessions (on_heartbeat cs s) = sessions s"
proof -
  have "sessions (heartbeat_client c s) = sessions s" for c s by (simp add: heartbeat_client_def split: option.split)
  then show ?thesis unfolding on_heartbeat_def by (induction cs arbitrary: s) simp_all
qed

lemma life_react:
  assumes inv: "server_inv s" and ok: "event_ok s e"
  shows "life cid (phase s cid) e (phase (react e s) cid)"
proof (cases e)
  case (Connection c uid k)
  then show ?thesis using ok
    by (auto simp: on_connection_def phase_def status_at_def status_of_def new_session_def life.connect life.stay)
next
  case (IpsReply c r)
  then obtain ss where "sessions s c = Some ss" "awaitingIps ss" using ok by (auto split: option.splits)
  with IpsReply inv ips_life show ?thesis by simp
next
  case (Message c m)
  have "starts (registered s c) s (on_message c m s)"
    using starts_handleMessage starts_upd_session by (simp add: on_message_def status_of_def)
  then show ?thesis using Message by (simp add: starts_life life.start)
next
  case (SessionTimer tid)
  then show ?thesis by (auto simp: on_session_timeout_def life.stay intro: sessions_life split: option.split)
qed (auto simp: on_close_def handleClose_def on_error_def handleError_def on_pong_def on_pty_data_def heartbeat_sessions
    exit_life kill_check_life intro!: sessions_life split: option.split)

lemma phase_end_turn [simp]: "phase (end_turn s) cid = phase s cid"
  by (simp add: phase_def status_at_def end_turn_def crash_def)

lemma life_step: "server_inv s \<Longrightarrow> event_ok s e \<Longrightarrow> life cid (phase s cid) e (phase (server_step s e) cid)"
  using life_react by (simp add: server_step_def life.stay)

section \<open>Whole runs\<close>

inductive life_run :: "nat \<Rightarrow> phase \<Rightarrow> event list \<Rightarrow> phase \<Rightarrow> bool" for cid where
  empty: "life_run cid p [] p"
| event: "life cid p e q \<Longrightarrow> life_run cid q es r \<Longrightarrow> life_run cid p (e # es) r"

inductive_cases life_fromE: "life cid p e q"

text \<open>What the automaton promises: the hosts of a connection are settled once, and a refusal is final.\<close>

fun hosts :: "phase \<Rightarrow> json option" where
  "hosts (Idle ips) = Some ips"
| "hosts (Running ips) = Some ips"
| "hosts _ = None"

lemma life_hosts: "life cid p e q \<Longrightarrow> hosts p = Some ips \<Longrightarrow> hosts q = Some ips"
  by (erule life_fromE) auto

lemma hosts_settled_once: "life_run cid p es q \<Longrightarrow> hosts p = Some ips \<Longrightarrow> hosts q = Some ips"
  by (induction rule: life_run.induct) (auto dest: life_hosts)

lemma refusal_is_final: "life_run cid p es q \<Longrightarrow> p = Refused \<Longrightarrow> q = Refused"
  by (induction rule: life_run.induct) (auto elim: life_fromE)

lemma life_run_from: "server_inv s \<Longrightarrow> run_ok server_step event_ok s es \<Longrightarrow>
    life_run cid (phase s cid) es (phase (run_events server_step s es) cid)"
proof (induction es arbitrary: s)
  case (Cons e es)
  then have "server_inv (server_step s e)" by (simp add: inv_step)
  with Cons show ?case using life_step [of s e cid] by (auto intro: life_run.event)
qed (simp add: life_run.empty)

text \<open>
  C4. The server refines the automaton of a connection: it is absent, then its hosts are fetched, then it is
  refused for ever or has the hosts of the backend's answer for ever, and from then on it has or has not a
  terminal; a terminal starts only on a message or on a pending termination, and ends only by its exit.
  Every run of the server is, for each connection, a run of this automaton.
\<close>

theorem server_refines_life_cycle:
  assumes "run_ok server_step event_ok server_init es"
  shows "life_run cid Absent es (phase (run_events server_step server_init es) cid)"
  using life_run_from [OF server_inv_init assms, of cid] by (simp add: phase_def status_at_def server_init_def)

theorem server_refines_life_cycle_witness: "life_run 0 Absent sample_run (Running (JArr [JStr ''10.0.0.5'']))"
  using server_refines_life_cycle [OF sample_run_ok, of 0]
  by (simp add: phase_def status_at_def status_of_def sample_terminal sample_state3_def [symmetric] sample_session_def)

section \<open>The end of a connection\<close>

lemma sample_run_polite: "run_ok server_step polite_ok server_init sample_run"
proof -
  have "polite_text sample_text"
    by (simp add: polite_text_def parseMessage_def sample_text_parses) (simp add: sample_message_def protocol_message_def command_text_def)
  then have "polite_ok sample_state2 (Message 0 sample_text)"
    by (simp add: sample_state2_eq live_socket_def)
  moreover have "run_ok server_step polite_ok server_init (butlast sample_run)"
    by (simp add: sample_run_def server_step_def end_turn_def server_init_def on_connection_def new_session_def
        has_tokens_def sample_cookie_def truthy_str_def Let_def fresh_user_def ident_def fair_reply_def sample_reply_parses
        host_list_def is_string_def)
  ultimately show ?thesis by (metis run_ok_append run_ok.simps sample_run_split sample_state2_def)
qed

lemma polite_step_react: "polite_inv s \<Longrightarrow> polite_ok s e \<Longrightarrow> server_step s e = react e s"
  using polite_react [of s e] by (simp add: server_step_def end_turn_def polite_inv_def calm_def)

lemma active_registered:
  assumes "polite_inv s" "sessions s cid = Some ss" "isActive ss" "live_socket s cid"
  obtains pid p where "userSessions s (userId ss) = Some cid" "ptyProcess ss = Some pid" "ptys s pid = Some p"
    "pty_live p" "pty_owner p = cid" "authReady ss"
proof -
  have inv: "server_inv s" using assms(1) by (simp add: polite_inv_def)
  obtain pid p where p: "ptyProcess ss = Some pid" "ptys s pid = Some p" "pty_live p" "pty_owner p = cid"
    using inv assms(2,3) unfolding server_inv_def active_ok_def by blast
  moreover have r: "authReady ss"
    using inv assms(2) p unfolding server_inv_def args_ok_def by fastforce
  moreover have "userSessions s (userId ss) = Some cid"
    using assms r unfolding polite_inv_def register_ok_def by (force simp: mail_def ident_def)
  ultimately show thesis using that by blast
qed

end
