(* ===== verification/Terminal_Theme.thy ===== *)
theory Terminal_Theme imports Json "HOL-Library.AList" begin

text \<open>
  The colour themes of the terminal client (\<^verbatim>\<open>resources/js/terminal.js\<close>, lines 20--147 and 463--498):
  the built-in themes as objects built by spreading one over another, the accent derived from the
  user's colour, and \<open>setTerminalTheme\<close> with the animation frame it leaves behind. An object is an
  association list in insertion order. The rounding of the accent is computed in integers; on the
  256 possible channel values it agrees with the double arithmetic of the source.
\<close>

section \<open>Themes\<close>

type_synonym theme = "(string \<times> string) list"

definition spread :: "theme \<Rightarrow> theme \<Rightarrow> theme" where
  "spread t kvs = fold (\<lambda>kv. AList.update (fst kv) (snd kv)) kvs t"

definition baseApplicationTerminalTheme :: theme where
  "baseApplicationTerminalTheme =
     [
      (''black'', ''#675f70''), (''red'', ''#ef7272''), (''green'', ''#7bd88f''), (''yellow'', ''#e7bd68''),
      (''blue'', ''#85aacb''), (''magenta'', ''#c792ea''), (''cyan'', ''#72d5d0''), (''white'', ''#d8d2df''),
      (''brightBlack'', ''#8a8292''), (''brightRed'', ''#ff9b9b''), (''brightGreen'', ''#a5e7b2''),
      (''brightYellow'', ''#f2d596''), (''brightBlue'', ''#b0c8df''), (''brightMagenta'', ''#ddb3f4''),
      (''brightCyan'', ''#a7e8e4''), (''brightWhite'', ''#ffffff''), (''foreground'', ''#eee9f2''),
      (''background'', ''#00000000''), (''overviewRulerBorder'', ''#00000000'')]"

definition createApplicationTerminalTheme :: "string \<Rightarrow> theme \<Rightarrow> theme" where
  "createApplicationTerminalTheme accent colors =
     spread (spread baseApplicationTerminalTheme
       [(''cursor'', accent), (''cursorAccent'', ''#101012''), (''selectionBackground'', accent @ ''66'')]) colors"

definition is_hex :: "char \<Rightarrow> bool" where
  "is_hex c \<longleftrightarrow> hex_val c \<noteq> None"

text \<open>\<open>/^#[0-9a-f]{6}$/i\<close>.\<close>

definition is_color :: "string \<Rightarrow> bool" where
  "is_color s \<longleftrightarrow> length s = 7 \<and> hd s = CHR ''#'' \<and> list_all is_hex (tl s)"

definition lighten :: "nat \<Rightarrow> nat" where
  "lighten channel = (85 * channel + 3825 + 50) div 100"

fun hex_pairs :: "string \<Rightarrow> nat list" where
  "hex_pairs (a # b # r) = (16 * the (hex_val a) + the (hex_val b)) # hex_pairs r"
| "hex_pairs _ = []"

definition hex_byte :: "nat \<Rightarrow> string" where
  "hex_byte n = [hex_char (n div 16), hex_char (n mod 16)]"

definition customThemeAccent :: "(string \<Rightarrow> string option) \<Rightarrow> string" where
  "customThemeAccent storage =
     (let color = (case storage ''themeColor'' of Some (c # cs) \<Rightarrow> c # cs | _ \<Rightarrow> ''#6b16ed'') in
      if \<not> is_color color then ''#7c3aed''
      else CHR ''#'' # concat (map (\<lambda>channel. hex_byte (lighten channel)) (hex_pairs (tl color))))"

text \<open>The document: the theme attribute, whether it is dark, and \<open>localStorage\<close>.\<close>

record theme_document =
  data_theme :: string
  dark :: bool
  localStorage :: "string \<Rightarrow> string option"

definition createSystemTerminalTheme :: "theme_document \<Rightarrow> theme" where
  "createSystemTerminalTheme d =
     (if data_theme d = ''custom'' then createApplicationTerminalTheme (customThemeAccent (localStorage d)) []
      else if dark d then createApplicationTerminalTheme ''#8C8E9C'' []
      else createApplicationTerminalTheme ''#52525b'' [
         (''black'', ''#18181b''), (''red'', ''#dc2626''), (''green'', ''#15803d''),
         (''yellow'', ''#a16207''), (''blue'', ''#2563eb''), (''magenta'', ''#9333ea''),
         (''cyan'', ''#0e7490''), (''white'', ''#52525b''), (''brightBlack'', ''#71717a''),
         (''brightWhite'', ''#18181b''), (''foreground'', ''#18181b'')])"

definition shadow_themes :: "(string \<times> theme) list" where
  "shadow_themes =
     [
      (''shadows-midnight'', createApplicationTerminalTheme ''#6d7a7c'' [
         (''blue'', ''#7392ad''), (''cyan'', ''#7fa3a6''), (''brightBlue'', ''#9bb4c9''),
         (''brightCyan'', ''#a8c4c6'')]),
      (''shadows-golden-hour'', createApplicationTerminalTheme ''#bf8c3c'' [
         (''yellow'', ''#d9a759''), (''red'', ''#df7756''), (''brightYellow'', ''#edc987''),
         (''brightRed'', ''#efa086'')]),
      (''shadows-cosmic-purple'', createApplicationTerminalTheme ''#A76DBE'' [
         (''blue'', ''#8f86d9''), (''magenta'', ''#c58ad8''), (''brightBlue'', ''#b1a9ed''),
         (''brightMagenta'', ''#ddb0e9'')]),
      (''shadows-neon-glow'', createApplicationTerminalTheme ''#DB425A'' [
         (''red'', ''#ed5d72''), (''magenta'', ''#f35fc2''), (''brightRed'', ''#ff8c9d''),
         (''brightMagenta'', ''#ff93d7'')]),
      (''shadows-icy-mist'', createApplicationTerminalTheme ''#93b7c4'' [
         (''blue'', ''#8fb7d0''), (''cyan'', ''#9acbd0''), (''brightBlue'', ''#b9d5e5''),
         (''brightCyan'', ''#c0e3e5'')]),
      (''shadows-tropical-storm'', createApplicationTerminalTheme ''#1fa771'' [
         (''green'', ''#45c98b''), (''cyan'', ''#4ec7ad''), (''brightGreen'', ''#7de0ad''),
         (''brightCyan'', ''#80dfcc'')]),
      (''shadows-golden-nebula'', createApplicationTerminalTheme ''#d4a20e'' [
         (''yellow'', ''#e5bb35''), (''red'', ''#ee755f''), (''blue'', ''#718fc1''),
         (''brightYellow'', ''#f4d375'')]),
      (''shadows-cosmic-lagoon'', createApplicationTerminalTheme ''#00b5b8'' [
         (''blue'', ''#668de0''), (''magenta'', ''#ba6ad0''), (''cyan'', ''#38c6c8''),
         (''brightCyan'', ''#76e0e2'')]),
      (''shadows-neon-nebula'', createApplicationTerminalTheme ''#ff55aa'' [
         (''blue'', ''#6f91dd''), (''magenta'', ''#ff72c1''), (''cyan'', ''#51d5d5''),
         (''brightMagenta'', ''#ffa1d4'')]),
      (''shadows-transparent'', createApplicationTerminalTheme ''#8C8E9C'' [])]"

text \<open>
  \<open>applicationTerminalThemes[name]\<close>: the object is a plain one, so a name of \<open>Object.prototype\<close> finds
  something too, whose spread has no colours.
\<close>

definition inherited_names :: "string list" where
  "inherited_names =
     [''constructor'', ''__defineGetter__'', ''__defineSetter__'', ''hasOwnProperty'',
      ''__lookupGetter__'', ''__lookupSetter__'', ''isPrototypeOf'', ''propertyIsEnumerable'',
      ''toString'', ''valueOf'', ''__proto__'', ''toLocaleString'']"

definition applicationTerminalThemes :: "theme \<Rightarrow> string \<Rightarrow> theme option" where
  "applicationTerminalThemes system name =
     (if name = ''system'' then Some system
      else case map_of shadow_themes name of
        Some t \<Rightarrow> Some t
      | None \<Rightarrow> if name \<in> set inherited_names then Some [] else None)"

section \<open>Choosing a theme\<close>

record xterm =
  xt_theme :: theme
  xt_cursorBlink :: bool

record theme_state =
  doc :: theme_document
  system_theme :: theme
  selectedTheme :: string
  xt :: "xterm option"
  blink_frames :: "bool list"

definition THEME_KEY :: string where
  "THEME_KEY = ''coolify-console-theme''"

definition initial_theme :: "theme \<Rightarrow> (string \<Rightarrow> string option) \<Rightarrow> string" where
  "initial_theme system storage =
     (case storage THEME_KEY of
        Some n \<Rightarrow> if applicationTerminalThemes system n \<noteq> None then n else ''system''
      | None \<Rightarrow> ''system'')"

definition setTerminalTheme :: "string \<Rightarrow> theme_state \<Rightarrow> theme_state" where
  "setTerminalTheme themeName s =
     (if applicationTerminalThemes (system_theme s) themeName = None then s
      else let system = (if themeName = ''system'' then createSystemTerminalTheme (doc s) else system_theme s);
               s1 = s\<lparr>system_theme := system, selectedTheme := themeName,
                      doc := (doc s)\<lparr>localStorage := (localStorage (doc s))(THEME_KEY \<mapsto> themeName)\<rparr>\<rparr>
           in case xt s of
                None \<Rightarrow> s1
              | Some t \<Rightarrow>
                  s1\<lparr>xt := Some (t\<lparr>xt_cursorBlink := False, xt_theme := the (applicationTerminalThemes system themeName)\<rparr>),
                     blink_frames := blink_frames s @ [xt_cursorBlink t]\<rparr>)"

text \<open>The animation frame runs the callbacks requested before it, in order.\<close>

definition theme_frame :: "theme_state \<Rightarrow> theme_state" where
  "theme_frame s =
     (case xt s of
        None \<Rightarrow> s\<lparr>blink_frames := []\<rparr>
      | Some t \<Rightarrow>
          s\<lparr>xt := Some (fold (\<lambda>b t. t\<lparr>xt_cursorBlink := b\<rparr>) (blink_frames s) t), blink_frames := []\<rparr>)"

text \<open>The mutation observer on the document's root element.\<close>

definition on_document_change :: "theme_document \<Rightarrow> theme_state \<Rightarrow> theme_state" where
  "on_document_change d s0 =
     (let s = s0\<lparr>doc := d\<rparr> in
      if selectedTheme s = ''system''
      then setTerminalTheme ''system'' (s\<lparr>system_theme := createSystemTerminalTheme d\<rparr>) else s)"

section \<open>The accent\<close>

lemma hex_val_less: "hex_val c = Some n \<Longrightarrow> n < 16"
  by (auto simp: hex_val_def is_digit_def split: if_splits)

lemma lighten_bounds: "n < 256 \<Longrightarrow> n \<le> lighten n \<and> lighten n \<le> 255"
proof -
  assume "n < 256"
  then have "100 * n \<le> 85 * n + 3825 + 50" "85 * n + 3825 + 50 < 256 * 100" by simp_all
  then show ?thesis
    unfolding lighten_def using div_le_mono [of "100 * n" "85 * n + 3825 + 50" 100]
      less_mult_imp_div_less [of "85 * n + 3825 + 50" 256 100] by simp
qed

lemma hex_val_hex_char: "k < 16 \<Longrightarrow> hex_val (hex_char k) = Some k"
  by (rule hex_val_char)

lemma hex_pairs_bytes: "list_all (\<lambda>n. n < 256) ns \<Longrightarrow> hex_pairs (concat (map hex_byte ns)) = ns"
  by (induction ns) (simp_all add: hex_byte_def hex_val_hex_char less_mult_imp_div_less)

lemma hex_pairs_less: "list_all is_hex s \<Longrightarrow> list_all (\<lambda>n. n < 256) (hex_pairs s)"
proof (induction s rule: hex_pairs.induct)
  case (1 a b r)
  then obtain x y where "hex_val a = Some x" "hex_val b = Some y" by (auto simp: is_hex_def)
  with 1 hex_val_less [of a x] hex_val_less [of b y] show ?case by simp
qed simp_all

lemma length_hex_pairs: "length (hex_pairs s) = length s div 2"
  by (induction s rule: hex_pairs.induct) simp_all

lemma bytes_are_hex: "list_all (\<lambda>n. n < 256) ns \<Longrightarrow> list_all is_hex (concat (map hex_byte ns))"
  by (induction ns) (simp_all add: hex_byte_def is_hex_def hex_val_hex_char less_mult_imp_div_less)

lemma length_bytes: "length (concat (map hex_byte ns)) = 2 * length ns"
  by (induction ns) (simp_all add: hex_byte_def)

lemma lighten_all: "list_all (\<lambda>n. n < 256) ns \<Longrightarrow> list_all (\<lambda>n. n < 256) (map lighten ns)"
  using lighten_bounds by (fastforce simp: list_all_iff)

lemma accent_of_color:
  assumes "is_color c"
  shows "is_color (CHR ''#'' # concat (map (\<lambda>n. hex_byte (lighten n)) (hex_pairs (tl c))))"
    and "hex_pairs (concat (map (\<lambda>n. hex_byte (lighten n)) (hex_pairs (tl c)))) = map lighten (hex_pairs (tl c))"
proof -
  from assms have "list_all is_hex (tl c)" "length (tl c) = 6" by (auto simp: is_color_def)
  then have l: "list_all (\<lambda>n. n < 256) (map lighten (hex_pairs (tl c)))" "length (hex_pairs (tl c)) = 3"
    using lighten_all hex_pairs_less length_hex_pairs [of "tl c"] by auto
  have m: "concat (map (\<lambda>n. hex_byte (lighten n)) (hex_pairs (tl c))) = concat (map hex_byte (map lighten (hex_pairs (tl c))))"
    by (simp add: comp_def)
  show "is_color (CHR ''#'' # concat (map (\<lambda>n. hex_byte (lighten n)) (hex_pairs (tl c))))"
    unfolding m using bytes_are_hex [OF l(1)] length_bytes [of "map lighten (hex_pairs (tl c))"] l(2)
    by (simp add: is_color_def)
  show "hex_pairs (concat (map (\<lambda>n. hex_byte (lighten n)) (hex_pairs (tl c)))) = map lighten (hex_pairs (tl c))"
    unfolding m by (rule hex_pairs_bytes [OF l(1)])
qed

lemma stored_accent:
  assumes "storage ''themeColor'' = Some c" "is_color c"
  shows "customThemeAccent storage = CHR ''#'' # concat (map (\<lambda>n. hex_byte (lighten n)) (hex_pairs (tl c)))"
  using assms by (cases c) (simp_all add: customThemeAccent_def is_color_def)

lemma default_colors: "is_color ''#7c3aed''" "is_color ''#6b16ed''"
  by (simp_all add: is_color_def is_hex_def hex_val_def is_digit_def code_def)

lemma customThemeAccent_color: "is_color (customThemeAccent storage)"
  using default_colors accent_of_color by (simp add: customThemeAccent_def Let_def)

section \<open>The keys of a theme\<close>

definition theme_keys :: "string list" where
  "theme_keys = map fst baseApplicationTerminalTheme @ [''cursor'', ''cursorAccent'', ''selectionBackground'']"

lemma spread_keys: "set (map fst kvs) \<subseteq> set (map fst t) \<Longrightarrow> map fst (spread t kvs) = map fst t"
proof (induction kvs arbitrary: t)
  case (Cons kv kvs)
  have "map fst (AList.update (fst kv) (snd kv) t) = map fst t"
    using Cons.prems by (simp add: update_keys)
  moreover from this have "set (map fst kvs) \<subseteq> set (map fst (AList.update (fst kv) (snd kv) t))"
    using Cons.prems by simp
  from Cons.IH [OF this] have "map fst (spread (AList.update (fst kv) (snd kv) t) kvs)
      = map fst (AList.update (fst kv) (snd kv) t)" .
  ultimately show ?case by (simp add: spread_def)
qed (simp add: spread_def)

lemma create_keys: "set (map fst colors) \<subseteq> set theme_keys \<Longrightarrow> map fst (createApplicationTerminalTheme accent colors) = theme_keys"
proof -
  assume a: "set (map fst colors) \<subseteq> set theme_keys"
  have "map fst (spread baseApplicationTerminalTheme
      [(''cursor'', accent), (''cursorAccent'', ''#101012''), (''selectionBackground'', accent @ ''66'')]) = theme_keys"
    by (simp add: spread_def theme_keys_def baseApplicationTerminalTheme_def)
  with a show ?thesis by (simp add: createApplicationTerminalTheme_def spread_keys)
qed

lemma system_keys: "map fst (createSystemTerminalTheme d) = theme_keys"
  by (simp add: createSystemTerminalTheme_def create_keys theme_keys_def baseApplicationTerminalTheme_def)

lemma shadow_keys: "(n, t) \<in> set shadow_themes \<Longrightarrow> map fst t = theme_keys"
  unfolding shadow_themes_def
  by (auto simp: create_keys theme_keys_def baseApplicationTerminalTheme_def)

lemma set_known:
  assumes "applicationTerminalThemes (system_theme s) n \<noteq> None"
  shows "selectedTheme (setTerminalTheme n s) = n \<and> localStorage (doc (setTerminalTheme n s)) THEME_KEY = Some n"
proof -
  from assms obtain t where "applicationTerminalThemes (system_theme s) n = Some t" by blast
  then show ?thesis by (cases "xt s") (simp_all add: setTerminalTheme_def Let_def)
qed

section \<open>Properties\<close>

text \<open>
  Whatever colour is stored, the accent of the custom theme is a colour of the form
  \<open>#rrggbb\<close>; for a stored colour each of its three channels is at least as bright as the stored one
  and at most 255, so the accent stays readable on a dark ground.
\<close>

theorem accent_is_lighter_color:
  "is_color (customThemeAccent storage) \<and>
   (\<forall>c. storage ''themeColor'' = Some c \<and> is_color c \<longrightarrow>
      list_all2 (\<lambda>x y. x \<le> y \<and> y \<le> 255) (hex_pairs (tl c)) (hex_pairs (tl (customThemeAccent storage))))"
proof (intro conjI allI impI)
  show "is_color (customThemeAccent storage)" by (rule customThemeAccent_color)
  fix c assume c: "storage ''themeColor'' = Some c \<and> is_color c"
  then have "list_all (\<lambda>n. n < 256) (hex_pairs (tl c))" by (simp add: is_color_def hex_pairs_less)
  then have "list_all2 (\<lambda>x y. x \<le> y \<and> y \<le> 255) (hex_pairs (tl c)) (map lighten (hex_pairs (tl c)))"
    using lighten_bounds by (auto simp: list_all2_conv_all_nth list_all_length)
  with c accent_of_color(2) [of c] stored_accent [of storage c]
  show "list_all2 (\<lambda>x y. x \<le> y \<and> y \<le> 255) (hex_pairs (tl c)) (hex_pairs (tl (customThemeAccent storage)))"
    by simp
qed

theorem accent_is_lighter_color_witness:
  "list_all2 (\<lambda>x y. x \<le> y \<and> y \<le> 255) (hex_pairs ''6b16ed'') (hex_pairs (tl (customThemeAccent [''themeColor'' \<mapsto> ''#6b16ed''])))"
  using accent_is_lighter_color [of "[''themeColor'' \<mapsto> ''#6b16ed'']"] default_colors by simp

text \<open>
  A chosen theme is kept: choosing a name the client knows selects it, and the client that
  starts again from the stored value selects the same; choosing any other name changes nothing.
  Every built-in theme, the system theme for any document included, has exactly the 22 colours xterm
  is given, each once.
\<close>

theorem chosen_theme_survives:
  "(if applicationTerminalThemes (system_theme s) n = None then setTerminalTheme n s = s
    else selectedTheme (setTerminalTheme n s) = n
      \<and> initial_theme system (localStorage (doc (setTerminalTheme n s))) = n)
   \<and> map fst (createSystemTerminalTheme d) = theme_keys \<and> distinct theme_keys \<and> length theme_keys = 22
   \<and> list_all (\<lambda>nt. map fst (snd nt) = theme_keys) shadow_themes"
proof -
  have known: "applicationTerminalThemes a n = None \<longleftrightarrow> applicationTerminalThemes b n = None" for a b
    by (simp add: applicationTerminalThemes_def split: option.split)
  have "selectedTheme (setTerminalTheme n s) = n
      \<and> initial_theme system (localStorage (doc (setTerminalTheme n s))) = n"
    if "applicationTerminalThemes (system_theme s) n \<noteq> None"
    using that known [of "system_theme s" system] set_known [OF that] by (simp add: initial_theme_def)
  moreover have "distinct theme_keys \<and> length theme_keys = 22"
    by (simp add: theme_keys_def baseApplicationTerminalTheme_def)
  moreover have "list_all (\<lambda>nt. map fst (snd nt) = theme_keys) shadow_themes"
    using shadow_keys by (auto simp: list_all_iff)
  ultimately show ?thesis using system_keys by (simp add: setTerminalTheme_def)
qed

text \<open>
  Two theme changes within one animation frame stop the cursor: the second call saves the
  blinking the first one has switched off, and its callback, the last to run, restores that. The
  terminal of a client whose cursor blinks ends with a cursor that does not.
\<close>

theorem two_changes_stop_blinking:
  assumes "xt s = Some t" "xt_cursorBlink t" "blink_frames s = []"
    and "applicationTerminalThemes (system_theme s) m \<noteq> None" "applicationTerminalThemes (system_theme s) n \<noteq> None"
  shows "(\<exists>u. xt (theme_frame (setTerminalTheme n (setTerminalTheme m s))) = Some u \<and> \<not> xt_cursorBlink u)
    \<and> (\<exists>u. xt (theme_frame (setTerminalTheme m s)) = Some u \<and> xt_cursorBlink u)"
proof -
  have n: "applicationTerminalThemes a n \<noteq> None" for a
    using assms(5) by (auto simp: applicationTerminalThemes_def split: option.splits if_splits)
  let ?s = "setTerminalTheme m s"
  have s: "\<exists>u. xt ?s = Some u \<and> \<not> xt_cursorBlink u" "blink_frames ?s = [True]"
    using assms(1-4) by (auto simp: setTerminalTheme_def Let_def)
  then obtain u where u: "xt ?s = Some u" "\<not> xt_cursorBlink u" by blast
  have "\<exists>v. xt (setTerminalTheme n ?s) = Some v" "blink_frames (setTerminalTheme n ?s) = [True, False]"
    using n [of "system_theme ?s"] u s(2) by (auto simp: setTerminalTheme_def [of n] Let_def)
  then have "\<exists>u. xt (theme_frame (setTerminalTheme n ?s)) = Some u \<and> \<not> xt_cursorBlink u"
    by (auto simp: theme_frame_def)
  moreover have "\<exists>u. xt (theme_frame ?s) = Some u \<and> xt_cursorBlink u" using s u by (auto simp: theme_frame_def)
  ultimately show ?thesis by blast
qed

theorem two_changes_stop_blinking_witness:
  "\<exists>u. xt (theme_frame (setTerminalTheme ''system'' (setTerminalTheme ''system''
     \<lparr>doc = \<lparr>data_theme = [], dark = True, localStorage = Map.empty\<rparr>, system_theme = [], selectedTheme = ''system'',
      xt = Some \<lparr>xt_theme = [], xt_cursorBlink = True\<rparr>, blink_frames = []\<rparr>))) = Some u \<and> \<not> xt_cursorBlink u"
  by (rule conjunct1 [OF two_changes_stop_blinking [where t = "\<lparr>xt_theme = [], xt_cursorBlink = True\<rparr>"]])
    (simp_all add: applicationTerminalThemes_def)

end
