(* ===== verification/Client_Layout.thy ===== *)
theory Client_Layout imports Complex_Main JS_Prelude begin

text \<open>
  How the terminal client covers the page and gives it back (\<^verbatim>\<open>resources/js/terminal.js\<close>): inline
  styles of the wrapper's ancestors are saved, overridden and restored, page scrolling is frozen and
  released, and the shell follows the software keyboard.

  Elements are numbers; \<open>HTML\<close> and \<open>BODY\<close> are the document's root and body. The inline style of an
  element maps a longhand property to its value and whether it is important; \<open>overflow\<close> and
  \<open>overscroll-behavior\<close> are shorthands for two longhands, as in CSS. Scroll offsets are whole pixels.
\<close>

section \<open>Inline styles\<close>

type_synonym style = "string \<Rightarrow> (string \<times> bool) option"

definition shorthand :: "string \<Rightarrow> (string \<times> string) option" where
  "shorthand p =
     (if p = ''overflow'' then Some (''overflow-x'', ''overflow-y'')
      else if p = ''overscroll-behavior'' then Some (''overscroll-behavior-x'', ''overscroll-behavior-y'')
      else None)"

text \<open>The two values of a shorthand: \<open>a\<close> stands for \<open>a a\<close>.\<close>

definition both_values :: "string \<Rightarrow> string \<times> string" where
  "both_values v =
     (case dropWhile (\<lambda>c. c \<noteq> SP) v of [] \<Rightarrow> (v, v) | _ # b \<Rightarrow> (takeWhile (\<lambda>c. c \<noteq> SP) v, b))"

definition setProperty :: "string \<Rightarrow> string \<Rightarrow> bool \<Rightarrow> style \<Rightarrow> style" where
  "setProperty p v imp st =
     (case shorthand p of
        None \<Rightarrow> st(p \<mapsto> (v, imp))
      | Some (x, y) \<Rightarrow> st(x \<mapsto> (fst (both_values v), imp), y \<mapsto> (snd (both_values v), imp)))"

definition removeProperty :: "string \<Rightarrow> style \<Rightarrow> style" where
  "removeProperty p st =
     (case shorthand p of None \<Rightarrow> st(p := None) | Some (x, y) \<Rightarrow> st(x := None, y := None))"

definition getPropertyValue :: "string \<Rightarrow> style \<Rightarrow> string" where
  "getPropertyValue p st =
     (case shorthand p of
        None \<Rightarrow> (case st p of None \<Rightarrow> [] | Some (v, _) \<Rightarrow> v)
      | Some (x, y) \<Rightarrow>
          (case (st x, st y) of
             (Some (a, i), Some (b, j)) \<Rightarrow> if i \<noteq> j then [] else if a = b then a else a @ '' '' @ b
           | _ \<Rightarrow> []))"

text \<open>The closure \<open>restore\<close>, also the inner loop of \<open>restoreAncestorsAfterFullscreen\<close>.\<close>

definition restore :: "string \<Rightarrow> string \<Rightarrow> style \<Rightarrow> style" where
  "restore p v st = (if v \<noteq> [] then setProperty p v False st else removeProperty p st)"

section \<open>State\<close>

definition HTML :: nat where "HTML = 0"
definition BODY :: nat where "BODY = 1"

record viewport =
  vp_width :: rat
  vp_height :: rat
  vp_offsetTop :: rat

record geometry =
  visual :: "viewport option"
  innerWidth :: int
  innerHeight :: int
  clientHeight :: int
  clientWidth :: int

text \<open>
  What the document offers: the wrapper and the element \<^verbatim>\<open>terminal-container\<close>, if they are there, the
  ancestors of the latter up to the body, the \<open>main\<close> elements, and the elements whose computed position
  is \<open>static\<close>.
\<close>

record place =
  wrapper :: "nat option"
  host :: "nat option"
  host_ancestors :: "nat list"
  is_main :: "nat \<Rightarrow> bool"
  is_static :: "nat \<Rightarrow> bool"

text \<open>
  The component and the part of the document it changes. \<open>ancestors\<close> are those of the wrapper, from its
  parent up to the body; \<open>body_shells\<close> are the \<^verbatim>\<open>terminal-fullscreen-shell\<close> children of the body, each with
  whether it is or holds the element \<^verbatim>\<open>terminal\<close>.
\<close>

record layout =
  fullscreen :: bool
  styles :: "nat \<Rightarrow> style"
  fullscreenAncestorPatches :: "(nat \<times> (string \<times> string) list) list option"
  pageScrollLocked :: bool
  scrollLockY :: int
  scrollLockStyles :: "(nat \<times> string \<times> string) list option"
  preventPageScrollHandler :: bool
  scroll_x :: int
  scroll_y :: int
  fullscreen_class :: bool
  keyboardInset :: int
  keyboardAnchorTop :: int
  keyboardViewportHeight :: rat
  keyboardViewportWidth :: rat
  ancestors :: "nat list"
  body_shells :: "(nat \<times> bool) list"
  host_children :: "nat list"

definition on_style :: "nat \<Rightarrow> (style \<Rightarrow> style) \<Rightarrow> layout \<Rightarrow> layout" where
  "on_style el f s = s\<lparr>styles := (styles s)(el := f (styles s el))\<rparr>"

section \<open>Ancestors\<close>

definition SAVED :: "string list" where
  "SAVED = [''isolation'', ''transform'', ''filter'', ''backdrop-filter'', ''contain'', ''overflow'', ''overflow-x'',
     ''overflow-y'', ''will-change'', ''perspective'', ''z-index'', ''position'']"

definition NEUTRAL :: "(string \<times> string) list" where
  "NEUTRAL = [(''isolation'', ''auto''), (''transform'', ''none''), (''filter'', ''none''), (''backdrop-filter'', ''none''),
     (''contain'', ''none''), (''perspective'', ''none''), (''will-change'', ''auto''), (''overflow'', ''visible''),
     (''overflow-x'', ''visible''), (''overflow-y'', ''visible''), (''z-index'', ''auto'')]"

definition snapshot :: "style \<Rightarrow> (string \<times> string) list" where
  "snapshot st = map (\<lambda>p. (p, getPropertyValue p st)) SAVED"

definition set_all :: "(string \<times> string) list \<Rightarrow> style \<Rightarrow> style" where
  "set_all kvs st = fold (\<lambda>kv. setProperty (fst kv) (snd kv) True) kvs st"

definition restore_all :: "(string \<times> string) list \<Rightarrow> style \<Rightarrow> style" where
  "restore_all kvs st = fold (\<lambda>kv. restore (fst kv) (snd kv)) kvs st"

definition restore_patches :: "(nat \<times> (string \<times> string) list) list \<Rightarrow> layout \<Rightarrow> layout" where
  "restore_patches ps s = fold (\<lambda>p. on_style (fst p) (restore_all (snd p))) ps s"

definition restoreAncestorsAfterFullscreen :: "layout \<Rightarrow> layout" where
  "restoreAncestorsAfterFullscreen s =
     (case fullscreenAncestorPatches s of
        None \<Rightarrow> s
      | Some ps \<Rightarrow> (restore_patches ps s)\<lparr>fullscreenAncestorPatches := None\<rparr>)"

definition add_patch :: "nat \<Rightarrow> layout \<Rightarrow> layout" where
  "add_patch el s =
     s\<lparr>fullscreenAncestorPatches := Some (the (fullscreenAncestorPatches s) @ [(el, snapshot (styles s el))])\<rparr>"

definition patch_ancestor :: "nat \<Rightarrow> layout \<Rightarrow> layout" where
  "patch_ancestor el s = on_style el (set_all NEUTRAL) (add_patch el s)"

definition patch_main :: "place \<Rightarrow> nat \<Rightarrow> layout \<Rightarrow> layout" where
  "patch_main pl el s =
     (case find (is_main pl) (el # ancestors s) of
        None \<Rightarrow> s
      | Some m \<Rightarrow>
          let s1 = (if m \<in> fst ` set (the (fullscreenAncestorPatches s)) then s else add_patch m s) in
          on_style m (\<lambda>st. setProperty ''z-index'' ''100001'' True
              (if is_static pl m then setProperty ''position'' ''relative'' True st else st)) s1)"

definition patchAncestorsForFullscreen :: "place \<Rightarrow> nat \<Rightarrow> layout \<Rightarrow> layout" where
  "patchAncestorsForFullscreen pl el s =
     patch_main pl el (fold patch_ancestor (ancestors s)
       ((restoreAncestorsAfterFullscreen s)\<lparr>fullscreenAncestorPatches := Some []\<rparr>))"

text \<open>
  \<open>salvageStrayFullscreenNodes\<close>: shells an older version left on the body go back to the host when they
  are the wrapper or hold a terminal, and are removed otherwise.
\<close>

definition salvageStrayFullscreenNodes :: "place \<Rightarrow> layout \<Rightarrow> layout" where
  "salvageStrayFullscreenNodes pl s =
     (case host pl of
        None \<Rightarrow> s
      | Some h \<Rightarrow>
          let s1 = (case wrapper pl of
                      None \<Rightarrow> s
                    | Some w \<Rightarrow>
                        if ancestors s = [BODY]
                        then s\<lparr>ancestors := h # host_ancestors pl, host_children := host_children s @ [w],
                               body_shells := filter (\<lambda>n. fst n \<noteq> w) (body_shells s)\<rparr>
                        else s)
          in s1\<lparr>host_children := host_children s1 @ map fst (filter (\<lambda>n. wrapper pl = Some (fst n) \<or> snd n) (body_shells s1)),
                body_shells := []\<rparr>)"

section \<open>Page scroll\<close>

definition LOCK_SAVED :: "(nat \<times> string) list" where
  "LOCK_SAVED = [(HTML, ''overflow''), (HTML, ''overscroll-behavior''), (BODY, ''overflow''), (BODY, ''position''),
     (BODY, ''top''), (BODY, ''left''), (BODY, ''right''), (BODY, ''width''), (BODY, ''padding-right''),
     (BODY, ''overscroll-behavior'')]"

definition px :: "int \<Rightarrow> string" where
  "px n = show_int n @ ''px''"

definition js_round :: "rat \<Rightarrow> int" where
  "js_round x = \<lfloor>x + 1 / 2\<rfloor>"

text \<open>
  The body leaves the flow when its position becomes \<open>fixed\<close>: the document is no taller than the window any
  more, and the browser scrolls it to its origin. What was in view is kept there by the body's \<open>top\<close>.
\<close>

definition body_fixed :: "layout \<Rightarrow> layout" where
  "body_fixed s = s\<lparr>scroll_x := 0, scroll_y := 0\<rparr>"

definition lockPageScroll :: "geometry \<Rightarrow> layout \<Rightarrow> layout" where
  "lockPageScroll g s =
     (if pageScrollLocked s then s
      else let saved = map (\<lambda>(el, p). (el, p, getPropertyValue p (styles s el))) LOCK_SAVED;
               gap = max 0 (innerWidth g - clientWidth g);
               s1 = s\<lparr>pageScrollLocked := True, scrollLockY := scroll_y s, scrollLockStyles := Some saved,
                      preventPageScrollHandler := True\<rparr>;
               s2 = on_style HTML (set_all [(''overflow'', ''hidden''), (''overscroll-behavior'', ''none'')]) s1
           in body_fixed (on_style BODY (set_all ([(''overflow'', ''hidden''), (''overscroll-behavior'', ''none''), (''position'', ''fixed''),
                  (''top'', ''-'' @ px (scroll_y s)), (''left'', ''0''), (''right'', ''0''), (''width'', ''100%'')]
                  @ (if 0 < gap then [(''padding-right'', px gap)] else []))) s2))"

definition unlockPageScroll :: "layout \<Rightarrow> layout" where
  "unlockPageScroll s =
     (if \<not> pageScrollLocked s then s
      else (fold (\<lambda>(el, p, v). on_style el (restore p v))
             (case scrollLockStyles s of None \<Rightarrow> map (\<lambda>(el, p). (el, p, [])) LOCK_SAVED | Some saved \<Rightarrow> saved)
             (s\<lparr>pageScrollLocked := False, preventPageScrollHandler := False\<rparr>))
           \<lparr>scrollLockStyles := None, scroll_x := 0, scroll_y := scrollLockY s, scrollLockY := 0\<rparr>)"

text \<open>\<open>preventPageScrollHandler\<close>: whether a wheel or touch event on a target goes through.\<close>

definition scroll_allowed :: "bool \<Rightarrow> bool \<Rightarrow> bool \<Rightarrow> bool \<Rightarrow> bool" where
  "scroll_allowed is_element in_viewport in_toolbar in_button \<longleftrightarrow> is_element \<and> (in_viewport \<or> in_toolbar \<or> in_button)"

section \<open>The keyboard\<close>

definition on_wrapper :: "place \<Rightarrow> (style \<Rightarrow> style) \<Rightarrow> layout \<Rightarrow> layout" where
  "on_wrapper pl f s = (case wrapper pl of None \<Rightarrow> s | Some w \<Rightarrow> on_style w f s)"

definition syncFullscreenShellWithKeyboard :: "place \<Rightarrow> viewport option \<Rightarrow> layout \<Rightarrow> layout" where
  "syncFullscreenShellWithKeyboard pl v s =
     (if fullscreen s \<and> v \<noteq> None \<and> 0 < keyboardInset s
      then on_wrapper pl (set_all [(''top'', px (js_round (vp_offsetTop (the v)))),
             (''height'', px (js_round (vp_height (the v)))), (''bottom'', ''auto'')]) s
      else on_wrapper pl (fold removeProperty [''top'', ''height'', ''bottom'']) s)"

definition measured_width :: "geometry \<Rightarrow> rat" where
  "measured_width g = (case visual g of None \<Rightarrow> of_int (innerWidth g) | Some w \<Rightarrow> vp_width w)"

definition visible_bottom :: "geometry \<Rightarrow> rat" where
  "visible_bottom g = (case visual g of None \<Rightarrow> 0 | Some w \<Rightarrow> vp_height w + vp_offsetTop w)"

definition measured_height :: "geometry \<Rightarrow> rat" where
  "measured_height g = max (max (of_int (innerHeight g)) (of_int (clientHeight g))) (visible_bottom g)"

definition keyboard_height :: "geometry \<Rightarrow> layout \<Rightarrow> rat" where
  "keyboard_height g s =
     (if 80 < \<bar>keyboardViewportWidth s - measured_width g\<bar> then measured_height g
      else max (keyboardViewportHeight s) (measured_height g))"

definition updateKeyboardInset :: "place \<Rightarrow> geometry \<Rightarrow> layout \<Rightarrow> layout" where
  "updateKeyboardInset pl g s =
     (let tallest = keyboard_height g s;
          visualBottom = (if visual g = None then measured_height g else visible_bottom g)
      in syncFullscreenShellWithKeyboard pl (visual g)
           (s\<lparr>keyboardViewportHeight := tallest, keyboardViewportWidth := measured_width g,
              keyboardInset := (if innerWidth g < 640 \<and> visual g \<noteq> None then max 0 (js_round (tallest - visualBottom)) else 0),
              keyboardAnchorTop := js_round visualBottom\<rparr>))"

section \<open>Full screen\<close>

definition enterFullscreen :: "place \<Rightarrow> geometry \<Rightarrow> layout \<Rightarrow> layout" where
  "enterFullscreen pl g s =
     (case wrapper pl of
        None \<Rightarrow> s
      | Some w \<Rightarrow>
          if fullscreen s then s
          else let s1 = lockPageScroll g (patchAncestorsForFullscreen pl w (salvageStrayFullscreenNodes pl s));
                   s2 = on_style w (fold removeProperty [''display'', ''height'', ''min-height'']) s1
               in updateKeyboardInset pl g (s2\<lparr>fullscreen := True, fullscreen_class := True\<rparr>))"

definition exitFullscreen :: "place \<Rightarrow> geometry \<Rightarrow> layout \<Rightarrow> layout" where
  "exitFullscreen pl g s =
     (let s1 = (unlockPageScroll (restoreAncestorsAfterFullscreen s))\<lparr>fullscreen := False, fullscreen_class := False\<rparr>
      in updateKeyboardInset pl g (salvageStrayFullscreenNodes pl
           (on_wrapper pl (fold removeProperty [''display'', ''height'', ''min-height'']) s1)))"

definition makeFullscreen :: "place \<Rightarrow> geometry \<Rightarrow> layout \<Rightarrow> layout" where
  "makeFullscreen pl g s = (if fullscreen s then exitFullscreen pl g s else enterFullscreen pl g s)"

section \<open>Saving and restoring one style\<close>

definition LONG :: "string list" where
  "LONG = [''isolation'', ''transform'', ''filter'', ''backdrop-filter'', ''contain'', ''overflow-x'',
     ''overflow-y'', ''will-change'', ''perspective'', ''z-index'', ''position'']"

definition demote :: "(string \<times> bool) option \<Rightarrow> (string \<times> bool) option" where
  "demote x = map_option (\<lambda>vi. (fst vi, False)) x"

definition wf_style :: "style \<Rightarrow> bool" where
  "wf_style st \<longleftrightarrow> (\<forall>p v i. st p = Some (v, i) \<longrightarrow> v \<noteq> [])"

lemma restore_longhand:
  "shorthand p = None \<Longrightarrow> restore p v st = st(p := if v \<noteq> [] then Some (v, False) else None)"
  by (simp add: restore_def setProperty_def removeProperty_def)

lemma restore_shorthand:
  "shorthand p = Some (x, y) \<Longrightarrow> restore p v st =
     st(x := if v \<noteq> [] then Some (fst (both_values v), False) else None,
        y := if v \<noteq> [] then Some (snd (both_values v), False) else None)"
  by (simp add: restore_def setProperty_def removeProperty_def)

lemma get_longhand:
  "shorthand p = None \<Longrightarrow> wf_style st \<Longrightarrow>
     (if getPropertyValue p st \<noteq> [] then Some (getPropertyValue p st, False) else None) = demote (st p)"
  by (cases "st p") (auto simp: getPropertyValue_def wf_style_def demote_def)

lemma long_not_shorthand: "p \<in> set LONG \<Longrightarrow> shorthand p = None"
  by (auto simp: LONG_def shorthand_def)

lemma overflow_shorthand: "shorthand ''overflow'' = Some (''overflow-x'', ''overflow-y'')"
  by (simp add: shorthand_def)

text \<open>The entry for \<open>overflow\<close> is overwritten by the two that follow it.\<close>

lemma SAVED_split: "SAVED = take 5 LONG @ [''overflow''] @ drop 5 LONG"
  by (simp add: SAVED_def LONG_def)

lemma restore_longs:
  "distinct ps \<Longrightarrow> set ps \<subseteq> set LONG \<Longrightarrow>
     restore_all (map (\<lambda>p. (p, getPropertyValue p st)) ps) st' q =
       (if q \<in> set ps then (if getPropertyValue q st \<noteq> [] then Some (getPropertyValue q st, False) else None) else st' q)"
proof (induction ps arbitrary: st')
  case (Cons p ps)
  then have "shorthand p = None" using long_not_shorthand by auto
  with Cons show ?case by (auto simp: restore_all_def restore_longhand)
qed (simp add: restore_all_def)

lemma restore_snapshot:
  assumes "wf_style st"
  shows "restore_all (snapshot st) st' q = (if q \<in> set LONG then demote (st q) else st' q)"
proof -
  let ?f = "\<lambda>p. (p, getPropertyValue p st)"
  let ?a = "restore_all (map ?f (take 5 LONG)) st'"
  let ?b = "restore ''overflow'' (getPropertyValue ''overflow'' st) ?a"
  have split: "restore_all (snapshot st) st' = restore_all (map ?f (drop 5 LONG)) ?b"
    unfolding snapshot_def SAVED_split restore_all_def by simp
  have d: "distinct (take 5 LONG)" "distinct (drop 5 LONG)" by (simp_all add: LONG_def)
  have sub: "set (take 5 LONG) \<subseteq> set LONG" "set (drop 5 LONG) \<subseteq> set LONG"
    by (rule set_take_subset, rule set_drop_subset)
  have xy: "''overflow-x'' \<in> set (drop 5 LONG)" "''overflow-y'' \<in> set (drop 5 LONG)" by (simp_all add: LONG_def)
  have long: "q \<in> set LONG \<longleftrightarrow> q \<in> set (take 5 LONG) \<or> q \<in> set (drop 5 LONG)"
    by (metis Un_iff append_take_drop_id set_append)
  have b: "?b q = ?a q" if "q \<notin> set (drop 5 LONG)"
    using that xy by (auto simp: restore_shorthand [OF overflow_shorthand])
  show ?thesis
  proof (cases "q \<in> set (drop 5 LONG)")
    case True
    with long get_longhand [OF long_not_shorthand assms] show ?thesis
      unfolding split restore_longs [OF d(2) sub(2)] by auto
  next
    case False
    with long b get_longhand [OF long_not_shorthand assms] show ?thesis
      unfolding split restore_longs [OF d(2) sub(2)] using restore_longs [OF d(1) sub(1), of st st' q] by auto
  qed
qed

lemma set_outside: "p \<in> set LONG \<or> p = ''overflow'' \<Longrightarrow> q \<notin> set LONG \<Longrightarrow> setProperty p v i st q = st q"
  by (auto simp: setProperty_def long_not_shorthand overflow_shorthand) (auto simp: LONG_def)

lemma set_all_outside:
  "list_all (\<lambda>kv. fst kv \<in> set LONG \<or> fst kv = ''overflow'') kvs \<Longrightarrow> q \<notin> set LONG \<Longrightarrow> set_all kvs st q = st q"
  by (induction kvs arbitrary: st) (auto simp: set_all_def set_outside)

lemma neutral_outside: "q \<notin> set LONG \<Longrightarrow> set_all NEUTRAL st q = st q"
  by (rule set_all_outside) (simp_all add: NEUTRAL_def LONG_def)

section \<open>Entering and leaving full screen\<close>

lemma on_style_simps [simp]:
  "styles (on_style el f s) = (styles s)(el := f (styles s el))"
  "fullscreenAncestorPatches (on_style el f s) = fullscreenAncestorPatches s"
  "pageScrollLocked (on_style el f s) = pageScrollLocked s" "scroll_x (on_style el f s) = scroll_x s" "scroll_y (on_style el f s) = scroll_y s"
  "scrollLockY (on_style el f s) = scrollLockY s" "scrollLockStyles (on_style el f s) = scrollLockStyles s"
  "fullscreen (on_style el f s) = fullscreen s" "ancestors (on_style el f s) = ancestors s"
  by (simp_all add: on_style_def)

lemma patch_ancestor_simps [simp]:
  "styles (patch_ancestor el s) = (styles s)(el := set_all NEUTRAL (styles s el))"
  "pageScrollLocked (patch_ancestor el s) = pageScrollLocked s" "scroll_y (patch_ancestor el s) = scroll_y s"
  "ancestors (patch_ancestor el s) = ancestors s"
  by (simp_all add: patch_ancestor_def add_patch_def)

lemma patch_fold_frame [simp]:
  "pageScrollLocked (fold patch_ancestor els s) = pageScrollLocked s"
  "scroll_y (fold patch_ancestor els s) = scroll_y s"
  "ancestors (fold patch_ancestor els s) = ancestors s"
  by (induction els arbitrary: s) simp_all

lemma patch_fold_styles:
  "distinct els \<Longrightarrow>
     styles (fold patch_ancestor els s) x = (if x \<in> set els then set_all NEUTRAL (styles s x) else styles s x)"
  by (induction els arbitrary: s) auto

lemma patch_fold_patches:
  assumes "distinct els" "fullscreenAncestorPatches s = Some ps"
  shows "fullscreenAncestorPatches (fold patch_ancestor els s) = Some (ps @ map (\<lambda>el. (el, snapshot (styles s el))) els)"
  using assms
proof (induction els arbitrary: s ps)
  case (Cons el els)
  then have ps: "fullscreenAncestorPatches (patch_ancestor el s) = Some (ps @ [(el, snapshot (styles s el))])"
    by (simp add: patch_ancestor_def add_patch_def)
  from Cons.prems have "distinct els" "el \<notin> set els" by auto
  with Cons.IH [OF this(1) ps] show ?case by (auto intro: map_cong)
qed simp

lemma restore_patches_frame [simp]:
  "pageScrollLocked (restore_patches ps s) = pageScrollLocked s"
  "scrollLockStyles (restore_patches ps s) = scrollLockStyles s"
  "scrollLockY (restore_patches ps s) = scrollLockY s" "ancestors (restore_patches ps s) = ancestors s"
  by (induction ps arbitrary: s) (simp_all add: restore_patches_def)

lemma restore_patches_styles:
  "distinct (map fst ps) \<Longrightarrow> styles (restore_patches ps s) el =
    (case map_of ps el of None \<Rightarrow> styles s el | Some snap \<Rightarrow> restore_all snap (styles s el))"
proof (induction ps arbitrary: s)
  case (Cons p ps)
  then have "map_of ps (fst p) = None" by (simp add: map_of_eq_None_iff)
  with Cons show ?case by (cases "el = fst p") (simp_all add: restore_patches_def split: option.split)
qed (simp add: restore_patches_def)

lemmas restore_ancestors = restoreAncestorsAfterFullscreen_def

text \<open>The patches made on the way in, and what they leave of an ancestor's style.\<close>

definition extra_patch :: "place \<Rightarrow> nat \<Rightarrow> layout \<Rightarrow> (nat \<times> (string \<times> string) list) list" where
  "extra_patch pl w s =
     (case find (is_main pl) (w # ancestors s) of
        None \<Rightarrow> []
      | Some m \<Rightarrow> if m \<in> set (ancestors s) then [] else [(m, snapshot (styles s m))])"

lemma patch_patches:
  assumes "distinct (ancestors s)" "fullscreenAncestorPatches s = None"
  shows "fullscreenAncestorPatches (patchAncestorsForFullscreen pl w s) =
    Some (map (\<lambda>el. (el, snapshot (styles s el))) (ancestors s) @ extra_patch pl w s)"
proof -
  let ?s = "s\<lparr>fullscreenAncestorPatches := Some []\<rparr>"
  let ?t = "fold patch_ancestor (ancestors s) ?s"
  let ?ps = "map (\<lambda>el. (el, snapshot (styles s el))) (ancestors s)"
  have t: "fullscreenAncestorPatches ?t = Some ?ps" using patch_fold_patches [OF assms(1), of ?s "[]"] by simp
  have keys: "fst ` set ?ps = set (ancestors s)" by force
  have main: "patchAncestorsForFullscreen pl w s = patch_main pl w ?t"
    using assms(2) by (simp add: patchAncestorsForFullscreen_def restore_ancestors)
  show ?thesis
  proof (cases "find (is_main pl) (w # ancestors s)")
    case (Some m)
    have "styles ?t m = styles s m" if "m \<notin> set (ancestors s)"
      using that patch_fold_styles [OF assms(1), of ?s m] by simp
    with Some t keys show ?thesis
      unfolding main patch_main_def extra_patch_def by (simp add: add_patch_def del: find.simps)
  qed (simp add: main patch_main_def extra_patch_def t del: find.simps)
qed

lemma patch_keys:
  "distinct (ancestors s) \<Longrightarrow> distinct (map fst (map (\<lambda>el. (el, snapshot (styles s el))) (ancestors s) @ extra_patch pl w s))"
  by (auto simp: extra_patch_def comp_def split: option.split)

lemma patch_lookup:
  assumes "el \<in> set (ancestors s)"
  shows "map_of (map (\<lambda>el. (el, snapshot (styles s el))) (ancestors s) @ extra_patch pl w s) el = Some (snapshot (styles s el))"
  using assms by (simp add: map_add_Some_iff map_of_map_restrict map_add_def split: option.split)

lemma patch_styles_outside:
  assumes "distinct (ancestors s)" "fullscreenAncestorPatches s = None" "q \<notin> set LONG"
  shows "styles (patchAncestorsForFullscreen pl w s) el q = styles s el q"
proof -
  let ?t = "fold patch_ancestor (ancestors s) (s\<lparr>fullscreenAncestorPatches := Some []\<rparr>)"
  have t: "styles ?t el q = styles s el q"
    using patch_fold_styles [OF assms(1), of "s\<lparr>fullscreenAncestorPatches := Some []\<rparr>" el] neutral_outside [OF assms(3)] by simp
  have zp: "''z-index'' \<in> set LONG" "''position'' \<in> set LONG" by (simp_all add: LONG_def)
  have "styles (patch_main pl w ?t) el q = styles ?t el q"
    using zp assms(3)
    by (auto simp: patch_main_def Let_def add_patch_def set_outside simp del: find.simps split: option.split)
  with t assms(2) show ?thesis by (simp add: patchAncestorsForFullscreen_def restore_ancestors)
qed

lemma lock_frame [simp]:
  "fullscreenAncestorPatches (lockPageScroll g s) = fullscreenAncestorPatches s"
  "ancestors (lockPageScroll g s) = ancestors s"
  "\<not> pageScrollLocked s \<Longrightarrow> scroll_x (lockPageScroll g s) = 0" "\<not> pageScrollLocked s \<Longrightarrow> scroll_y (lockPageScroll g s) = 0"
  "pageScrollLocked (lockPageScroll g s)"
  by (simp_all add: lockPageScroll_def Let_def body_fixed_def)

definition lock_saved :: "layout \<Rightarrow> (nat \<times> string \<times> string) list" where
  "lock_saved s = map (\<lambda>(el, p). (el, p, getPropertyValue p (styles s el))) LOCK_SAVED"

lemma lock_saves:
  "\<not> pageScrollLocked s \<Longrightarrow> scrollLockStyles (lockPageScroll g s) = Some (lock_saved s)"
  "\<not> pageScrollLocked s \<Longrightarrow> scrollLockY (lockPageScroll g s) = scroll_y s"
  by (simp_all add: lockPageScroll_def Let_def lock_saved_def body_fixed_def)

lemma lock_styles: "el \<noteq> HTML \<Longrightarrow> el \<noteq> BODY \<Longrightarrow> styles (lockPageScroll g s) el = styles s el"
  by (simp add: lockPageScroll_def Let_def body_fixed_def)

definition restore_saved :: "(nat \<times> string \<times> string) list \<Rightarrow> layout \<Rightarrow> layout" where
  "restore_saved xs s = fold (\<lambda>(el, p, v). on_style el (restore p v)) xs s"

lemma restore_saved_frame [simp]:
  "fullscreenAncestorPatches (restore_saved xs s) = fullscreenAncestorPatches s"
  "pageScrollLocked (restore_saved xs s) = pageScrollLocked s"
  by (induction xs arbitrary: s) (auto simp: restore_saved_def split: prod.splits)

lemma unlock_locked:
  "pageScrollLocked s \<Longrightarrow> scrollLockStyles s = Some xs \<Longrightarrow>
     unlockPageScroll s = (restore_saved xs (s\<lparr>pageScrollLocked := False, preventPageScrollHandler := False\<rparr>))
       \<lparr>scrollLockStyles := None, scroll_x := 0, scroll_y := scrollLockY s, scrollLockY := 0\<rparr>"
  by (simp add: unlockPageScroll_def restore_saved_def)

text \<open>What a list of saved properties does to one element: the entries of that element, in order.\<close>

lemma restore_saved_styles:
  "styles (restore_saved xs s) el = restore_all (map snd (filter (\<lambda>x. fst x = el) xs)) (styles s el)"
  by (induction xs arbitrary: s) (auto simp: restore_saved_def restore_all_def split: prod.splits)

lemma saved_elsewhere: "el \<noteq> HTML \<Longrightarrow> el \<noteq> BODY \<Longrightarrow> filter (\<lambda>x. fst x = el) (lock_saved s) = []"
  by (simp add: lock_saved_def LOCK_SAVED_def)


lemma saved_BODY:
  "map snd (filter (\<lambda>x. fst x = BODY) (lock_saved s)) =
     map (\<lambda>p. (p, getPropertyValue p (styles s BODY))) [''overflow'', ''position'', ''top'', ''left'', ''right'', ''width'',
       ''padding-right'', ''overscroll-behavior'']"
  by (simp add: lock_saved_def LOCK_SAVED_def HTML_def BODY_def)

text \<open>The parts of the component the keyboard and the wrapper's own style do not touch.\<close>

lemma on_wrapper_frame [simp]:
  "fullscreenAncestorPatches (on_wrapper pl f s) = fullscreenAncestorPatches s"
  "pageScrollLocked (on_wrapper pl f s) = pageScrollLocked s" "scroll_x (on_wrapper pl f s) = scroll_x s" "scroll_y (on_wrapper pl f s) = scroll_y s"
  "scrollLockY (on_wrapper pl f s) = scrollLockY s" "scrollLockStyles (on_wrapper pl f s) = scrollLockStyles s"
  "fullscreen (on_wrapper pl f s) = fullscreen s" "ancestors (on_wrapper pl f s) = ancestors s"
  by (simp_all add: on_wrapper_def split: option.split)

lemma on_wrapper_styles: "wrapper pl \<noteq> Some el \<Longrightarrow> styles (on_wrapper pl f s) el = styles s el"
  by (auto simp: on_wrapper_def split: option.split)

lemma sync_frame [simp]:
  "fullscreenAncestorPatches (syncFullscreenShellWithKeyboard pl v s) = fullscreenAncestorPatches s"
  "pageScrollLocked (syncFullscreenShellWithKeyboard pl v s) = pageScrollLocked s"
  "scroll_x (syncFullscreenShellWithKeyboard pl v s) = scroll_x s" "scroll_y (syncFullscreenShellWithKeyboard pl v s) = scroll_y s"
  "scrollLockY (syncFullscreenShellWithKeyboard pl v s) = scrollLockY s"
  "scrollLockStyles (syncFullscreenShellWithKeyboard pl v s) = scrollLockStyles s"
  "fullscreen (syncFullscreenShellWithKeyboard pl v s) = fullscreen s"
  by (simp_all add: syncFullscreenShellWithKeyboard_def)

lemma keyboard_frame [simp]:
  "fullscreenAncestorPatches (updateKeyboardInset pl g s) = fullscreenAncestorPatches s"
  "pageScrollLocked (updateKeyboardInset pl g s) = pageScrollLocked s"
  "scroll_x (updateKeyboardInset pl g s) = scroll_x s" "scroll_y (updateKeyboardInset pl g s) = scroll_y s" "scrollLockY (updateKeyboardInset pl g s) = scrollLockY s"
  "scrollLockStyles (updateKeyboardInset pl g s) = scrollLockStyles s"
  "fullscreen (updateKeyboardInset pl g s) = fullscreen s"
  by (simp_all add: updateKeyboardInset_def Let_def)

lemma keyboard_styles: "wrapper pl \<noteq> Some el \<Longrightarrow> styles (updateKeyboardInset pl g s) el = styles s el"
  by (simp add: updateKeyboardInset_def Let_def syncFullscreenShellWithKeyboard_def on_wrapper_styles)

lemma salvage_frame [simp]:
  "fullscreenAncestorPatches (salvageStrayFullscreenNodes pl s) = fullscreenAncestorPatches s"
  "pageScrollLocked (salvageStrayFullscreenNodes pl s) = pageScrollLocked s"
  "scroll_x (salvageStrayFullscreenNodes pl s) = scroll_x s" "scroll_y (salvageStrayFullscreenNodes pl s) = scroll_y s" "styles (salvageStrayFullscreenNodes pl s) = styles s"
  "fullscreen (salvageStrayFullscreenNodes pl s) = fullscreen s"
  by (simp_all add: salvageStrayFullscreenNodes_def Let_def split: option.split)

text \<open>
  The component at rest: not full screen, nothing locked or patched, and a wrapper in the document whose
  ancestors, once strays are back, are distinct elements between it and the root element.
\<close>

definition at_rest :: "place \<Rightarrow> nat \<Rightarrow> layout \<Rightarrow> bool" where
  "at_rest pl w s \<longleftrightarrow>
     wrapper pl = Some w \<and> \<not> fullscreen s \<and> \<not> pageScrollLocked s \<and> fullscreenAncestorPatches s = None
     \<and> distinct (w # ancestors (salvageStrayFullscreenNodes pl s))
     \<and> HTML \<notin> set (w # ancestors (salvageStrayFullscreenNodes pl s))"

definition patched :: "place \<Rightarrow> nat \<Rightarrow> layout \<Rightarrow> layout" where
  "patched pl w s = patchAncestorsForFullscreen pl w (salvageStrayFullscreenNodes pl s)"

definition chain_patches :: "place \<Rightarrow> nat \<Rightarrow> layout \<Rightarrow> (nat \<times> (string \<times> string) list) list" where
  "chain_patches pl w s =
     (let t = salvageStrayFullscreenNodes pl s in
      map (\<lambda>el. (el, snapshot (styles s el))) (ancestors t) @ extra_patch pl w t)"

lemma patch_main_frame [simp]:
  "pageScrollLocked (patch_main pl w s) = pageScrollLocked s" "scroll_y (patch_main pl w s) = scroll_y s"
  by (auto simp: patch_main_def Let_def add_patch_def simp del: find.simps split: option.split)

lemma patched_facts:
  assumes "at_rest pl w s"
  shows "fullscreenAncestorPatches (patched pl w s) = Some (chain_patches pl w s)"
    and "distinct (map fst (chain_patches pl w s))"
    and "\<not> pageScrollLocked (patched pl w s)" and "scroll_y (patched pl w s) = scroll_y s"
proof -
  let ?t = "salvageStrayFullscreenNodes pl s"
  from assms have t: "distinct (ancestors ?t)" "fullscreenAncestorPatches ?t = None" by (simp_all add: at_rest_def)
  show "fullscreenAncestorPatches (patched pl w s) = Some (chain_patches pl w s)"
    using patch_patches [OF t] by (simp add: patched_def chain_patches_def Let_def)
  show "distinct (map fst (chain_patches pl w s))"
    using patch_keys [OF t(1)] unfolding chain_patches_def Let_def salvage_frame(5) .
  show "\<not> pageScrollLocked (patched pl w s)" "scroll_y (patched pl w s) = scroll_y s"
    using assms t(2) by (simp_all add: at_rest_def patched_def patchAncestorsForFullscreen_def restore_ancestors)
qed

lemma entered:
  fixes g :: geometry
  assumes "at_rest pl w s"
  defines "e \<equiv> enterFullscreen pl g s" and "l \<equiv> lockPageScroll g (patched pl w s)"
  shows "el \<noteq> w \<Longrightarrow> styles e el = styles l el"
    and "fullscreenAncestorPatches e = Some (chain_patches pl w s)" and "pageScrollLocked e" and "fullscreen e"
    and "scrollLockStyles e = Some (lock_saved (patched pl w s))" and "scrollLockY e = scroll_y s"
    and "scroll_x e = 0" and "scroll_y e = 0"
  using assms(1) patched_facts [OF assms(1)]
  by (simp_all add: e_def l_def at_rest_def enterFullscreen_def Let_def keyboard_styles lock_saves flip: patched_def)

lemma exit_fields [simp]:
  "\<not> fullscreen (exitFullscreen pl g s)"
  "el \<noteq> w \<Longrightarrow> wrapper pl = Some w \<Longrightarrow>
     styles (exitFullscreen pl g s) el = styles (unlockPageScroll (restoreAncestorsAfterFullscreen s)) el"
  "pageScrollLocked (exitFullscreen pl g s) = pageScrollLocked (unlockPageScroll (restoreAncestorsAfterFullscreen s))"
  "scroll_x (exitFullscreen pl g s) = scroll_x (unlockPageScroll (restoreAncestorsAfterFullscreen s))"
  "scroll_y (exitFullscreen pl g s) = scroll_y (unlockPageScroll (restoreAncestorsAfterFullscreen s))"
  "fullscreenAncestorPatches (exitFullscreen pl g s) =
     fullscreenAncestorPatches (unlockPageScroll (restoreAncestorsAfterFullscreen s))"
  by (simp_all add: exitFullscreen_def Let_def keyboard_styles on_wrapper_styles)

text \<open>What a round trip leaves of the style of an element other than the wrapper.\<close>

lemma round_trip_style:
  fixes g :: geometry
  assumes "at_rest pl w s" "el \<noteq> w"
  defines "st \<equiv> styles (lockPageScroll g (patched pl w s)) el"
  shows "styles (exitFullscreen pl g' (enterFullscreen pl g s)) el =
    restore_all (map snd (filter (\<lambda>x. fst x = el) (lock_saved (patched pl w s))))
      (case map_of (chain_patches pl w s) el of None \<Rightarrow> st | Some snap \<Rightarrow> restore_all snap st)"
proof -
  let ?e = "enterFullscreen pl g s"
  note e = entered [OF assms(1), where g = g]
  from assms(1) have w: "wrapper pl = Some w" by (simp add: at_rest_def)
  have r: "restoreAncestorsAfterFullscreen ?e = (restore_patches (chain_patches pl w s) ?e)\<lparr>fullscreenAncestorPatches := None\<rparr>"
    by (simp add: restore_ancestors e(2))
  have "styles (exitFullscreen pl g' ?e) el = styles (unlockPageScroll (restoreAncestorsAfterFullscreen ?e)) el"
    using assms(2) w by simp
  also have "\<dots> = restore_all (map snd (filter (\<lambda>x. fst x = el) (lock_saved (patched pl w s))))
      (styles (restore_patches (chain_patches pl w s) ?e) el)"
    by (simp add: r unlock_locked [OF _ e(5)] e(3,5) unlock_locked restore_saved_styles)
  also have "styles (restore_patches (chain_patches pl w s) ?e) el =
      (case map_of (chain_patches pl w s) el of None \<Rightarrow> st | Some snap \<Rightarrow> restore_all snap st)"
    by (simp add: restore_patches_styles [OF patched_facts(2) [OF assms(1)]] e(1) [OF assms(2)] st_def split: option.split)
  finally show ?thesis .
qed

lemma chain_lookup:
  assumes "el \<in> set (ancestors (salvageStrayFullscreenNodes pl s))"
  shows "map_of (chain_patches pl w s) el = Some (snapshot (styles s el))"
  using patch_lookup [OF assms, of pl w] by (simp add: chain_patches_def Let_def)

lemma patched_outside: "at_rest pl w s \<Longrightarrow> q \<notin> set LONG \<Longrightarrow> styles (patched pl w s) el q = styles s el q"
  unfolding patched_def by (subst patch_styles_outside) (simp_all add: at_rest_def)

text \<open>A page with its terminal below \<open>main\<close>, element 2, which is transformed and hides its overflow.\<close>

definition sample_place :: place where
  "sample_place = \<lparr>wrapper = Some 4, host = Some 3, host_ancestors = [2, 1], is_main = (\<lambda>el. el = 2), is_static = (\<lambda>_. True)\<rparr>"

definition sample_layout :: layout where
  "sample_layout =
     \<lparr>fullscreen = False, styles = (\<lambda>_. Map.empty)(2 := [''transform'' \<mapsto> (''scale(1)'', True), ''overflow-x'' \<mapsto> (''hidden'', False)]),
      fullscreenAncestorPatches = None, pageScrollLocked = False, scrollLockY = 0, scrollLockStyles = None,
      preventPageScrollHandler = False, scroll_x = 0, scroll_y = 120, fullscreen_class = False, keyboardInset = 0, keyboardAnchorTop = 0,
      keyboardViewportHeight = 0, keyboardViewportWidth = 0, ancestors = [3, 2, 1], body_shells = [], host_children = [4]\<rparr>"

definition phone :: "rat \<Rightarrow> geometry" where
  "phone h = \<lparr>visual = Some \<lparr>vp_width = 390, vp_height = h, vp_offsetTop = 0\<rparr>, innerWidth = 390, innerHeight = 700,
     clientHeight = 700, clientWidth = 390\<rparr>"

lemma sample_chain: "ancestors (salvageStrayFullscreenNodes sample_place sample_layout) = [3, 2, 1]"
  by (simp add: salvageStrayFullscreenNodes_def Let_def sample_place_def sample_layout_def BODY_def)

lemma sample_at_rest: "at_rest sample_place 4 sample_layout"
  unfolding at_rest_def sample_chain by (simp add: sample_place_def sample_layout_def HTML_def)

lemma sample_transform: "styles sample_layout 2 ''transform'' = Some (''scale(1)'', True)"
  by (simp add: sample_layout_def)

lemma sample_wf: "wf_style (styles sample_layout 2)"
  by (simp add: wf_style_def sample_layout_def)

text \<open>
  C35. An element between the wrapper and the body has every inline property back after full screen was
  entered and left, with the value it had before; the properties that were overridden come back without
  their \<open>!important\<close>, all others exactly.
\<close>

theorem ancestors_restored:
  assumes "at_rest pl w s" "el \<in> set (ancestors (salvageStrayFullscreenNodes pl s))" "el \<noteq> BODY" "wf_style (styles s el)"
  shows "styles (exitFullscreen pl g' (enterFullscreen pl g s)) el p =
    (if p \<in> set LONG then demote (styles s el p) else styles s el p)"
proof -
  from assms have el: "el \<noteq> w" "el \<noteq> HTML" by (auto simp: at_rest_def)
  show ?thesis
    using assms patched_outside [OF assms(1), of p el]
    by (simp add: round_trip_style [OF assms(1) el(1)] saved_elsewhere el chain_lookup lock_styles restore_snapshot)
      (simp add: restore_all_def restore_snapshot [unfolded restore_all_def])
qed

theorem ancestors_restored_witness:
  "styles (exitFullscreen sample_place (phone 700) (enterFullscreen sample_place (phone 700) sample_layout)) 2 ''transform''
     = Some (''scale(1)'', False)"
  using ancestors_restored [OF sample_at_rest, of 2 "phone 700" "phone 700" "''transform''"]
  by (simp add: sample_wf sample_transform sample_chain BODY_def LONG_def demote_def)







lemma neutral_overflow:
  "set_all NEUTRAL st ''overflow-x'' = Some (''visible'', True)" "set_all NEUTRAL st ''overflow-y'' = Some (''visible'', True)"
  by (simp_all add: set_all_def NEUTRAL_def setProperty_def shorthand_def)

lemma patched_overflow:
  assumes "at_rest pl w s" "el \<in> set (ancestors (salvageStrayFullscreenNodes pl s))"
  shows "getPropertyValue ''overflow'' (styles (patched pl w s) el) = ''visible''"
proof -
  let ?t = "salvageStrayFullscreenNodes pl s"
  let ?u = "fold patch_ancestor (ancestors ?t) (?t\<lparr>fullscreenAncestorPatches := Some []\<rparr>)"
  have d: "distinct (ancestors ?t)" using assms(1) by (simp add: at_rest_def)
  have u: "styles ?u el = set_all NEUTRAL (styles s el)" using patch_fold_styles [OF d] assms(2) by simp
  have "styles (patch_main pl w ?u) el q = styles ?u el q" if "q \<noteq> ''z-index''" "q \<noteq> ''position''" for q
    using that by (auto simp: patch_main_def Let_def add_patch_def setProperty_def shorthand_def simp del: find.simps split: option.split)
  then show ?thesis
    using assms(1) u neutral_overflow
    by (simp add: patched_def at_rest_def patchAncestorsForFullscreen_def restore_ancestors getPropertyValue_def shorthand_def)
qed

lemma restore_elsewhere:
  "shorthand p = None \<Longrightarrow> p \<noteq> q \<Longrightarrow> restore p v st q = st q"
  "q \<noteq> ''overscroll-behavior-x'' \<Longrightarrow> q \<noteq> ''overscroll-behavior-y'' \<Longrightarrow> restore ''overscroll-behavior'' v st q = st q"
  by (simp_all add: restore_def setProperty_def removeProperty_def shorthand_def)

lemma body_scroll:
  assumes "getPropertyValue ''overflow'' st = ''visible''"
  shows "restore_all (map (\<lambda>p. (p, getPropertyValue p st)) [''overflow'', ''position'', ''top'', ''left'', ''right'', ''width'',
       ''padding-right'', ''overscroll-behavior'']) st' ''overflow-x'' = Some (''visible'', False)"
proof -
  have long: "shorthand p = None" if "p \<in> {''position'', ''top'', ''left'', ''right'', ''width'', ''padding-right''}" for p
    using that by (auto simp: shorthand_def)
  have "restore ''overflow'' ''visible'' st' ''overflow-x'' = Some (''visible'', False)"
    by (simp add: restore_shorthand [OF overflow_shorthand] both_values_def)
  then show ?thesis by (simp add: restore_all_def restore_elsewhere long assms)
qed

text \<open>
  C37. The body is not given back: its overflow is saved for the scroll lock only after the ancestors
  were patched, so what is restored last is the patch, and an inline \<open>overflow-x: visible\<close> stays on the
  body whatever it had before full screen.
\<close>

theorem body_overflow_left_visible:
  assumes "at_rest pl w s" "BODY \<in> set (ancestors (salvageStrayFullscreenNodes pl s))"
  shows "styles (exitFullscreen pl g' (enterFullscreen pl g s)) BODY ''overflow-x'' = Some (''visible'', False)"
proof -
  have w: "BODY \<noteq> w" using assms by (auto simp: at_rest_def)
  show ?thesis unfolding round_trip_style [OF assms(1) w] saved_BODY by (rule body_scroll) (rule patched_overflow [OF assms])
qed

theorem body_overflow_left_visible_witness:
  "styles sample_layout BODY ''overflow-x'' = None
   \<and> styles (exitFullscreen sample_place (phone 700) (enterFullscreen sample_place (phone 700) sample_layout)) BODY ''overflow-x''
     = Some (''visible'', False)"
  using body_overflow_left_visible [OF sample_at_rest, of "phone 700" "phone 700"]
  by (simp add: sample_chain BODY_def) (simp add: sample_layout_def)

section \<open>The keyboard's height\<close>

lemma sync_keyboard_frame [simp]:
  "keyboardViewportHeight (syncFullscreenShellWithKeyboard pl v s) = keyboardViewportHeight s"
  "keyboardViewportWidth (syncFullscreenShellWithKeyboard pl v s) = keyboardViewportWidth s"
  "keyboardInset (syncFullscreenShellWithKeyboard pl v s) = keyboardInset s"
  by (simp_all add: syncFullscreenShellWithKeyboard_def on_wrapper_def on_style_def split: option.split)

lemma keyboard_baseline:
  "keyboardViewportHeight (updateKeyboardInset pl g s) = keyboard_height g s"
  "keyboardViewportWidth (updateKeyboardInset pl g s) = measured_width g"
  by (simp_all add: updateKeyboardInset_def Let_def)

lemma keyboard_inset:
  "innerWidth g < 640 \<Longrightarrow> visual g \<noteq> None \<Longrightarrow>
     keyboardInset (updateKeyboardInset pl g s) = max 0 (js_round (keyboard_height g s - visible_bottom g))"
  by (auto simp: updateKeyboardInset_def Let_def)

lemma js_round_nat [simp]: "js_round (numeral n) = numeral n"
  by (simp add: js_round_def floor_eq_iff)

lemma keyboard_tallest:
  assumes "\<And>g. g \<in> set gs \<Longrightarrow> \<bar>keyboardViewportWidth s - measured_width g\<bar> = 0"
  shows "keyboardViewportHeight (fold (updateKeyboardInset pl) gs s) = Max (insert (keyboardViewportHeight s) (measured_height ` set gs))
    \<and> keyboardViewportWidth (fold (updateKeyboardInset pl) gs s) = keyboardViewportWidth s"
  using assms
proof (induction gs arbitrary: s)
  case (Cons g gs)
  let ?s = "updateKeyboardInset pl g s"
  have w: "keyboardViewportWidth ?s = keyboardViewportWidth s" and h: "keyboardViewportHeight ?s = max (keyboardViewportHeight s) (measured_height g)"
    using Cons.prems [of g] by (simp_all add: keyboard_baseline keyboard_height_def)
  have "keyboardViewportHeight (fold (updateKeyboardInset pl) gs ?s) = Max (insert (keyboardViewportHeight ?s) (measured_height ` set gs))"
    and "keyboardViewportWidth (fold (updateKeyboardInset pl) gs ?s) = keyboardViewportWidth ?s"
    using Cons.IH [of ?s] Cons.prems w by auto
  then show ?case using w h
    by (cases "gs = []") (simp_all add: Max_insert max.assoc max.left_commute)
qed simp

text \<open>
  On a phone the inset is the part of the viewport the keyboard hides: after any sequence of
  measurements at one width, the difference between the tallest height seen and the bottom edge of what
  is visible in the last one, rounded to a pixel and never negative.
\<close>

theorem keyboard_inset_measures_keyboard:
  assumes "keyboardViewportWidth s = width" "\<forall>h\<in>set (gs @ [g]). measured_width h = width"
    "innerWidth g < 640" "visual g \<noteq> None"
  shows "keyboardInset (fold (updateKeyboardInset pl) (gs @ [g]) s) =
    max 0 (js_round (Max (insert (keyboardViewportHeight s) (measured_height ` set (gs @ [g]))) - visible_bottom g))"
proof -
  have "keyboardViewportHeight (fold (updateKeyboardInset pl) (gs @ [g]) s) =
      Max (insert (keyboardViewportHeight s) (measured_height ` set (gs @ [g])))"
    using keyboard_tallest [of "gs @ [g]" s pl] assms by simp
  then show ?thesis using keyboard_inset [OF assms(3,4), of pl "fold (updateKeyboardInset pl) gs s"]
    by (simp add: keyboard_baseline)
qed

theorem keyboard_inset_measures_keyboard_witness:
  "keyboardInset (fold (updateKeyboardInset sample_place) [phone 700, phone 400] (sample_layout\<lparr>keyboardViewportWidth := 390\<rparr>)) = 300"
  using keyboard_inset_measures_keyboard [of "sample_layout\<lparr>keyboardViewportWidth := 390\<rparr>" 390 "[phone 700]" "phone 400" sample_place]
  by (simp add: measured_width_def measured_height_def visible_bottom_def phone_def sample_layout_def)

end
