(* ===== verification/Terminal_Client.thy ===== *)
theory Terminal_Client imports Terminal_Theme Client_Layout Session_Timer Js_Values begin

text \<open>
  The Alpine component around \<open>xterm.js\<close> (\<^verbatim>\<open>resources/js/terminal.js\<close>): its WebSocket with reconnection,
  keep-alive and heartbeat, the flow control of terminal output, the session countdown, input from the
  keyboard and the mobile key row, resizing, and the visibility of the tab.

  The component's fields are a record with the names of the source. Sockets and timers are numbered in
  the order of their creation; \<open>ready\<close> is the \<open>readyState\<close> of a socket, \<open>timers\<close> the callbacks that are
  due later, with their delay, and \<open>outs\<close> the calls out of the component, oldest first. What a callback
  reads from its surroundings (the clock, \<open>Math.random\<close>, the geometry of the page) is a \<open>world\<close> given
  with each event. A WebSocket that closes changes its state and delivers its \<open>error\<close> and \<open>close\<close> events
  in one task, so these are one event here.
\<close>

section \<open>State\<close>

datatype connection_state = Connecting | Connected | Disconnected | Reconnecting

datatype ready_state = CONNECTING | OPEN | CLOSING | CLOSED

datatype task =
    InitSocket
  | ConnectionTimeout
  | ReconnectDue
  | KeepAlive
  | PingTimeout
  | ResumeTimeout
  | CountdownTick
  | ResizeDue
  | ResizeNextTick
  | ResizeFrame
  | FocusDue
  | FocusWhenReady
  | SettleKeyboard
  | Salvage

datatype effect =
    Sent nat json
  | Wrote string
  | Dispatched string string
  | Announced string
  | CloseSent nat "nat option"
  | Focused
  | TermReset
  | TermOpened
  | Copied string

record term_options =
  fontSize :: nat
  fontWeight :: string
  lineHeight :: rat
  term_theme :: "theme option"

record client =
  page :: layout
  terminalActive :: bool
  starting :: bool
  message :: string
  terminal :: "term_options option"
  term_initialized :: bool
  term_cols :: int
  term_rows :: int
  term_style :: style
  socket :: "nat option"
  ready :: "nat \<Rightarrow> ready_state"
  next_socket :: nat
  commandBuffer :: string
  pendingWrites :: nat
  paused :: bool
  keepAliveInterval :: "nat option"
  reconnectInterval :: "nat option"
  connectionState :: connection_state
  reconnectAttempts :: nat
  connectionTimeoutId :: "nat option"
  lastPingTime :: "int option"
  pingTimeoutId :: "nat option"
  heartbeatMissed :: nat
  pendingCommand :: "json option"
  lastSentCommand :: "json option"
  resizeObserver :: "bool option"
  resizeTimeout :: "nat option"
  isDocumentVisible :: bool
  wasConnectedBeforeHidden :: bool
  mobileToolbarCollapsed :: bool
  terminalModifier :: "string option"
  keyboardInsetSettleTimeout :: "nat option"
  keyboard_listening :: bool
  terminalSessionStartedAt :: "int option"
  terminalSessionRemainingSeconds :: "rat option"
  terminalSessionCountdownInterval :: "nat option"
  timers :: "(nat \<times> rat \<times> task) list"
  next_timer :: nat
  outstanding :: nat
  outs :: "effect list"

definition MAX_PENDING_WRITES :: nat where "MAX_PENDING_WRITES = 5"
definition maxReconnectAttempts :: nat where "maxReconnectAttempts = 10"
definition baseReconnectDelay :: rat where "baseReconnectDelay = 1000"
definition maxReconnectDelay :: rat where "maxReconnectDelay = 30000"
definition connectionTimeout :: rat where "connectionTimeout = 10000"
definition pingTimeout :: rat where "pingTimeout = 35000"
definition maxHeartbeatMisses :: nat where "maxHeartbeatMisses = 3"

text \<open>
  What a callback can read: the clock, a random number, the time of day as text, the document's
  visibility and geometry, the size of the element that holds the terminal, the grid \<open>fit\<close> finds for it
  (\<open>None\<close> when it throws), whether \<open>write\<close> succeeds, the exception of \<open>new WebSocket\<close>, and the page's settings.
\<close>

record world =
  clock :: int
  rnd :: rat
  stamp :: string
  hidden :: bool
  geom :: geometry
  place_of :: place
  host_size :: "(int \<times> int) option"
  fit_grid :: "(int \<times> int) option"
  write_ok :: bool
  socket_error :: "string option"
  console_style :: bool
  selected_theme :: string
  system_theme :: theme

definition emit :: "effect \<Rightarrow> client \<Rightarrow> client" where
  "emit x s = s\<lparr>outs := outs s @ [x]\<rparr>"

definition dispatch :: "string \<Rightarrow> string \<Rightarrow> client \<Rightarrow> client" where
  "dispatch event detail = emit (Dispatched event detail)"

text \<open>A custom event on the component's element.\<close>

definition dispatchEvent :: "string \<Rightarrow> client \<Rightarrow> client" where
  "dispatchEvent eventName = emit (Announced eventName)"

section \<open>Timers\<close>

text \<open>\<open>setTimeout\<close> and \<open>setInterval\<close>; the id is the value of \<open>next_timer\<close> before the call.\<close>

definition set_timer :: "rat \<Rightarrow> task \<Rightarrow> client \<Rightarrow> client" where
  "set_timer delay t s = s\<lparr>timers := timers s @ [(next_timer s, delay, t)], next_timer := Suc (next_timer s)\<rparr>"

definition clear_timer :: "nat option \<Rightarrow> client \<Rightarrow> client" where
  "clear_timer i s =
     (case i of None \<Rightarrow> s | Some n \<Rightarrow> s\<lparr>timers := filter (\<lambda>x. fst x \<noteq> n) (timers s)\<rparr>)"

definition clearAllTimers :: "client \<Rightarrow> client" where
  "clearAllTimers s =
     (fold clear_timer
        [keepAliveInterval s, reconnectInterval s, connectionTimeoutId s, pingTimeoutId s, resizeTimeout s,
         terminalSessionCountdownInterval s] s)
       \<lparr>keepAliveInterval := None, reconnectInterval := None, connectionTimeoutId := None, pingTimeoutId := None,
        resizeTimeout := None, terminalSessionCountdownInterval := None\<rparr>"

section \<open>Session countdown\<close>

definition resetTerminalSessionCountdown :: "client \<Rightarrow> client" where
  "resetTerminalSessionCountdown s =
     (clear_timer (terminalSessionCountdownInterval s) s)
       \<lparr>terminalSessionStartedAt := None, terminalSessionRemainingSeconds := None,
        terminalSessionCountdownInterval := None\<rparr>"

definition updateTerminalSessionCountdown :: "world \<Rightarrow> client \<Rightarrow> client" where
  "updateTerminalSessionCountdown w s =
     (case terminalSessionStartedAt s of
        Some t \<Rightarrow>
          if t = 0 then s\<lparr>terminalSessionRemainingSeconds := None\<rparr>
          else s\<lparr>terminalSessionRemainingSeconds :=
                  Some (max 0 (of_int MAX_TERMINAL_SESSION_SECONDS - of_int (clock w - t) / 1000))\<rparr>
      | None \<Rightarrow> s\<lparr>terminalSessionRemainingSeconds := None\<rparr>)"

definition startTerminalSessionCountdown :: "world \<Rightarrow> client \<Rightarrow> client" where
  "startTerminalSessionCountdown w s =
     (let s1 = (resetTerminalSessionCountdown s)\<lparr>terminalSessionStartedAt := Some (clock w)\<rparr>;
          s2 = updateTerminalSessionCountdown w s1
      in set_timer 1000 CountdownTick (s2\<lparr>terminalSessionCountdownInterval := Some (next_timer s2)\<rparr>))"

definition terminalSessionRemainingLabel :: "client \<Rightarrow> string" where
  "terminalSessionRemainingLabel s =
     (case terminalSessionRemainingSeconds s of
        None \<Rightarrow> []
      | Some r \<Rightarrow> ''Session expires in '' @ formatTerminalSessionRemainingTime r)"

definition terminalSessionTimerClass :: "client \<Rightarrow> string" where
  "terminalSessionTimerClass s =
     (case terminalSessionRemainingSeconds s of
        None \<Rightarrow> ''text-neutral-300 bg-black/70 border-white/10''
      | Some r \<Rightarrow>
          if r \<le> of_int TERMINAL_SESSION_DANGER_SECONDS then ''text-red-200 bg-red-950/80 border-red-500/40''
          else if r \<le> of_int TERMINAL_SESSION_WARNING_SECONDS then ''text-yellow-200 bg-yellow-950/80 border-yellow-500/40''
          else ''text-neutral-300 bg-black/70 border-white/10'')"

section \<open>Messages to the server\<close>

definition current_ready :: "client \<Rightarrow> ready_state option" where
  "current_ready s = map_option (ready s) (socket s)"

definition sendMessage :: "json \<Rightarrow> client \<Rightarrow> client" where
  "sendMessage m s =
     (case socket s of
        Some i \<Rightarrow>
          if ready s i = OPEN
          then let s1 = emit (Sent i m) s in
               (case get_prop ''command'' m of
                  Some c \<Rightarrow> if truthy c then s1\<lparr>lastSentCommand := Some m\<rparr> else s1
                | None \<Rightarrow> s1)
          else s
      | None \<Rightarrow> s)"

definition isWebSocketReady :: "client \<Rightarrow> bool" where
  "isWebSocketReady s \<longleftrightarrow> connectionState s = Connected \<and> current_ready s = Some OPEN"

definition sendCommandWhenReady :: "json \<Rightarrow> client \<Rightarrow> client" where
  "sendCommandWhenReady m s = (if isWebSocketReady s then sendMessage m s else s\<lparr>pendingCommand := Some m\<rparr>)"

definition checkIfProcessIsRunningAndKillIt :: "client \<Rightarrow> client" where
  "checkIfProcessIsRunningAndKillIt = sendMessage (JObj [(''checkActive'', JStr ''force'')])"

section \<open>Size of the grid\<close>

text \<open>\<open>resizeTerminal\<close>: \<open>fit\<close> changes the grid to what the world offers, and a change is reported.\<close>

definition resizeTerminal :: "world \<Rightarrow> client \<Rightarrow> client" where
  "resizeTerminal w s =
     (if \<not> terminalActive s \<or> terminal s = None then s
      else (case host_size w of
              None \<Rightarrow> s
            | Some (height, width) \<Rightarrow>
                if \<not> term_initialized s then s
                else if height < 24 \<or> width < 24 then set_timer 50 ResizeDue s
                else (case fit_grid w of
                        None \<Rightarrow> s
                      | Some (cols, rows) \<Rightarrow>
                          let s1 = s\<lparr>term_cols := cols, term_rows := rows,
                                term_style := (term_style s)(''width'' \<mapsto> (''100%'', False), ''height'' \<mapsto> (''100%'', False),
                                  ''max-height'' \<mapsto> (''100%'', False))\<rparr>
                          in if 0 < cols \<and> 0 < rows \<and> (cols \<noteq> term_cols s \<or> rows \<noteq> term_rows s)
                             then sendMessage (JObj [(''resize'', JObj [(''cols'', JNum (of_int cols)), (''rows'', JNum (of_int rows))])]) s1
                             else s1)))"

definition scheduleTerminalResize :: "client \<Rightarrow> client" where
  "scheduleTerminalResize = set_timer 0 ResizeNextTick"

definition resize_next_tick :: "world \<Rightarrow> client \<Rightarrow> client" where
  "resize_next_tick w s = set_timer 0 ResizeFrame (resizeTerminal w s)"

definition resize_frame :: "world \<Rightarrow> client \<Rightarrow> client" where
  "resize_frame w s = set_timer 150 ResizeDue (set_timer 50 ResizeDue (resizeTerminal w s))"

section \<open>Full screen and keyboard of the component\<close>

definition leave_fullscreen :: "world \<Rightarrow> client \<Rightarrow> client" where
  "leave_fullscreen w s = scheduleTerminalResize (s\<lparr>page := exitFullscreen (place_of w) (geom w) (page s)\<rparr>)"

definition go_fullscreen :: "world \<Rightarrow> client \<Rightarrow> client" where
  "go_fullscreen w s =
     (if wrapper (place_of w) = None \<or> fullscreen (page s) then s
      else scheduleTerminalResize
             (set_timer 0 ResizeDue (s\<lparr>page := enterFullscreen (place_of w) (geom w) (page s)\<rparr>)))"

definition toggle_fullscreen :: "world \<Rightarrow> client \<Rightarrow> client" where
  "toggle_fullscreen w s = (if fullscreen (page s) then leave_fullscreen w s else go_fullscreen w s)"

definition update_inset :: "world \<Rightarrow> client \<Rightarrow> client" where
  "update_inset w s =
     (let s1 = s\<lparr>page := updateKeyboardInset (place_of w) (geom w) (page s)\<rparr> in
      if fullscreen (page s1) then set_timer 0 ResizeDue s1 else s1)"

definition syncKeyboardInset :: "world \<Rightarrow> client \<Rightarrow> client" where
  "syncKeyboardInset w s =
     (let s1 = update_inset w s;
          s2 = clear_timer (keyboardInsetSettleTimeout s1) s1
      in set_timer 250 SettleKeyboard (s2\<lparr>keyboardInsetSettleTimeout := Some (next_timer s2)\<rparr>))"

section \<open>Connection\<close>

text \<open>
  \<open>WebSocket.close\<close>: a code other than 1000 and 3000 to 4999 raises an exception, and a socket that is
  closing or closed is left alone.
\<close>

definition close_code_ok :: "nat option \<Rightarrow> bool" where
  "close_code_ok c \<longleftrightarrow> (case c of None \<Rightarrow> True | Some n \<Rightarrow> n = 1000 \<or> 3000 \<le> n \<and> n \<le> 4999)"

definition close_socket :: "nat option \<Rightarrow> client \<Rightarrow> client" where
  "close_socket c s =
     (case socket s of
        None \<Rightarrow> s
      | Some i \<Rightarrow>
          if close_code_ok c \<and> ready s i \<in> {CONNECTING, OPEN}
          then emit (CloseSent i c) (s\<lparr>ready := (ready s)(i := CLOSING)\<rparr>)
          else s)"

record page_location =
  loc_protocol :: string
  loc_hostname :: string
  loc_port :: string
  conf_host :: string
  conf_port :: string
  conf_protocol :: string

text \<open>The settings of \<open>window.terminalConfig\<close> are empty when absent.\<close>

definition socket_url :: "page_location \<Rightarrow> string" where
  "socket_url l =
     (let protocol = (if conf_protocol l \<noteq> [] then conf_protocol l else if loc_protocol l = ''https:'' then ''wss'' else ''ws'');
          host = (if conf_host l \<noteq> [] then conf_host l else loc_hostname l);
          port = (if conf_port l \<noteq> [] then '':'' @ conf_port l else if loc_port l = [] then [] else '':6002'')
      in protocol @ ''://'' @ host @ port @ ''/terminal/ws'')"

definition reconnect_delay :: "nat \<Rightarrow> rat \<Rightarrow> rat" where
  "reconnect_delay attempts r = min (baseReconnectDelay * 2 ^ attempts + r * 1000) maxReconnectDelay"

definition scheduleReconnect :: "world \<Rightarrow> client \<Rightarrow> client" where
  "scheduleReconnect w s =
     (if maxReconnectAttempts \<le> reconnectAttempts s
      then s\<lparr>message := ''(connection failed - max retries exceeded)''\<rparr>
      else let s1 = s\<lparr>connectionState := Reconnecting, reconnectInterval := Some (next_timer s)\<rparr>
           in set_timer (reconnect_delay (reconnectAttempts s) (rnd w)) ReconnectDue s1)"

definition handleConnectionError :: "world \<Rightarrow> string \<Rightarrow> client \<Rightarrow> client" where
  "handleConnectionError w reason s =
     (let s1 = s\<lparr>connectionState := Disconnected\<rparr>;
          s2 = (if 2 \<le> reconnectAttempts s1 then dispatch ''error'' (''Terminal connection error: '' @ reason) s1 else s1)
      in scheduleReconnect w s2)"

definition initializeWebSocket :: "world \<Rightarrow> client \<Rightarrow> client" where
  "initializeWebSocket w s =
     (if current_ready s \<noteq> None \<and> current_ready s \<noteq> Some CLOSED then s
      else let s1 = clearAllTimers (s\<lparr>connectionState := Connecting\<rparr>) in
           case socket_error w of
             Some e \<Rightarrow> handleConnectionError w (''Failed to create WebSocket connection: '' @ e) s1
           | None \<Rightarrow>
               let i = next_socket s1;
                   s2 = s1\<lparr>socket := Some i, next_socket := Suc i, ready := (ready s1)(i := CONNECTING),
                           connectionTimeoutId := Some (next_timer s1)\<rparr>
               in set_timer (if reconnectAttempts s = 0 then 15000 else connectionTimeout) ConnectionTimeout s2)"

definition connection_timed_out :: "world \<Rightarrow> client \<Rightarrow> client" where
  "connection_timed_out w s =
     (if connectionState s = Connecting then handleConnectionError w ''Connection timeout'' (close_socket None s) else s)"

definition resetPingTimeout :: "client \<Rightarrow> client" where
  "resetPingTimeout s =
     (let s1 = clear_timer (pingTimeoutId s) s in set_timer pingTimeout PingTimeout (s1\<lparr>pingTimeoutId := Some (next_timer s1)\<rparr>))"

definition ping_timed_out :: "client \<Rightarrow> client" where
  "ping_timed_out s =
     (let s1 = s\<lparr>heartbeatMissed := Suc (heartbeatMissed s)\<rparr> in
      if maxHeartbeatMisses \<le> heartbeatMissed s1 then close_socket (Some 1001) s1 else s1)"

definition replay_command :: "client \<Rightarrow> client" where
  "replay_command s =
     (case pendingCommand s of
        Some m \<Rightarrow> (sendMessage m s)\<lparr>pendingCommand := None\<rparr>
      | None \<Rightarrow> (case lastSentCommand s of Some m \<Rightarrow> sendMessage m s | None \<Rightarrow> s))"

definition handleSocketOpen :: "world \<Rightarrow> client \<Rightarrow> client" where
  "handleSocketOpen w s =
     (let s1 = s\<lparr>connectionState := Connected, reconnectAttempts := 0, heartbeatMissed := 0, lastPingTime := Some (clock w)\<rparr>;
          s2 = (clear_timer (connectionTimeoutId s1) s1)\<lparr>connectionTimeoutId := None\<rparr>;
          s3 = replay_command s2;
          s4 = (if keepAliveInterval s3 = None
                then set_timer 30000 KeepAlive (s3\<lparr>keepAliveInterval := Some (next_timer s3)\<rparr>) else s3);
          s5 = resetPingTimeout s4
      in dispatchEvent ''terminal-websocket-ready'' s5)"

text \<open>The marks on the screen; the source draws the dashes with U+2500, which no model of 256 characters has.\<close>

definition LOST_PREFIX :: string where
  "LOST_PREFIX = CR # LF # CHR 0x1B # ''[33m-- Connection lost at ''"

definition resetTerminal :: "world \<Rightarrow> client \<Rightarrow> client" where
  "resetTerminal w s =
     (if terminal s = None then s
      else let s1 = dispatch ''error'' ''Terminal websocket connection lost. Reconnecting...'' s;
               s2 = (if write_ok w
                     then emit (Wrote (LOST_PREFIX @ stamp w @ '', reconnecting... --'' @ [CHR 0x1B] @ ''[0m'' @ [CR, LF])) s1 else s1);
               s3 = resetTerminalSessionCountdown
                      (s2\<lparr>pendingWrites := 0, paused := False, commandBuffer := [], pendingCommand := None\<rparr>)
           in set_timer 0 FocusDue (set_timer 0 ResizeDue (dispatch ''terminalDisconnected'' [] s3)))"

definition handleSocketClose :: "world \<Rightarrow> nat \<Rightarrow> client \<Rightarrow> client" where
  "handleSocketClose w code_no s =
     (let s1 = resetTerminalSessionCountdown (clearAllTimers (s\<lparr>connectionState := Disconnected\<rparr>)) in
      if code_no \<noteq> 1000
      then scheduleReconnect w
             (if 0 < reconnectAttempts s1
              then (resetTerminal w s1)\<lparr>message := ''(connection closed)'', terminalActive := False\<rparr> else s1)
      else s1)"

definition handleSocketError :: "world \<Rightarrow> client \<Rightarrow> client" where
  "handleSocketError w = handleConnectionError w ''WebSocket error occurred''"

definition keepAlive :: "world \<Rightarrow> client \<Rightarrow> client" where
  "keepAlive w s =
     (if current_ready s = Some OPEN then sendMessage (JObj [(''ping'', JBool True)]) s
      else if connectionState s = Disconnected then initializeWebSocket w s
      else s)"

definition resume_timed_out :: "client \<Rightarrow> client" where
  "resume_timed_out = close_socket (Some 4000)"

definition handleVisibilityChange :: "world \<Rightarrow> client \<Rightarrow> client" where
  "handleVisibilityChange w s =
     (let wasVisible = isDocumentVisible s; s1 = s\<lparr>isDocumentVisible := \<not> hidden w\<rparr> in
      if hidden w
      then (clear_timer (pingTimeoutId s1) s1)\<lparr>wasConnectedBeforeHidden := (connectionState s = Connected), pingTimeoutId := None\<rparr>
      else if wasVisible then s1
      else if wasConnectedBeforeHidden s1 \<and> current_ready s1 = Some OPEN
      then let s2 = sendMessage (JObj [(''ping'', JBool True)]) (s1\<lparr>heartbeatMissed := 0\<rparr>);
               s3 = clear_timer (pingTimeoutId s2) s2
           in set_timer 5000 ResumeTimeout (s3\<lparr>pingTimeoutId := Some (next_timer s3)\<rparr>)
      else if wasConnectedBeforeHidden s1 \<and> connectionState s1 \<noteq> Connected
      then initializeWebSocket w (s1\<lparr>reconnectAttempts := 0\<rparr>)
      else s1)"

section \<open>Messages from the server\<close>

definition flowControlCallback :: "client \<Rightarrow> client" where
  "flowControlCallback s =
     (let s1 = s\<lparr>pendingWrites := pendingWrites s - 1\<rparr> in
      if MAX_PENDING_WRITES < pendingWrites s1 \<and> \<not> paused s1
      then sendMessage (JObj [(''pause'', JBool True)]) (s1\<lparr>paused := True\<rparr>)
      else if pendingWrites s1 \<le> MAX_PENDING_WRITES div 2 \<and> paused s1
      then sendMessage (JObj [(''resume'', JBool True)]) (s1\<lparr>paused := False\<rparr>)
      else s1)"

text \<open>A write to the terminal whose callback is owed; a write that throws is taken back at once.\<close>

definition write_output :: "world \<Rightarrow> string \<Rightarrow> client \<Rightarrow> client" where
  "write_output w text s =
     (let s1 = s\<lparr>pendingWrites := pendingWrites s + 1\<rparr> in
      if write_ok w \<and> terminal s \<noteq> None then emit (Wrote text) (s1\<lparr>outstanding := outstanding s + 1\<rparr>)
      else s1\<lparr>pendingWrites := pendingWrites s1 - 1\<rparr>)"

definition RECONNECTED_PREFIX :: string where
  "RECONNECTED_PREFIX = CR # LF # CHR 0x1B # ''[32m-- Reconnected at ''"

definition on_pty_ready :: "world \<Rightarrow> client \<Rightarrow> client" where
  "on_pty_ready w s0 =
     (let s = s0\<lparr>starting := False\<rparr> in
      if terminal s = None then s
      else let s1 = (if \<not> term_initialized s then emit TermOpened (s\<lparr>term_initialized := True\<rparr>)
                     else if write_ok w
                     then emit (Wrote (RECONNECTED_PREFIX @ stamp w @ '' --'' @ [CHR 0x1B] @ ''[0m'' @ [CR, LF])) s
                     else s);
               s2 = emit Focused (startTerminalSessionCountdown w (s1\<lparr>terminalActive := True\<rparr>));
               s3 = set_timer 500 FocusDue (set_timer 100 FocusDue (set_timer 200 ResizeDue (resizeTerminal w s2)))
           in dispatch ''terminalConnected'' [] s3)"

definition on_unprocessable :: "client \<Rightarrow> client" where
  "on_unprocessable s =
     (let s1 = (if terminal s \<noteq> None then emit TermReset (s\<lparr>starting := False\<rparr>) else s\<lparr>starting := False\<rparr>);
          s2 = resetTerminalSessionCountdown (s1\<lparr>terminalActive := False, lastSentCommand := None\<rparr>)
      in dispatch ''terminalDisconnected'' [] (s2\<lparr>message := ''(sorry, something went wrong, please try again)''\<rparr>))"

definition on_pty_exited :: "world \<Rightarrow> client \<Rightarrow> client" where
  "on_pty_exited w s =
     (let s1 = (leave_fullscreen w (s\<lparr>starting := False\<rparr>))\<lparr>mobileToolbarCollapsed := False, terminalActive := False\<rparr>;
          s2 = resetTerminalSessionCountdown s1
      in if terminal s2 = None then s2
         else dispatch ''terminalDisconnected'' [] ((emit TermReset s2)\<lparr>commandBuffer := [], lastSentCommand := None\<rparr>))"

definition on_rejected :: "string \<Rightarrow> client \<Rightarrow> client" where
  "on_rejected text s = resetTerminalSessionCountdown ((dispatch ''error'' text s)\<lparr>terminalActive := False\<rparr>)"

definition handleSocketMessage :: "world \<Rightarrow> string \<Rightarrow> client \<Rightarrow> client" where
  "handleSocketMessage w text s =
     (if text = ''pong'' then resetPingTimeout (s\<lparr>heartbeatMissed := 0, lastPingTime := Some (clock w)\<rparr>)
      else if text = ''pty-ready'' then on_pty_ready w s
      else if text = ''unprocessable'' then on_unprocessable s
      else if text = ''pty-exited'' then on_pty_exited w s
      else if starts_with ''Unauthorized:'' text \<or> starts_with ''Invalid SSH command:'' text then on_rejected text s
      else write_output w text s)"

section \<open>Input\<close>

definition on_data :: "string \<Rightarrow> client \<Rightarrow> client" where
  "on_data text s =
     (if terminal s = None then s
      else let s1 = sendMessage (JObj [(''message'', JStr text)]) s in
           s1\<lparr>commandBuffer := (if text = [CR] then [] else commandBuffer s1 @ text)\<rparr>)"

record key_event =
  ctrlKey :: bool
  key_code :: string
  key_type :: string

text \<open>Whether \<open>xterm\<close> handles a key, and what is copied instead; the selection is empty when there is none.\<close>

definition custom_key :: "key_event \<Rightarrow> string \<Rightarrow> client \<Rightarrow> client \<times> bool" where
  "custom_key k selection s =
     (if ctrlKey k \<and> key_code k = ''KeyV'' \<and> key_type k = ''keydown'' then (s, False)
      else if ctrlKey k \<and> key_code k = ''KeyC'' \<and> key_type k = ''keydown'' \<and> selection \<noteq> [] then (emit (Copied selection) s, False)
      else (s, True))"

definition sendTerminalInput :: "string \<Rightarrow> client \<Rightarrow> client" where
  "sendTerminalInput text s =
     (if terminal s = None \<or> \<not> terminalActive s then s else sendMessage (JObj [(''message'', JStr text)]) s)"

definition terminalSequences :: "(string \<times> string) list" where
  "terminalSequences =
     [(''arrowUp'', CHR 0x1B # ''[A''), (''arrowDown'', CHR 0x1B # ''[B''), (''arrowRight'', CHR 0x1B # ''[C''),
      (''arrowLeft'', CHR 0x1B # ''[D''), (''tab'', [CHR 0x09]), (''escape'', [CHR 0x1B]), (''ctrlC'', [CHR 0x03]),
      (''ctrlD'', [CHR 0x04]), (''ctrlBackslash'', [CHR 0x1C]), (''ctrlS'', [CHR 0x13]), (''ctrlZ'', [CHR 0x1A])]"

definition sendTerminalControl :: "string \<Rightarrow> client \<Rightarrow> client" where
  "sendTerminalControl sequence s =
     (case map_of terminalSequences sequence of
        None \<Rightarrow> s
      | Some text \<Rightarrow> sendTerminalInput text (s\<lparr>terminalModifier := None\<rparr>))"

definition toggleTerminalModifier :: "string \<Rightarrow> client \<Rightarrow> client" where
  "toggleTerminalModifier m s = s\<lparr>terminalModifier := (if terminalModifier s = Some m then None else Some m)\<rparr>"

text \<open>\<open>String.fromCharCode(key.toUpperCase().charCodeAt(0) & 31)\<close>, for a key that is an ASCII text.\<close>

definition upper_char :: "char \<Rightarrow> char" where
  "upper_char c = (if is_lower c then char_of (code c - 32) else c)"

definition control_char :: "string \<Rightarrow> char" where
  "control_char key = char_of (case key of [] \<Rightarrow> 0 | c # _ \<Rightarrow> take_bit 5 (code (upper_char c)))"

definition sendTerminalKey :: "string \<Rightarrow> client \<Rightarrow> client" where
  "sendTerminalKey key s =
     (let input = (if terminalModifier s = Some ''ctrl'' then [control_char key]
                   else if terminalModifier s = Some ''alt'' then CHR 0x1B # key else key)
      in sendTerminalInput input (s\<lparr>terminalModifier := None\<rparr>))"

text \<open>
  The outcome of the clipboard: \<open>None\<close> where the browser has no \<open>readText\<close>, \<open>Some None\<close> when it is
  refused.
\<close>

definition pasteFromClipboard :: "string option option \<Rightarrow> client \<Rightarrow> client" where
  "pasteFromClipboard outcome s =
     (case outcome of
        None \<Rightarrow> dispatch ''error'' ''Clipboard paste is not available in this browser.'' s
      | Some None \<Rightarrow> dispatch ''error'' ''Clipboard paste permission was denied.'' s
      | Some (Some text) \<Rightarrow> if text \<noteq> [] then sendTerminalInput text s else s)"

definition copyTerminalSelection :: "string \<Rightarrow> bool \<Rightarrow> client \<Rightarrow> client" where
  "copyTerminalSelection selection allowed s =
     (if terminal s = None \<or> selection = [] then dispatch ''error'' ''Select terminal text before copying.'' s
      else if allowed then emit (Copied selection) s
      else dispatch ''error'' ''Clipboard copy permission was denied.'' s)"

section \<open>Life of the component\<close>

definition setupTerminal :: "world \<Rightarrow> bool \<Rightarrow> client \<Rightarrow> client" where
  "setupTerminal w element_exists s =
     (if \<not> element_exists then s
      else set_timer 0 ResizeDue
             (s\<lparr>terminal := Some \<lparr>fontSize = (if console_style w then 13 else 14),
                   fontWeight = (if console_style w then ''550'' else ''normal''),
                   lineHeight = (if console_style w then 115 / 100 else 1),
                   term_theme =
                     (if console_style w
                      then Some (case applicationTerminalThemes (system_theme w) (selected_theme w) of
                                   Some t \<Rightarrow> t | None \<Rightarrow> system_theme w)
                      else None)\<rparr>,
                 term_cols := 80, term_rows := 30\<rparr>))"

definition client0 :: "layout \<Rightarrow> client" where
  "client0 p =
     \<lparr>page = p, terminalActive = False, starting = False, message = ''(connection closed)'', terminal = None,
      term_initialized = False, term_cols = 0, term_rows = 0, term_style = Map.empty, socket = None,
      ready = (\<lambda>_. CLOSED), next_socket = 0, commandBuffer = [], pendingWrites = 0, paused = False,
      keepAliveInterval = None, reconnectInterval = None, connectionState = Disconnected, reconnectAttempts = 0,
      connectionTimeoutId = None, lastPingTime = None, pingTimeoutId = None, heartbeatMissed = 0, pendingCommand = None,
      lastSentCommand = None, resizeObserver = None, resizeTimeout = None, isDocumentVisible = True,
      wasConnectedBeforeHidden = False, mobileToolbarCollapsed = False, terminalModifier = None,
      keyboardInsetSettleTimeout = None, keyboard_listening = False, terminalSessionStartedAt = None,
      terminalSessionRemainingSeconds = None, terminalSessionCountdownInterval = None, timers = [], next_timer = 1,
      outstanding = 0, outs = []\<rparr>"

text \<open>
  \<open>init\<close>, on a page with or without the element \<^verbatim>\<open>terminal\<close>, in a browser with or without
  \<open>ResizeObserver\<close>.
\<close>

definition start_client :: "world \<Rightarrow> bool \<Rightarrow> bool \<Rightarrow> bool \<Rightarrow> layout \<Rightarrow> client" where
  "start_client w auto_start element_exists has_observer p =
     (let s1 = update_inset w ((client0 p)\<lparr>starting := auto_start\<rparr>);
          s2 = setupTerminal w element_exists (set_timer 0 Salvage (s1\<lparr>keyboard_listening := True\<rparr>));
          s3 = set_timer 100 InitSocket s2
      in s3\<lparr>resizeObserver := (if has_observer then Some False else None)\<rparr>)"

definition focus_when_ready :: "client \<Rightarrow> client" where
  "focus_when_ready s =
     (if terminalActive s \<and> terminal s \<noteq> None then emit Focused s else set_timer 100 FocusWhenReady s)"

text \<open>The watcher of \<open>terminalActive\<close>.\<close>

definition on_active_change :: "world \<Rightarrow> client \<Rightarrow> client" where
  "on_active_change w s =
     (if terminalActive s
      then let s1 = resizeTerminal w (s\<lparr>page := on_wrapper (place_of w) (removeProperty ''display'') (page s)\<rparr>)
           in s1\<lparr>resizeObserver := map_option (\<lambda>_. True) (resizeObserver s1)\<rparr>
      else let s1 = clear_timer (keepAliveInterval s) s
           in s1\<lparr>page := on_wrapper (place_of w)
                   (if console_style w then removeProperty ''display'' else setProperty ''display'' ''none'' False) (page s1),
                 resizeObserver := map_option (\<lambda>_. False) (resizeObserver s1)\<rparr>)"

definition on_observed :: "client \<Rightarrow> client" where
  "on_observed s =
     (let s1 = clear_timer (resizeTimeout s) s in set_timer 50 ResizeDue (s1\<lparr>resizeTimeout := Some (next_timer s1)\<rparr>))"

definition cleanup :: "world \<Rightarrow> client \<Rightarrow> client" where
  "cleanup w s =
     (let s1 = clear_timer (keyboardInsetSettleTimeout s) (s\<lparr>keyboard_listening := False\<rparr>);
          s2 = clearAllTimers (checkIfProcessIsRunningAndKillIt s1);
          s3 = resetTerminalSessionCountdown (s2\<lparr>connectionState := Disconnected, pendingCommand := None\<rparr>);
          s4 = leave_fullscreen w s3;
          s5 = close_socket (Some 1000) (s4\<lparr>page := unlockPageScroll (page s4)\<rparr>)
      in clear_timer (resizeTimeout s5) (s5\<lparr>resizeObserver := None\<rparr>))"

definition destroy :: "client \<Rightarrow> client" where
  "destroy s = clear_timer (keyboardInsetSettleTimeout s) (s\<lparr>keyboard_listening := False\<rparr>)"

section \<open>Events\<close>

definition is_interval :: "task \<Rightarrow> bool" where
  "is_interval t \<longleftrightarrow> t = KeepAlive \<or> t = CountdownTick"

definition run_task :: "world \<Rightarrow> task \<Rightarrow> client \<Rightarrow> client" where
  "run_task w t s =
     (case t of
        InitSocket \<Rightarrow> initializeWebSocket w s
      | ConnectionTimeout \<Rightarrow> connection_timed_out w s
      | ReconnectDue \<Rightarrow> initializeWebSocket w (s\<lparr>reconnectAttempts := Suc (reconnectAttempts s)\<rparr>)
      | KeepAlive \<Rightarrow> keepAlive w s
      | PingTimeout \<Rightarrow> ping_timed_out s
      | ResumeTimeout \<Rightarrow> resume_timed_out s
      | CountdownTick \<Rightarrow> updateTerminalSessionCountdown w s
      | ResizeDue \<Rightarrow> resizeTerminal w s
      | ResizeNextTick \<Rightarrow> resize_next_tick w s
      | ResizeFrame \<Rightarrow> resize_frame w s
      | FocusDue \<Rightarrow> if terminal s = None then s else emit Focused s
      | FocusWhenReady \<Rightarrow> focus_when_ready s
      | SettleKeyboard \<Rightarrow> update_inset w s
      | Salvage \<Rightarrow> s\<lparr>page := salvageStrayFullscreenNodes (place_of w) (page s)\<rparr>)"

definition fire :: "world \<Rightarrow> nat \<Rightarrow> client \<Rightarrow> client" where
  "fire w n s =
     (case map_of (timers s) n of
        None \<Rightarrow> s
      | Some (_, t) \<Rightarrow> run_task w t (if is_interval t then s else clear_timer (Some n) s))"

datatype client_event =
    Fire nat
  | Opened nat
  | Received nat string
  | SocketClosed nat bool nat
  | WriteDone
  | VisibilityChanged
  | CommandGiven json
  | FocusAsked
  | TypedData string
  | KeyPressed key_event string
  | ControlTapped string
  | KeyTapped string
  | ModifierTapped string
  | PasteDone "string option option"
  | CopyTapped string bool
  | FullscreenTapped
  | ViewportChanged
  | WindowResized
  | SizeObserved
  | Leave
  | Destroyed

definition client_react :: "world \<Rightarrow> client_event \<Rightarrow> client \<Rightarrow> client" where
  "client_react w e s =
     (case e of
        Fire n \<Rightarrow> fire w n s
      | Opened i \<Rightarrow> handleSocketOpen w (s\<lparr>ready := (ready s)(i := OPEN)\<rparr>)
      | Received i text \<Rightarrow> handleSocketMessage w text s
      | SocketClosed i failed code_no \<Rightarrow>
          let s1 = s\<lparr>ready := (ready s)(i := CLOSED)\<rparr> in
          handleSocketClose w code_no (if failed then handleSocketError w s1 else s1)
      | WriteDone \<Rightarrow> flowControlCallback (s\<lparr>outstanding := outstanding s - 1\<rparr>)
      | VisibilityChanged \<Rightarrow> handleVisibilityChange w s
      | CommandGiven c \<Rightarrow> sendCommandWhenReady (JObj [(''command'', c)]) s
      | FocusAsked \<Rightarrow> focus_when_ready s
      | TypedData text \<Rightarrow> on_data text s
      | KeyPressed k selection \<Rightarrow> fst (custom_key k selection s)
      | ControlTapped c \<Rightarrow> sendTerminalControl c s
      | KeyTapped k \<Rightarrow> sendTerminalKey k s
      | ModifierTapped m \<Rightarrow> toggleTerminalModifier m s
      | PasteDone outcome \<Rightarrow> pasteFromClipboard outcome s
      | CopyTapped selection allowed \<Rightarrow> copyTerminalSelection selection allowed s
      | FullscreenTapped \<Rightarrow> toggle_fullscreen w s
      | ViewportChanged \<Rightarrow> syncKeyboardInset w s
      | WindowResized \<Rightarrow> resizeTerminal w s
      | SizeObserved \<Rightarrow> on_observed s
      | Leave \<Rightarrow> cleanup w s
      | Destroyed \<Rightarrow> destroy s)"

definition client_step :: "client \<Rightarrow> world \<times> client_event \<Rightarrow> client" where
  "client_step s we =
     (let s' = client_react (fst we) (snd we) s in
      if terminalActive s' \<noteq> terminalActive s then on_active_change (fst we) s' else s')"

text \<open>
  Which events can happen: a pending timer, an event of a socket in the right state, a write the
  terminal still has to report, and callbacks that are registered.
\<close>

definition client_event_ok :: "client \<Rightarrow> world \<times> client_event \<Rightarrow> bool" where
  "client_event_ok s we \<longleftrightarrow>
     0 \<le> rnd (fst we) \<and> rnd (fst we) < 1 \<and>
     (case snd we of
        Fire n \<Rightarrow> n \<in> fst ` set (timers s)
      | Opened i \<Rightarrow> ready s i = CONNECTING
      | Received i text \<Rightarrow> ready s i = OPEN
      | SocketClosed i failed code_no \<Rightarrow> ready s i \<noteq> CLOSED
      | WriteDone \<Rightarrow> 0 < outstanding s
      | KeyPressed k selection \<Rightarrow> terminal s \<noteq> None
      | ViewportChanged \<Rightarrow> keyboard_listening s
      | SizeObserved \<Rightarrow> resizeObserver s = Some True
      | _ \<Rightarrow> True)"

section \<open>Status\<close>

record connection_status =
  state :: connection_state
  readyState :: "ready_state option"
  status_attempts :: nat
  status_writes :: nat
  status_paused :: bool
  status_ping :: "int option"
  status_missed :: nat

definition getConnectionStatus :: "client \<Rightarrow> connection_status" where
  "getConnectionStatus s =
     \<lparr>state = connectionState s, readyState = current_ready s, status_attempts = reconnectAttempts s,
      status_writes = pendingWrites s, status_paused = paused s, status_ping = lastPingTime s,
      status_missed = heartbeatMissed s\<rparr>"

text \<open>
  The snapshot \<open>terminalThemeDebugSnapshot\<close> that is logged when the theme changes. The page is an argument:
  the console's shell with its \<open>data-console-theme\<close>, whether \<open>xterm\<close> has its two layers, and computed styles
  (of an element, a pseudo element or none, and a property).
\<close>

datatype look_element = ConsoleShell | XtermViewport | XtermScreen

record page_look =
  shell_theme :: "string option option"
  has_layer :: "look_element \<Rightarrow> bool"
  computed :: "look_element \<Rightarrow> string \<Rightarrow> string \<Rightarrow> string"

record theme_snapshot =
  snap_requested :: string
  snap_selected :: string
  snap_exists :: bool
  snap_opened :: bool
  snap_active :: bool
  snap_state :: connection_state
  snap_shellTheme :: "string option"
  snap_shellBackground :: "string option"
  snap_shellThemeBackground :: "string option"
  snap_shellThemeOpacity :: "string option"
  snap_shellPseudoBackground :: "string option"
  snap_viewportBackground :: "string option"
  snap_screenBackground :: "string option"
  snap_xtermBackground :: "string option"
  snap_xtermForeground :: "string option"
  snap_xtermCursor :: "string option"

definition xterm_color :: "string \<Rightarrow> client \<Rightarrow> string option" where
  "xterm_color k s = Option.bind (terminal s) (\<lambda>t. Option.bind (term_theme t) (\<lambda>th. map_of th k))"

definition terminalThemeDebugSnapshot :: "page_look \<Rightarrow> string \<Rightarrow> string \<Rightarrow> client \<Rightarrow> theme_snapshot" where
  "terminalThemeDebugSnapshot l chosen themeName s =
     (let opened = (terminal s \<noteq> None \<and> term_initialized s);
          of_shell = (\<lambda>pseudo p. if shell_theme l = None then None else Some (computed l ConsoleShell pseudo p));
          of_layer = (\<lambda>e. if opened \<and> has_layer l e then Some (computed l e [] ''background'') else None)
      in \<lparr>snap_requested = themeName, snap_selected = chosen, snap_exists = (terminal s \<noteq> None),
          snap_opened = opened, snap_active = terminalActive s, snap_state = connectionState s,
          snap_shellTheme = Option.bind (shell_theme l) id,
          snap_shellBackground = of_shell [] ''background'',
          snap_shellThemeBackground = of_shell [] ''--console-theme-background'',
          snap_shellThemeOpacity = of_shell [] ''--console-theme-opacity'',
          snap_shellPseudoBackground = of_shell ''::before'' ''background'',
          snap_viewportBackground = of_layer XtermViewport, snap_screenBackground = of_layer XtermScreen,
          snap_xtermBackground = xterm_color ''background'' s, snap_xtermForeground = xterm_color ''foreground'' s,
          snap_xtermCursor = xterm_color ''cursor'' s\<rparr>)"

text \<open>What \<open>logTerminal\<close> prints: the level, the message and the values after it.\<close>

definition log_client :: "bool \<Rightarrow> string \<Rightarrow> string \<Rightarrow> 'c list \<Rightarrow> (string \<times> string \<times> 'c list) list" where
  "log_client enabled level text context_values = (if enabled then [(level, text, context_values)] else [])"

text \<open>The debug switch: a parameter of the page is remembered, and the memory decides outside development.\<close>

definition remember_debug :: "string option \<Rightarrow> (string \<rightharpoonup> string) \<Rightarrow> (string \<rightharpoonup> string)" where
  "remember_debug parameter storage =
     (if parameter = Some ''1'' \<or> parameter = Some ''0'' then storage(''coolify-terminal-debug'' := parameter) else storage)"

definition debug_enabled :: "bool \<Rightarrow> (string \<rightharpoonup> string) \<Rightarrow> bool" where
  "debug_enabled dev storage \<longleftrightarrow> dev \<or> storage ''coolify-terminal-debug'' = Some ''1''"

end
