(* ===== verification/Client_Connection.thy ===== *)
theory Client_Connection imports Terminal_Client begin

text \<open>
  Invariants of the terminal client and what follows from them: one live connection, the flow
  control's counters, delays of reconnection, and defects of its timers.
\<close>

section \<open>Invariant\<close>

text \<open>A pending ping timeout is the one the component knows, and no miss was counted since it was set.\<close>

definition ping_ok :: "(nat \<times> rat \<times> task) list \<Rightarrow> nat option \<Rightarrow> nat \<Rightarrow> bool" where
  "ping_ok ts p h \<longleftrightarrow> (\<forall>x\<in>set ts. snd (snd x) = PingTimeout \<longrightarrow> p = Some (fst x) \<and> h = 0) \<and> h \<le> 1"

definition delays_ok :: "(nat \<times> rat \<times> task) list \<Rightarrow> bool" where
  "delays_ok ts \<longleftrightarrow> (\<forall>x\<in>set ts. snd (snd x) = ReconnectDue \<longrightarrow> 1000 \<le> fst (snd x) \<and> fst (snd x) \<le> 30000)"

text \<open>Only the current socket can be alive, and sockets not yet made are closed.\<close>

definition sockets_ok :: "nat option \<Rightarrow> (nat \<Rightarrow> ready_state) \<Rightarrow> nat \<Rightarrow> bool" where
  "sockets_ok so rd n \<longleftrightarrow> (\<forall>i. rd i \<noteq> CLOSED \<longrightarrow> so = Some i) \<and> (\<forall>i. n \<le> i \<longrightarrow> rd i = CLOSED)"

text \<open>No more writes are counted than the terminal owes, and a paused client still waits for some.\<close>

definition flow_ok :: "nat \<Rightarrow> bool \<Rightarrow> nat \<Rightarrow> bool" where
  "flow_ok writes p owed \<longleftrightarrow> writes \<le> owed \<and> (p \<longrightarrow> MAX_PENDING_WRITES div 2 < writes)"

definition client_inv :: "client \<Rightarrow> bool" where
  "client_inv s \<longleftrightarrow>
     ping_ok (timers s) (pingTimeoutId s) (heartbeatMissed s) \<and> delays_ok (timers s)
     \<and> sockets_ok (socket s) (ready s) (next_socket s) \<and> flow_ok (pendingWrites s) (paused s) (outstanding s)"

lemma inv_updates [simp]:
  "client_inv (s\<lparr>page := v0\<rparr>) = client_inv s"
  "client_inv (s\<lparr>terminalActive := v1\<rparr>) = client_inv s"
  "client_inv (s\<lparr>starting := v2\<rparr>) = client_inv s"
  "client_inv (s\<lparr>message := v3\<rparr>) = client_inv s"
  "client_inv (s\<lparr>terminal := v4\<rparr>) = client_inv s"
  "client_inv (s\<lparr>term_initialized := v5\<rparr>) = client_inv s"
  "client_inv (s\<lparr>term_cols := v6\<rparr>) = client_inv s"
  "client_inv (s\<lparr>term_rows := v7\<rparr>) = client_inv s"
  "client_inv (s\<lparr>term_style := v8\<rparr>) = client_inv s"
  "client_inv (s\<lparr>commandBuffer := v9\<rparr>) = client_inv s"
  "client_inv (s\<lparr>keepAliveInterval := v10\<rparr>) = client_inv s"
  "client_inv (s\<lparr>reconnectInterval := v11\<rparr>) = client_inv s"
  "client_inv (s\<lparr>connectionState := v12\<rparr>) = client_inv s"
  "client_inv (s\<lparr>reconnectAttempts := v13\<rparr>) = client_inv s"
  "client_inv (s\<lparr>connectionTimeoutId := v14\<rparr>) = client_inv s"
  "client_inv (s\<lparr>lastPingTime := v15\<rparr>) = client_inv s"
  "client_inv (s\<lparr>pendingCommand := v16\<rparr>) = client_inv s"
  "client_inv (s\<lparr>lastSentCommand := v17\<rparr>) = client_inv s"
  "client_inv (s\<lparr>resizeObserver := v18\<rparr>) = client_inv s"
  "client_inv (s\<lparr>resizeTimeout := v19\<rparr>) = client_inv s"
  "client_inv (s\<lparr>isDocumentVisible := v20\<rparr>) = client_inv s"
  "client_inv (s\<lparr>wasConnectedBeforeHidden := v21\<rparr>) = client_inv s"
  "client_inv (s\<lparr>mobileToolbarCollapsed := v22\<rparr>) = client_inv s"
  "client_inv (s\<lparr>terminalModifier := v23\<rparr>) = client_inv s"
  "client_inv (s\<lparr>keyboardInsetSettleTimeout := v24\<rparr>) = client_inv s"
  "client_inv (s\<lparr>keyboard_listening := v25\<rparr>) = client_inv s"
  "client_inv (s\<lparr>terminalSessionStartedAt := v26\<rparr>) = client_inv s"
  "client_inv (s\<lparr>terminalSessionRemainingSeconds := v27\<rparr>) = client_inv s"
  "client_inv (s\<lparr>terminalSessionCountdownInterval := v28\<rparr>) = client_inv s"
  "client_inv (s\<lparr>next_timer := v29\<rparr>) = client_inv s"
  "client_inv (s\<lparr>outs := v30\<rparr>) = client_inv s"
  by (simp_all add: client_inv_def)

lemma inv_emit [simp]: "client_inv (emit x s) = client_inv s" "client_inv (dispatch e d s) = client_inv s"
  by (simp_all add: emit_def dispatch_def)

lemma inv_set [simp]: "t \<noteq> PingTimeout \<Longrightarrow> t \<noteq> ReconnectDue \<Longrightarrow> client_inv (set_timer d t s) = client_inv s"
  by (simp add: set_timer_def client_inv_def ping_ok_def delays_ok_def)

lemma inv_send [simp]: "client_inv (sendMessage m s) = client_inv s"
  by (simp add: sendMessage_def Let_def split: option.split)

lemma inv_clear: "client_inv s \<Longrightarrow> client_inv (clear_timer i s)"
  by (auto simp: clear_timer_def client_inv_def ping_ok_def delays_ok_def split: option.split)

lemma clear_fields [simp]:
  "pingTimeoutId (clear_timer i s) = pingTimeoutId s" "heartbeatMissed (clear_timer i s) = heartbeatMissed s"
  "socket (clear_timer i s) = socket s" "ready (clear_timer i s) = ready s" "next_socket (clear_timer i s) = next_socket s"
  "pendingWrites (clear_timer i s) = pendingWrites s" "paused (clear_timer i s) = paused s"
  "outstanding (clear_timer i s) = outstanding s"
  by (simp_all add: clear_timer_def split: option.split)

text \<open>Forgetting a ping timeout that was cleared, or making a new one.\<close>

definition no_ping :: "client \<Rightarrow> bool" where
  "no_ping s \<longleftrightarrow> (\<forall>x\<in>set (timers s). snd (snd x) \<noteq> PingTimeout)"

lemma no_ping_updates [simp]:
  "no_ping (s\<lparr>keepAliveInterval := a\<rparr>) = no_ping s" "no_ping (s\<lparr>reconnectInterval := a\<rparr>) = no_ping s"
  "no_ping (s\<lparr>connectionTimeoutId := a\<rparr>) = no_ping s" "no_ping (s\<lparr>wasConnectedBeforeHidden := b\<rparr>) = no_ping s"
  by (simp_all add: no_ping_def)

lemma no_ping_clear: "client_inv s \<Longrightarrow> no_ping (clear_timer (pingTimeoutId s) s)"
  by (auto simp: no_ping_def client_inv_def ping_ok_def clear_timer_def split: option.split)

lemma no_ping_clear_more: "no_ping s \<Longrightarrow> no_ping (clear_timer i s)"
  by (auto simp: no_ping_def clear_timer_def split: option.split)

lemma inv_ping_id: "no_ping s \<Longrightarrow> client_inv s \<Longrightarrow> client_inv (s\<lparr>pingTimeoutId := p\<rparr>)"
  by (auto simp: client_inv_def ping_ok_def no_ping_def)

lemma inv_clear_ping: "client_inv s \<Longrightarrow> client_inv ((clear_timer (pingTimeoutId s) s)\<lparr>pingTimeoutId := p\<rparr>)"
  by (intro inv_ping_id no_ping_clear inv_clear)

lemma inv_missed0: "client_inv s \<Longrightarrow> client_inv (s\<lparr>heartbeatMissed := 0\<rparr>)"
  by (auto simp: client_inv_def ping_ok_def)

lemma inv_resetPing:
  assumes "client_inv s" "heartbeatMissed s = 0"
  shows "client_inv (resetPingTimeout s)"
  using no_ping_clear [OF assms(1)] inv_clear [OF assms(1), of "pingTimeoutId s"] assms
  by (auto simp: resetPingTimeout_def Let_def client_inv_def set_timer_def ping_ok_def delays_ok_def no_ping_def)

lemma inv_clearAll: "client_inv s \<Longrightarrow> client_inv (clearAllTimers s)"
proof -
  assume a: "client_inv s"
  let ?ids = "[keepAliveInterval s, reconnectInterval s, connectionTimeoutId s]"
  let ?s1 = "fold clear_timer ?ids s"
  have "client_inv ?s1" and id: "pingTimeoutId ?s1 = pingTimeoutId s" using a by (simp_all add: inv_clear)
  then have "no_ping (clear_timer (pingTimeoutId s) ?s1)" "client_inv (clear_timer (pingTimeoutId s) ?s1)"
    using no_ping_clear [of ?s1] by (simp_all add: inv_clear id)
  then show ?thesis unfolding clearAllTimers_def
    by (simp add: inv_ping_id no_ping_clear_more inv_clear)
qed

lemma inv_resetCountdown: "client_inv s \<Longrightarrow> client_inv (resetTerminalSessionCountdown s)"
  by (simp add: resetTerminalSessionCountdown_def inv_clear)

section \<open>Every operation keeps it\<close>

lemma inv_close: "client_inv s \<Longrightarrow> client_inv (close_socket c s)"
  by (auto simp: close_socket_def emit_def client_inv_def sockets_ok_def split: option.split)

lemma delay_bounds:
  assumes "0 \<le> r" "r < 1"
  shows "1000 \<le> reconnect_delay n r" "reconnect_delay n r \<le> 30000"
proof -
  have "(1::rat) \<le> 2 ^ n" by simp
  with assms have "1000 \<le> 1000 * 2 ^ n + r * 1000" by linarith
  then show "1000 \<le> reconnect_delay n r" "reconnect_delay n r \<le> 30000"
    by (simp_all add: reconnect_delay_def baseReconnectDelay_def maxReconnectDelay_def)
qed

lemma inv_schedule: "client_inv s \<Longrightarrow> 0 \<le> rnd w \<Longrightarrow> rnd w < 1 \<Longrightarrow> client_inv (scheduleReconnect w s)"
  by (auto simp: scheduleReconnect_def Let_def set_timer_def client_inv_def ping_ok_def delays_ok_def delay_bounds)

lemma inv_error: "client_inv s \<Longrightarrow> 0 \<le> rnd w \<Longrightarrow> rnd w < 1 \<Longrightarrow> client_inv (handleConnectionError w r s)"
  by (simp add: handleConnectionError_def Let_def inv_schedule)

lemma clearAll_fields [simp]:
  "socket (clearAllTimers s) = socket s" "ready (clearAllTimers s) = ready s" "next_socket (clearAllTimers s) = next_socket s"
  by (simp_all add: clearAllTimers_def)

lemma inv_new_socket:
  assumes "client_inv s" "current_ready s = None \<or> current_ready s = Some CLOSED"
  shows "client_inv (s\<lparr>socket := Some (next_socket s), next_socket := Suc (next_socket s),
    ready := (ready s)(next_socket s := CONNECTING)\<rparr>)"
  using assms by (cases "socket s") (auto simp: client_inv_def sockets_ok_def current_ready_def)

lemma inv_initialize:
  assumes "client_inv s" "0 \<le> rnd w" "rnd w < 1"
  shows "client_inv (initializeWebSocket w s)"
proof -
  let ?s1 = "clearAllTimers (s\<lparr>connectionState := Connecting\<rparr>)"
  have i: "client_inv ?s1" using assms(1) by (simp add: inv_clearAll)
  have r: "current_ready ?s1 = current_ready s" by (simp add: current_ready_def)
  show ?thesis
    using i inv_error [OF i assms(2,3)] inv_new_socket [OF i] r assms(1)
    by (auto simp: initializeWebSocket_def Let_def split: option.split)
qed

lemma inv_timed_out: "client_inv s \<Longrightarrow> 0 \<le> rnd w \<Longrightarrow> rnd w < 1 \<Longrightarrow> client_inv (connection_timed_out w s)"
  by (simp add: connection_timed_out_def inv_error inv_close)

lemma inv_replay [simp]: "client_inv (replay_command s) = client_inv s"
  by (simp add: replay_command_def split: option.split)

lemma missed_replay [simp]: "heartbeatMissed (replay_command s) = heartbeatMissed s"
  by (simp add: replay_command_def sendMessage_def Let_def emit_def split: option.split)

lemma missed_set [simp]: "heartbeatMissed (set_timer d t s) = heartbeatMissed s"
  by (simp add: set_timer_def)

lemma inv_open: "client_inv s \<Longrightarrow> client_inv (handleSocketOpen w s)"
  by (simp add: handleSocketOpen_def dispatchEvent_def Let_def inv_resetPing inv_clear inv_missed0)

lemma inv_reset_flow: "client_inv s \<Longrightarrow> client_inv (s\<lparr>pendingWrites := 0, paused := False\<rparr>)"
  by (simp add: client_inv_def flow_ok_def)

lemma inv_resetTerminal: "client_inv s \<Longrightarrow> client_inv (resetTerminal w s)"
  by (simp add: resetTerminal_def Let_def inv_resetCountdown inv_reset_flow)

lemma inv_closed: "client_inv s \<Longrightarrow> 0 \<le> rnd w \<Longrightarrow> rnd w < 1 \<Longrightarrow> client_inv (handleSocketClose w c s)"
  by (simp add: handleSocketClose_def Let_def inv_schedule inv_resetTerminal inv_resetCountdown inv_clearAll)

lemma inv_keepAlive: "client_inv s \<Longrightarrow> 0 \<le> rnd w \<Longrightarrow> rnd w < 1 \<Longrightarrow> client_inv (keepAlive w s)"
  by (simp add: keepAlive_def inv_initialize)

lemma inv_visibility:
  assumes "client_inv s" "0 \<le> rnd w" "rnd w < 1"
  shows "client_inv (handleVisibilityChange w s)"
proof -
  have "client_inv ((clear_timer (pingTimeoutId s) (s\<lparr>isDocumentVisible := b\<rparr>))\<lparr>wasConnectedBeforeHidden := c, pingTimeoutId := None\<rparr>)"
    for b c using no_ping_clear [of "s\<lparr>isDocumentVisible := b\<rparr>"] assms(1) by (simp add: inv_ping_id inv_clear)
  moreover have "client_inv ((clear_timer (pingTimeoutId t) t)\<lparr>pingTimeoutId := p\<rparr>)" if "client_inv t" for t p
    using that by (rule inv_clear_ping)
  ultimately show ?thesis
    using assms by (simp add: handleVisibilityChange_def Let_def inv_initialize inv_missed0)
qed

lemma inv_resize [simp]: "client_inv (resizeTerminal w s) = client_inv s"
  by (simp add: resizeTerminal_def Let_def split: option.split prod.split)

lemma inv_leave_fullscreen [simp]: "client_inv (leave_fullscreen w s) = client_inv s"
  by (simp add: leave_fullscreen_def scheduleTerminalResize_def)

lemma inv_go_fullscreen [simp]: "client_inv (go_fullscreen w s) = client_inv s"
  by (simp add: go_fullscreen_def scheduleTerminalResize_def)

lemma inv_update_inset [simp]: "client_inv (update_inset w s) = client_inv s"
  by (simp add: update_inset_def Let_def)

lemma inv_sync: "client_inv s \<Longrightarrow> client_inv (syncKeyboardInset w s)"
  by (simp add: syncKeyboardInset_def Let_def inv_clear)

lemma inv_update_countdown [simp]: "client_inv (updateTerminalSessionCountdown w s) = client_inv s"
  by (simp add: updateTerminalSessionCountdown_def split: option.split)

lemma inv_start_countdown: "client_inv s \<Longrightarrow> client_inv (startTerminalSessionCountdown w s)"
  by (simp add: startTerminalSessionCountdown_def Let_def inv_resetCountdown)

lemma inv_flow:
  "client_inv s \<Longrightarrow> flow_ok n b m \<Longrightarrow> client_inv (s\<lparr>outstanding := m, pendingWrites := n, paused := b\<rparr>)"
  "client_inv s \<Longrightarrow> flow_ok n (paused s) m \<Longrightarrow> client_inv (s\<lparr>outstanding := m, pendingWrites := n\<rparr>)"
  by (simp_all add: client_inv_def)

lemma inv_flow_callback: "client_inv s \<Longrightarrow> client_inv (flowControlCallback (s\<lparr>outstanding := outstanding s - Suc 0\<rparr>))"
proof -
  assume a: "client_inv s"
  then have "flow_ok (pendingWrites s) (paused s) (outstanding s)" by (simp add: client_inv_def)
  then show ?thesis unfolding flowControlCallback_def Let_def using a
    by (auto simp: MAX_PENDING_WRITES_def flow_ok_def intro!: inv_flow)
qed

lemma inv_write: "client_inv s \<Longrightarrow> client_inv (write_output w text s)"
  by (auto simp: write_output_def Let_def) (auto simp: client_inv_def flow_ok_def)

lemma inv_pty_ready: "client_inv s \<Longrightarrow> client_inv (on_pty_ready w s)"
  by (simp add: on_pty_ready_def Let_def inv_start_countdown)

lemma inv_message: "client_inv s \<Longrightarrow> client_inv (handleSocketMessage w text s)"
  by (simp add: handleSocketMessage_def inv_resetPing inv_missed0 inv_pty_ready inv_write)
    (simp add: on_unprocessable_def on_pty_exited_def on_rejected_def Let_def inv_resetCountdown)

lemma inv_input [simp]: "client_inv (sendTerminalInput t s) = client_inv s"
  by (simp add: sendTerminalInput_def)

lemma inv_user [simp]:
  "client_inv (on_data t s) = client_inv s" "client_inv (fst (custom_key k sel s)) = client_inv s"
  "client_inv (sendTerminalControl c s) = client_inv s" "client_inv (sendTerminalKey t s) = client_inv s"
  "client_inv (toggleTerminalModifier t s) = client_inv s" "client_inv (pasteFromClipboard oc s) = client_inv s"
  "client_inv (copyTerminalSelection sel al s) = client_inv s" "client_inv (sendCommandWhenReady m s) = client_inv s"
  "client_inv (focus_when_ready s) = client_inv s"
  by (simp_all add: on_data_def custom_key_def sendTerminalControl_def sendTerminalKey_def toggleTerminalModifier_def
      pasteFromClipboard_def copyTerminalSelection_def sendCommandWhenReady_def focus_when_ready_def Let_def split: option.split)

lemma inv_cleanup: "client_inv s \<Longrightarrow> client_inv (cleanup w s)"
  by (simp add: cleanup_def Let_def checkIfProcessIsRunningAndKillIt_def inv_clear inv_close inv_resetCountdown inv_clearAll)

lemma inv_active_change: "client_inv s \<Longrightarrow> client_inv (on_active_change w s)"
  by (simp add: on_active_change_def Let_def inv_clear)

text \<open>The ping timeout itself: the miss it counts is the only one, for no other timeout is pending.\<close>

lemma inv_ping_fires:
  assumes "client_inv s" "map_of (timers s) n = Some (d, PingTimeout)"
  shows "client_inv (ping_timed_out (clear_timer (Some n) s))"
proof -
  from assms have p: "pingTimeoutId s = Some n" "heartbeatMissed s = 0"
    by (auto simp: client_inv_def ping_ok_def dest!: map_of_SomeD)
  then have "no_ping (clear_timer (Some n) s)" using no_ping_clear [OF assms(1)] by simp
  with inv_clear [OF assms(1), of "Some n"] p show ?thesis
    by (simp add: ping_timed_out_def Let_def maxHeartbeatMisses_def client_inv_def ping_ok_def no_ping_def)
qed

lemma inv_run_task:
  "client_inv s \<Longrightarrow> 0 \<le> rnd w \<Longrightarrow> rnd w < 1 \<Longrightarrow> t \<noteq> PingTimeout \<Longrightarrow> client_inv (run_task w t s)"
  by (cases t) (simp_all add: run_task_def inv_initialize inv_timed_out inv_keepAlive resume_timed_out_def inv_close
      resize_next_tick_def resize_frame_def)

lemma inv_fire: "client_inv s \<Longrightarrow> 0 \<le> rnd w \<Longrightarrow> rnd w < 1 \<Longrightarrow> client_inv (fire w n s)"
proof (cases "map_of (timers s) n")
  case (Some dt)
  assume a: "client_inv s" "0 \<le> rnd w" "rnd w < 1"
  obtain d t where dt: "dt = (d, t)" by (cases dt)
  show ?thesis
  proof (cases "t = PingTimeout")
    case True
    with Some dt a show ?thesis by (simp add: fire_def is_interval_def run_task_def inv_ping_fires)
  qed (use Some dt a in \<open>simp add: fire_def inv_run_task inv_clear\<close>)
qed (simp add: fire_def)

lemma inv_ready:
  "client_inv s \<Longrightarrow> ready s i \<noteq> CLOSED \<Longrightarrow> client_inv (s\<lparr>ready := (ready s)(i := r)\<rparr>)"
  unfolding client_inv_def sockets_ok_def by simp (metis option.inject)

lemma inv_react:
  assumes "client_inv s" "client_event_ok s (w, e)"
  shows "client_inv (client_react w e s)"
proof -
  from assms(2) have r: "0 \<le> rnd w" "rnd w < 1" by (simp_all add: client_event_ok_def)
  show ?thesis
    using assms r
    by (cases e) (simp_all add: client_event_ok_def client_react_def inv_fire inv_open inv_ready inv_message
        Let_def inv_closed handleSocketError_def inv_error inv_flow_callback inv_visibility toggle_fullscreen_def
        inv_sync on_observed_def inv_clear inv_cleanup destroy_def)
qed

lemma conn_step: "client_inv s \<Longrightarrow> client_event_ok s we \<Longrightarrow> client_inv (client_step s we)"
  using inv_react [of s "fst we" "snd we"] by (simp add: client_step_def Let_def inv_active_change)

interpretation conn: invariant_machine client_step client_event_ok client_inv
  by unfold_locales (rule conn_step)

lemma inv_start: "client_inv (start_client w a e o1 p)"
  by (simp add: start_client_def setupTerminal_def Let_def)
    (simp add: client_inv_def client0_def ping_ok_def delays_ok_def sockets_ok_def flow_ok_def)

lemmas inv_run = conn.run_inv [OF inv_start]

section \<open>Results\<close>

definition sample_world :: world where
  "sample_world =
     \<lparr>clock = 1000, rnd = 1 / 2, stamp = ''10:00'', hidden = False, geom = phone 700, place_of = sample_place,
      host_size = Some (600, 800), fit_grid = Some (100, 40), write_ok = True, socket_error = None, console_style = True,
      selected_theme = ''system'', system_theme = []\<rparr>"

definition sample_client :: client where
  "sample_client = start_client sample_world True True True sample_layout"

lemmas run_simps =
  client_step_def client_react_def client_event_ok_def fire_def run_task_def is_interval_def Let_def
  start_client_def setupTerminal_def client0_def set_timer_def update_inset_def emit_def dispatch_def
  clear_timer_def clearAllTimers_def initializeWebSocket_def current_ready_def

text \<open>The state in which the first socket of a page is being opened.\<close>

lemma sample_connecting:
  "run_ok client_step client_event_ok sample_client [(sample_world, Fire 3)]"
  "run_events client_step sample_client [(sample_world, Fire 3)] = client_step sample_client (sample_world, Fire 3)"
  "ready (client_step sample_client (sample_world, Fire 3)) 0 = CONNECTING"
  by (simp_all add: run_simps sample_client_def sample_world_def sample_layout_def)

text \<open>
  C22. There is at most one live connection: whatever happens to a terminal component, a socket that is
  not closed is the one the component holds.
\<close>

theorem one_live_connection:
  assumes "run_ok client_step client_event_ok (start_client w a e o1 p) es"
    "ready (run_events client_step (start_client w a e o1 p) es) i \<noteq> CLOSED"
  shows "socket (run_events client_step (start_client w a e o1 p) es) = Some i"
  using inv_run [OF assms(1)] assms(2) by (auto simp: client_inv_def sockets_ok_def)

theorem one_live_connection_witness: "socket (run_events client_step sample_client [(sample_world, Fire 3)]) = Some 0"
  using one_live_connection [of sample_world True True True sample_layout "[(sample_world, Fire 3)]" 0] sample_connecting
  unfolding sample_client_def [symmetric] by simp

text \<open>
  C25. The heartbeat never closes a connection: the count of missed answers is meant to reach three, but
  the timeout that counts is not set again when it fires, so no run brings the count beyond one, and the
  branch that closes the socket is never taken.
\<close>

theorem heartbeat_never_closes:
  assumes "run_ok client_step client_event_ok (start_client w a e o1 p) es"
  shows "heartbeatMissed (run_events client_step (start_client w a e o1 p) es) \<le> 1 \<and> 1 < maxHeartbeatMisses"
  using inv_run [OF assms] by (simp add: client_inv_def ping_ok_def maxHeartbeatMisses_def)

theorem heartbeat_never_closes_witness:
  "heartbeatMissed (run_events client_step sample_client [(sample_world, Fire 3)]) \<le> 1"
  using heartbeat_never_closes [of sample_world True True True sample_layout "[(sample_world, Fire 3)]"] sample_connecting(1)
  unfolding sample_client_def [symmetric] by simp

section \<open>A page that is left while connecting\<close>

lemma set_fields [simp]:
  "socket (set_timer d t s) = socket s" "ready (set_timer d t s) = ready s" "next_socket (set_timer d t s) = next_socket s"
  "reconnectAttempts (set_timer d t s) = reconnectAttempts s" "terminalActive (set_timer d t s) = terminalActive s"
  "keepAliveInterval (set_timer d t s) = keepAliveInterval s" "timers (set_timer d t s) = timers s @ [(next_timer s, d, t)]"
  by (simp_all add: set_timer_def)

lemma emit_fields [simp]:
  "socket (emit x s) = socket s" "ready (emit x s) = ready s" "next_socket (emit x s) = next_socket s"
  "reconnectAttempts (emit x s) = reconnectAttempts s" "terminalActive (emit x s) = terminalActive s"
  "keepAliveInterval (emit x s) = keepAliveInterval s" "dispatch e d s = emit (Dispatched e d) s"
  by (simp_all add: emit_def dispatch_def)

lemma clear_more_fields [simp]:
  "reconnectAttempts (clear_timer i s) = reconnectAttempts s" "terminalActive (clear_timer i s) = terminalActive s"
  "keepAliveInterval (clear_timer i s) = keepAliveInterval s"
  by (simp_all add: clear_timer_def split: option.split)

lemma clearAll_more_fields [simp]:
  "reconnectAttempts (clearAllTimers s) = reconnectAttempts s" "terminalActive (clearAllTimers s) = terminalActive s"
  "keepAliveInterval (clearAllTimers s) = None"
  by (simp_all add: clearAllTimers_def)

lemma countdown_fields [simp]:
  "socket (resetTerminalSessionCountdown s) = socket s" "ready (resetTerminalSessionCountdown s) = ready s"
  "next_socket (resetTerminalSessionCountdown s) = next_socket s"
  "reconnectAttempts (resetTerminalSessionCountdown s) = reconnectAttempts s"
  "terminalActive (resetTerminalSessionCountdown s) = terminalActive s"
  "keepAliveInterval (resetTerminalSessionCountdown s) = keepAliveInterval s"
  by (simp_all add: resetTerminalSessionCountdown_def)

lemma send_fields [simp]:
  "socket (sendMessage m s) = socket s" "ready (sendMessage m s) = ready s" "next_socket (sendMessage m s) = next_socket s"
  "reconnectAttempts (sendMessage m s) = reconnectAttempts s" "terminalActive (sendMessage m s) = terminalActive s"
  "keepAliveInterval (sendMessage m s) = keepAliveInterval s"
  by (simp_all add: sendMessage_def Let_def split: option.split)

lemma leave_fields [simp]:
  "socket (leave_fullscreen w s) = socket s" "ready (leave_fullscreen w s) = ready s"
  "next_socket (leave_fullscreen w s) = next_socket s" "reconnectAttempts (leave_fullscreen w s) = reconnectAttempts s"
  "terminalActive (leave_fullscreen w s) = terminalActive s"
  by (simp_all add: leave_fullscreen_def scheduleTerminalResize_def)

lemma close_fields [simp]:
  "socket (close_socket c s) = socket s" "next_socket (close_socket c s) = next_socket s"
  "reconnectAttempts (close_socket c s) = reconnectAttempts s" "terminalActive (close_socket c s) = terminalActive s"
  by (simp_all add: close_socket_def split: option.split)

lemma cleanup_fields:
  "socket (cleanup w s) = socket s" "next_socket (cleanup w s) = next_socket s"
  "reconnectAttempts (cleanup w s) = reconnectAttempts s" "terminalActive (cleanup w s) = terminalActive s"
  by (simp_all add: cleanup_def Let_def checkIfProcessIsRunningAndKillIt_def)

lemma cleanup_closes:
  "socket s = Some i \<Longrightarrow> ready s i = CONNECTING \<Longrightarrow> ready (cleanup w s) = (ready s)(i := CLOSING)"
  by (simp add: cleanup_def Let_def checkIfProcessIsRunningAndKillIt_def close_socket_def close_code_ok_def)

lemma schedule_fields [simp]:
  "socket (scheduleReconnect w s) = socket s" "ready (scheduleReconnect w s) = ready s"
  "next_socket (scheduleReconnect w s) = next_socket s" "reconnectAttempts (scheduleReconnect w s) = reconnectAttempts s"
  "terminalActive (scheduleReconnect w s) = terminalActive s" "keepAliveInterval (scheduleReconnect w s) = keepAliveInterval s"
  by (simp_all add: scheduleReconnect_def Let_def)

lemma error_fields [simp]:
  "socket (handleSocketError w s) = socket s" "ready (handleSocketError w s) = ready s"
  "next_socket (handleSocketError w s) = next_socket s" "reconnectAttempts (handleSocketError w s) = reconnectAttempts s"
  "terminalActive (handleSocketError w s) = terminalActive s"
  by (simp_all add: handleSocketError_def handleConnectionError_def Let_def)

lemma resetTerminal_fields [simp]:
  "socket (resetTerminal w s) = socket s" "ready (resetTerminal w s) = ready s"
  "next_socket (resetTerminal w s) = next_socket s" "reconnectAttempts (resetTerminal w s) = reconnectAttempts s"
  "keepAliveInterval (resetTerminal w s) = keepAliveInterval s"
  by (simp_all add: resetTerminal_def Let_def)

lemma handleClose_fields:
  "socket (handleSocketClose w c s) = socket s" "ready (handleSocketClose w c s) = ready s"
  "next_socket (handleSocketClose w c s) = next_socket s" "reconnectAttempts (handleSocketClose w c s) = reconnectAttempts s"
  "keepAliveInterval (handleSocketClose w c s) = None"
  "terminalActive (handleSocketClose w c s) \<Longrightarrow> terminalActive s"
  by (simp_all add: handleSocketClose_def Let_def split: if_splits)

lemma active_change_fields:
  "\<not> terminalActive s \<Longrightarrow> keepAliveInterval s = None \<Longrightarrow>
     socket (on_active_change w s) = socket s \<and> ready (on_active_change w s) = ready s
     \<and> next_socket (on_active_change w s) = next_socket s \<and> timers (on_active_change w s) = timers s"
  by (simp add: on_active_change_def Let_def clear_timer_def)

lemma reconnect_opens:
  assumes "socket s = Some i" "ready s i = CLOSED" "socket_error w = None"
  shows "socket (run_task w ReconnectDue s) = Some (next_socket s) \<and> ready (run_task w ReconnectDue s) (next_socket s) = CONNECTING"
  using assms by (simp add: run_task_def initializeWebSocket_def current_ready_def Let_def)

text \<open>
  C27. Every attempt to reconnect that is waiting was scheduled with a delay of at least one and at most
  thirty seconds.
\<close>

theorem reconnect_delay_in_range:
  assumes "run_ok client_step client_event_ok (start_client w a e o1 p) es"
    "(n, d, ReconnectDue) \<in> set (timers (run_events client_step (start_client w a e o1 p) es))"
  shows "1000 \<le> d \<and> d \<le> 30000"
  using inv_run [OF assms(1)] assms(2) by (auto simp: client_inv_def delays_ok_def)

text \<open>Timer numbers are fresh: a timer that is set is found under its own number.\<close>

definition fresh :: "client \<Rightarrow> bool" where
  "fresh s \<longleftrightarrow> (\<forall>x\<in>set (timers s). fst x < next_timer s)"

lemma fresh_updates [simp]:
  "fresh (s\<lparr>page := v1\<rparr>) = fresh s" "fresh (s\<lparr>terminalActive := v2\<rparr>) = fresh s" "fresh (s\<lparr>message := v3\<rparr>) = fresh s"
  "fresh (s\<lparr>ready := v4\<rparr>) = fresh s" "fresh (s\<lparr>commandBuffer := v5\<rparr>) = fresh s" "fresh (s\<lparr>pendingWrites := v6\<rparr>) = fresh s"
  "fresh (s\<lparr>paused := v7\<rparr>) = fresh s" "fresh (s\<lparr>keepAliveInterval := v8\<rparr>) = fresh s" "fresh (s\<lparr>reconnectInterval := v8\<rparr>) = fresh s"
  "fresh (s\<lparr>connectionState := v9\<rparr>) = fresh s" "fresh (s\<lparr>connectionTimeoutId := v8\<rparr>) = fresh s"
  "fresh (s\<lparr>pingTimeoutId := v8\<rparr>) = fresh s" "fresh (s\<lparr>pendingCommand := v10\<rparr>) = fresh s" "fresh (s\<lparr>lastSentCommand := v10\<rparr>) = fresh s"
  "fresh (s\<lparr>resizeObserver := v11\<rparr>) = fresh s" "fresh (s\<lparr>resizeTimeout := v8\<rparr>) = fresh s"
  "fresh (s\<lparr>keyboard_listening := v7\<rparr>) = fresh s" "fresh (s\<lparr>terminalSessionStartedAt := v12\<rparr>) = fresh s"
  "fresh (s\<lparr>terminalSessionRemainingSeconds := v13\<rparr>) = fresh s"
  "fresh (s\<lparr>terminalSessionCountdownInterval := v8\<rparr>) = fresh s" "fresh (s\<lparr>outs := v14\<rparr>) = fresh s"
  by (simp_all add: fresh_def)

lemma fresh_emit [simp]: "fresh (emit x s) = fresh s"
  by (simp add: emit_def)

lemma fresh_send [simp]: "fresh (sendMessage m s) = fresh s"
  by (simp add: sendMessage_def Let_def split: option.split)

lemma fresh_close [simp]: "fresh (close_socket c s) = fresh s"
  by (simp add: close_socket_def split: option.split)

lemma fresh_set: "fresh s \<Longrightarrow> fresh (set_timer d t s)"
  by (auto simp: fresh_def set_timer_def)

lemma fresh_clear: "fresh s \<Longrightarrow> fresh (clear_timer i s)"
  by (auto simp: fresh_def clear_timer_def split: option.split)

lemmas fresh_intros = fresh_set fresh_clear

lemma fresh_clearAll: "fresh s \<Longrightarrow> fresh (clearAllTimers s)"
  by (simp add: clearAllTimers_def fresh_intros)

lemma fresh_countdown: "fresh s \<Longrightarrow> fresh (resetTerminalSessionCountdown s)"
  by (simp add: resetTerminalSessionCountdown_def fresh_intros)

lemma fresh_cleanup: "fresh s \<Longrightarrow> fresh (cleanup w s)"
  by (simp add: cleanup_def Let_def checkIfProcessIsRunningAndKillIt_def leave_fullscreen_def scheduleTerminalResize_def
      fresh_intros fresh_clearAll fresh_countdown)

lemma fresh_error: "fresh s \<Longrightarrow> fresh (handleSocketError w s)"
  by (simp add: handleSocketError_def handleConnectionError_def scheduleReconnect_def Let_def fresh_intros)

lemma fresh_resetTerminal: "fresh s \<Longrightarrow> fresh (resetTerminal w s)"
  by (simp add: resetTerminal_def Let_def fresh_intros fresh_countdown)

lemma map_of_fresh: "fresh s \<Longrightarrow> map_of (timers s @ [(next_timer s, x)]) (next_timer s) = Some x"
  by (auto simp: fresh_def map_add_def split: option.split dest!: map_of_SomeD)

lemma schedule_pending:
  "fresh s \<Longrightarrow> reconnectAttempts s < maxReconnectAttempts \<Longrightarrow>
     \<exists>n d. map_of (timers (scheduleReconnect w s)) n = Some (d, ReconnectDue)"
  using map_of_fresh [of s] by (auto simp: scheduleReconnect_def Let_def simp del: map_of_append)

lemma handleClose_pending:
  assumes "c \<noteq> 1000" "fresh s" "reconnectAttempts s < maxReconnectAttempts"
  shows "\<exists>n d. map_of (timers (handleSocketClose w c s)) n = Some (d, ReconnectDue)"
  unfolding handleSocketClose_def Let_def using assms
  by (simp add: schedule_pending fresh_resetTerminal fresh_countdown fresh_clearAll)

text \<open>
  C26. Leaving the page does not end a connection that is still being made: closing such a socket reports
  the code 1006, which the close handler takes for a lost connection, so an attempt to reconnect is
  scheduled after the clean-up and opens a new socket.
\<close>

theorem left_page_reconnects:
  assumes "socket s = Some i" "ready s i = CONNECTING" "fresh s" "reconnectAttempts s < maxReconnectAttempts" "socket_error w = None"
  shows "\<exists>n. let s' = run_events client_step s [(w, Leave), (w, SocketClosed i True 1006)]; s'' = fire w n s' in
    n \<in> fst ` set (timers s') \<and> socket s'' = Some (next_socket s) \<and> ready s'' (next_socket s) = CONNECTING"
proof -
  define s1 where "s1 = cleanup w s"
  define e where "e = handleSocketError w (s1\<lparr>ready := (ready s1)(i := CLOSED)\<rparr>)"
  define s2 where "s2 = handleSocketClose w 1006 e"
  define s' where "s' = (if terminalActive s2 \<noteq> terminalActive s1 then on_active_change w s2 else s2)"
  have run: "run_events client_step s [(w, Leave), (w, SocketClosed i True 1006)] = s'"
    by (simp add: client_step_def client_react_def Let_def s'_def s2_def e_def s1_def cleanup_fields)
  have same: "socket s' = socket s2 \<and> ready s' = ready s2 \<and> next_socket s' = next_socket s2 \<and> timers s' = timers s2"
    using active_change_fields [of s2 w] handleClose_fields(5,6) [of w 1006 e] by (auto simp: s'_def s2_def e_def)
  have f: "socket s' = Some i" "ready s' i = CLOSED" "next_socket s' = next_socket s"
    using assms(1) same by (simp_all add: s2_def e_def handleClose_fields s1_def cleanup_fields)
  have "fresh e" "reconnectAttempts e < maxReconnectAttempts"
    using assms(3,4) by (simp_all add: e_def s1_def fresh_error fresh_cleanup cleanup_fields)
  then obtain n d where nd: "map_of (timers s') n = Some (d, ReconnectDue)"
    using handleClose_pending [of 1006 e w] same by (auto simp: s2_def)
  then have "n \<in> fst ` set (timers s')" by (force dest: map_of_SomeD)
  moreover have "socket (fire w n s') = Some (next_socket s) \<and> ready (fire w n s') (next_socket s) = CONNECTING"
    using nd reconnect_opens [of "clear_timer (Some n) s'" i w] f assms(5) by (simp add: fire_def is_interval_def)
  ultimately show ?thesis unfolding run Let_def by blast
qed

lemma sample_rnd: "rnd sample_world = 1 / 2"
  by (simp add: sample_world_def)

lemma sample_connecting_facts:
  defines "s \<equiv> client_step sample_client (sample_world, Fire 3)"
  shows "socket s = Some 0" "ready s 0 = CONNECTING" "fresh s" "reconnectAttempts s = 0" "next_socket s = 1"
    "terminalActive s = False"
    "timers s = [(1, 0, Salvage), (2, 0, ResizeDue), (4, 15000, ConnectionTimeout)]"
  by (simp_all add: s_def fresh_def run_simps sample_client_def sample_world_def sample_layout_def)

theorem reconnect_delay_in_range_witness:
  "\<exists>n d. (n, d, ReconnectDue) \<in> set (timers (run_events client_step sample_client
     [(sample_world, Fire 3), (sample_world, SocketClosed 0 False 1006)])) \<and> 1000 \<le> d"
proof -
  let ?s = "client_step sample_client (sample_world, Fire 3)"
  let ?es = "[(sample_world, Fire 3), (sample_world, SocketClosed 0 False 1006)]"
  let ?c = "?s\<lparr>ready := (ready ?s)(0 := CLOSED)\<rparr>"
  have run: "run_events client_step sample_client ?es = handleSocketClose sample_world 1006 ?c"
    using handleClose_fields(6) [of sample_world 1006 ?c] sample_connecting_facts(6)
    by (auto simp: client_step_def [of ?s] client_react_def Let_def)
  have ok: "run_ok client_step client_event_ok sample_client ?es"
    using sample_connecting sample_connecting_facts by (simp add: client_event_ok_def [of ?s] sample_rnd)
  obtain n d where "map_of (timers (handleSocketClose sample_world 1006 ?c)) n = Some (d, ReconnectDue)"
    using handleClose_pending [of 1006 ?c sample_world] sample_connecting_facts by (auto simp: maxReconnectAttempts_def)
  then have "(n, d, ReconnectDue) \<in> set (timers (run_events client_step sample_client ?es))"
    unfolding run by (rule map_of_SomeD)
  then show ?thesis
    using reconnect_delay_in_range [of sample_world True True True sample_layout ?es n d] ok
    unfolding sample_client_def [symmetric] by blast
qed

theorem left_page_reconnects_witness:
  "\<exists>n. ready (fire sample_world n (run_events client_step (client_step sample_client (sample_world, Fire 3))
     [(sample_world, Leave), (sample_world, SocketClosed 0 True 1006)])) 1 = CONNECTING"
  using left_page_reconnects [of "client_step sample_client (sample_world, Fire 3)" 0 sample_world] sample_connecting_facts
  by (auto simp: Let_def sample_world_def maxReconnectAttempts_def)

section \<open>A timeout during connection\<close>

definition waiting_reconnects :: "client \<Rightarrow> nat list" where
  "waiting_reconnects s = map fst (filter (\<lambda>x. snd (snd x) = ReconnectDue) (timers s))"

definition sample_timeout :: "(world \<times> client_event) list" where
  "sample_timeout = [(sample_world, Fire 3), (sample_world, Fire 4), (sample_world, SocketClosed 0 True 1006)]"

lemmas timeout_simps = run_simps sample_client_def sample_world_def sample_layout_def sample_timeout_def waiting_reconnects_def
  connection_timed_out_def handleConnectionError_def scheduleReconnect_def close_socket_def close_code_ok_def
  handleSocketError_def handleSocketClose_def resetTerminalSessionCountdown_def maxReconnectAttempts_def

text \<open>
  A connection that times out is counted twice: the timeout schedules a reconnection, the error of the closed
  socket overwrites its id, and the close clears only what the error scheduled. Two reconnections wait, and
  when the later one is due first, two attempts are counted for one new socket.
\<close>

theorem timeout_leaves_reconnect_timer:
  "run_ok client_step client_event_ok sample_client (sample_timeout @ [(sample_world, Fire 7), (sample_world, Fire 5)])"
  "waiting_reconnects (run_events client_step sample_client sample_timeout) = [5, 7]"
  "let s = run_events client_step sample_client (sample_timeout @ [(sample_world, Fire 7), (sample_world, Fire 5)])
   in reconnectAttempts s = 2 \<and> next_socket s = 2"
  by (simp_all add: timeout_simps)

end
