(* ===== verification/Client_Log.thy ===== *)
theory Client_Log imports Client_Connection begin

text \<open>
  What the terminal client has sent: every message is one the server can read back, and the command the
  client would replay is the last one it sent, unless the terminal ended since.
\<close>

section \<open>The record of sent messages\<close>

definition is_command :: "json \<Rightarrow> bool" where
  "is_command m \<longleftrightarrow> (case get_prop ''command'' m of None \<Rightarrow> False | Some c \<Rightarrow> truthy c)"

text \<open>The last command sent; \<open>xterm\<close> is reset when the server reports the end of a terminal.\<close>

definition last_step :: "effect \<Rightarrow> json option \<Rightarrow> json option" where
  "last_step x c = (case x of Sent i m \<Rightarrow> if is_command m then Some m else c | TermReset \<Rightarrow> None | _ \<Rightarrow> c)"

definition last_command :: "effect list \<Rightarrow> json option" where
  "last_command xs = fold last_step xs None"

definition readable :: "json \<Rightarrow> bool" where
  "readable m \<longleftrightarrow> wf_json m \<and> json_stringify m \<noteq> None"

text \<open>
  For a kind \<open>good\<close> of messages: only such messages were sent, or wait to be sent. What was once sent,
  the list \<open>base\<close>, stays on the record.
\<close>

definition extends_list :: "'a list \<Rightarrow> 'a list \<Rightarrow> bool" where
  "extends_list base xs \<longleftrightarrow> (\<exists>ys. xs = base @ ys)"

lemma extends_list_append [simp]: "extends_list base xs \<Longrightarrow> extends_list base (xs @ ys)"
  by (auto simp: extends_list_def)

lemma extends_list_simps [simp]: "extends_list [] xs" "extends_list xs xs"
  by (simp_all add: extends_list_def)

definition sent_ok :: "(json \<Rightarrow> bool) \<Rightarrow> effect \<Rightarrow> bool" where
  "sent_ok good x \<longleftrightarrow> (case x of Sent i m \<Rightarrow> good m | _ \<Rightarrow> True)"

definition sent_inv :: "effect list \<Rightarrow> (json \<Rightarrow> bool) \<Rightarrow> client \<Rightarrow> bool" where
  "sent_inv base good s \<longleftrightarrow> extends_list base (outs s) \<and>
     lastSentCommand s = last_command (outs s) \<and> list_all (sent_ok good) (outs s) \<and> terminal s \<noteq> None
     \<and> pred_option good (pendingCommand s)"

definition log_event_ok :: "(json \<Rightarrow> bool) \<Rightarrow> client \<Rightarrow> world \<times> client_event \<Rightarrow> bool" where
  "log_event_ok good s we \<longleftrightarrow>
     client_event_ok s we \<and> (case snd we of CommandGiven c \<Rightarrow> good (JObj [(''command'', c)]) | _ \<Rightarrow> True)"

lemma log_updates [simp]:
  "sent_inv base good (s\<lparr>page := v0\<rparr>) = sent_inv base good s" "sent_inv base good (s\<lparr>terminalActive := v1\<rparr>) = sent_inv base good s"
  "sent_inv base good (s\<lparr>starting := v2\<rparr>) = sent_inv base good s" "sent_inv base good (s\<lparr>message := v3\<rparr>) = sent_inv base good s"
  "sent_inv base good (s\<lparr>term_initialized := v4\<rparr>) = sent_inv base good s"
  "sent_inv base good (s\<lparr>term_cols := v5\<rparr>) = sent_inv base good s" "sent_inv base good (s\<lparr>term_rows := v6\<rparr>) = sent_inv base good s"
  "sent_inv base good (s\<lparr>term_style := v7\<rparr>) = sent_inv base good s" "sent_inv base good (s\<lparr>socket := v8\<rparr>) = sent_inv base good s"
  "sent_inv base good (s\<lparr>ready := v9\<rparr>) = sent_inv base good s" "sent_inv base good (s\<lparr>next_socket := v10\<rparr>) = sent_inv base good s"
  "sent_inv base good (s\<lparr>commandBuffer := v11\<rparr>) = sent_inv base good s"
  "sent_inv base good (s\<lparr>pendingWrites := v12\<rparr>) = sent_inv base good s"
  "sent_inv base good (s\<lparr>paused := v13\<rparr>) = sent_inv base good s"
  "sent_inv base good (s\<lparr>keepAliveInterval := v14\<rparr>) = sent_inv base good s"
  "sent_inv base good (s\<lparr>reconnectInterval := v15\<rparr>) = sent_inv base good s"
  "sent_inv base good (s\<lparr>connectionState := v16\<rparr>) = sent_inv base good s"
  "sent_inv base good (s\<lparr>reconnectAttempts := v17\<rparr>) = sent_inv base good s"
  "sent_inv base good (s\<lparr>connectionTimeoutId := v18\<rparr>) = sent_inv base good s"
  "sent_inv base good (s\<lparr>lastPingTime := v19\<rparr>) = sent_inv base good s"
  "sent_inv base good (s\<lparr>pingTimeoutId := v20\<rparr>) = sent_inv base good s"
  "sent_inv base good (s\<lparr>heartbeatMissed := v21\<rparr>) = sent_inv base good s"
  "sent_inv base good (s\<lparr>resizeObserver := v22\<rparr>) = sent_inv base good s"
  "sent_inv base good (s\<lparr>resizeTimeout := v23\<rparr>) = sent_inv base good s"
  "sent_inv base good (s\<lparr>isDocumentVisible := v24\<rparr>) = sent_inv base good s"
  "sent_inv base good (s\<lparr>wasConnectedBeforeHidden := v25\<rparr>) = sent_inv base good s"
  "sent_inv base good (s\<lparr>mobileToolbarCollapsed := v26\<rparr>) = sent_inv base good s"
  "sent_inv base good (s\<lparr>terminalModifier := v27\<rparr>) = sent_inv base good s"
  "sent_inv base good (s\<lparr>keyboardInsetSettleTimeout := v28\<rparr>) = sent_inv base good s"
  "sent_inv base good (s\<lparr>keyboard_listening := v29\<rparr>) = sent_inv base good s"
  "sent_inv base good (s\<lparr>terminalSessionStartedAt := v30\<rparr>) = sent_inv base good s"
  "sent_inv base good (s\<lparr>terminalSessionRemainingSeconds := v31\<rparr>) = sent_inv base good s"
  "sent_inv base good (s\<lparr>terminalSessionCountdownInterval := v32\<rparr>) = sent_inv base good s"
  "sent_inv base good (s\<lparr>timers := v33\<rparr>) = sent_inv base good s" "sent_inv base good (s\<lparr>next_timer := v34\<rparr>) = sent_inv base good s"
  "sent_inv base good (s\<lparr>outstanding := v35\<rparr>) = sent_inv base good s"
  by (simp_all add: sent_inv_def)

lemma last_command_append [simp]: "last_command (xs @ ys) = fold last_step ys (last_command xs)"
  by (simp add: last_command_def)

definition plain :: "effect \<Rightarrow> bool" where
  "plain x \<longleftrightarrow> (case x of Sent i m \<Rightarrow> False | TermReset \<Rightarrow> False | _ \<Rightarrow> True)"

lemma plain_simps [simp]:
  "plain (Wrote t)" "plain (Dispatched e d)" "plain (Announced e)" "plain (CloseSent i c)" "plain Focused"
  "plain TermOpened" "plain (Copied t)"
  by (simp_all add: plain_def)

lemma log_emit: "sent_inv base good s \<Longrightarrow> plain x \<Longrightarrow> sent_inv base good (emit x s)"
  by (cases x) (simp_all add: sent_inv_def emit_def plain_def sent_ok_def last_step_def)

lemma log_timers [simp]: "sent_inv base good (set_timer d t s) = sent_inv base good s" "sent_inv base good (clear_timer i s) = sent_inv base good s"
  by (simp_all add: set_timer_def clear_timer_def split: option.split)

lemma log_send: "sent_inv base good s \<Longrightarrow> good m \<Longrightarrow> sent_inv base good (sendMessage m s)"
  by (auto simp: sendMessage_def Let_def emit_def sent_inv_def sent_ok_def is_command_def last_step_def split: option.split)

lemma log_clearAll [simp]: "sent_inv base good (clearAllTimers s) = sent_inv base good s"
  by (simp add: clearAllTimers_def)

lemma log_countdown [simp]: "sent_inv base good (resetTerminalSessionCountdown s) = sent_inv base good s"
  by (simp add: resetTerminalSessionCountdown_def)

lemma log_pending: "sent_inv base good s \<Longrightarrow> pred_option good c \<Longrightarrow> sent_inv base good (s\<lparr>pendingCommand := c\<rparr>)"
  by (simp add: sent_inv_def)

lemma last_sent_wf: "list_all (sent_ok good) xs \<Longrightarrow> last_command xs = Some m \<Longrightarrow> good m"
proof (induction xs rule: rev_induct)
  case Nil
  then show ?case by (simp add: last_command_def)
next
  case (snoc x xs)
  then show ?case by (cases x) (auto simp: sent_ok_def last_step_def split: if_splits)
qed

section \<open>Every operation keeps it\<close>

text \<open>
  The kinds of messages for which this is an invariant: those that have every message the component makes
  itself. Commands come from the page, as an event.
\<close>

locale message_kind =
  fixes good :: "json \<Rightarrow> bool"
  assumes good_signal: "k \<in> {''ping'', ''pause'', ''resume''} \<Longrightarrow> good (JObj [(k, JBool True)])"
    and good_input: "good (JObj [(''message'', JStr t)])"
    and good_check: "good (JObj [(''checkActive'', JStr ''force'')])"
    and good_resize: "good (JObj [(''resize'', JObj [(''cols'', JNum (of_int c)), (''rows'', JNum (of_int r))])])"
begin

lemma good_messages [simp]:
  "good (JObj [(''ping'', JBool True)])" "good (JObj [(''pause'', JBool True)])" "good (JObj [(''resume'', JBool True)])"
  "good (JObj [(''message'', JStr t)])" "good (JObj [(''checkActive'', JStr ''force'')])"
  "good (JObj [(''resize'', JObj [(''cols'', JNum (of_int c)), (''rows'', JNum (of_int r))])])"
  using good_signal good_input good_check good_resize by simp_all

lemma log_last: "sent_inv base good s \<Longrightarrow> lastSentCommand s = Some m \<Longrightarrow> good m"
  using last_sent_wf [of good "outs s" m] by (simp add: sent_inv_def)

lemma log_close: "sent_inv base good s \<Longrightarrow> sent_inv base good (close_socket c s)"
  by (auto simp: close_socket_def log_emit split: option.split)

lemma log_schedule [simp]: "sent_inv base good (scheduleReconnect w s) = sent_inv base good s"
  by (simp add: scheduleReconnect_def Let_def)

lemma log_error: "sent_inv base good s \<Longrightarrow> sent_inv base good (handleConnectionError w r s)"
  by (simp add: handleConnectionError_def Let_def log_emit)

lemma log_initialize: "sent_inv base good s \<Longrightarrow> sent_inv base good (initializeWebSocket w s)"
  by (simp add: initializeWebSocket_def Let_def log_error split: option.split)

lemma log_resetPing [simp]: "sent_inv base good (resetPingTimeout s) = sent_inv base good s"
  by (simp add: resetPingTimeout_def Let_def)

lemma log_replay: "sent_inv base good s \<Longrightarrow> sent_inv base good (replay_command s)"
proof -
  assume a: "sent_inv base good s"
  then have "good m" if "pendingCommand s = Some m" for m using that by (simp add: sent_inv_def)
  with a log_last [OF a] show ?thesis
    by (simp add: replay_command_def log_send log_pending split: option.split)
qed

lemma log_open: "sent_inv base good s \<Longrightarrow> sent_inv base good (handleSocketOpen w s)"
  by (simp add: handleSocketOpen_def dispatchEvent_def Let_def log_emit log_replay)

lemma log_resetTerminal: "sent_inv base good s \<Longrightarrow> sent_inv base good (resetTerminal w s)"
  by (simp add: resetTerminal_def Let_def log_emit log_pending)

lemma log_closed: "sent_inv base good s \<Longrightarrow> sent_inv base good (handleSocketClose w c s)"
  by (simp add: handleSocketClose_def Let_def log_resetTerminal)

lemma log_keepAlive: "sent_inv base good s \<Longrightarrow> sent_inv base good (keepAlive w s)"
  by (simp add: keepAlive_def log_send log_initialize)

lemma log_visibility: "sent_inv base good s \<Longrightarrow> sent_inv base good (handleVisibilityChange w s)"
  by (simp add: handleVisibilityChange_def Let_def log_send log_initialize)

lemma log_resize: "sent_inv base good s \<Longrightarrow> sent_inv base good (resizeTerminal w s)"
  by (simp add: resizeTerminal_def Let_def log_send split: option.split prod.split)

lemma log_fullscreen [simp]:
  "sent_inv base good (leave_fullscreen w s) = sent_inv base good s" "sent_inv base good (go_fullscreen w s) = sent_inv base good s"
  "sent_inv base good (update_inset w s) = sent_inv base good s" "sent_inv base good (syncKeyboardInset w s) = sent_inv base good s"
  by (simp_all add: leave_fullscreen_def go_fullscreen_def scheduleTerminalResize_def update_inset_def syncKeyboardInset_def Let_def)

lemma log_update_countdown [simp]: "sent_inv base good (updateTerminalSessionCountdown w s) = sent_inv base good s"
  by (simp add: updateTerminalSessionCountdown_def split: option.split)

lemma log_start_countdown [simp]: "sent_inv base good (startTerminalSessionCountdown w s) = sent_inv base good s"
  by (simp add: startTerminalSessionCountdown_def Let_def)

lemma log_flow: "sent_inv base good s \<Longrightarrow> sent_inv base good (flowControlCallback s)"
  by (simp add: flowControlCallback_def Let_def log_send)

lemma log_pty_ready: "sent_inv base good s \<Longrightarrow> sent_inv base good (on_pty_ready w s)"
  by (simp add: on_pty_ready_def Let_def log_emit log_resize)

text \<open>The terminal is reset and the command forgotten together.\<close>

lemma log_unprocessable: "sent_inv base good s \<Longrightarrow> sent_inv base good (on_unprocessable s)"
  by (simp add: on_unprocessable_def Let_def log_emit sent_inv_def emit_def resetTerminalSessionCountdown_def clear_timer_def
      dispatch_def sent_ok_def last_step_def split: option.split)

lemma log_exited: "sent_inv base good s \<Longrightarrow> sent_inv base good (on_pty_exited w s)"
  by (simp add: on_pty_exited_def Let_def log_emit sent_inv_def emit_def resetTerminalSessionCountdown_def clear_timer_def
      dispatch_def sent_ok_def last_step_def leave_fullscreen_def scheduleTerminalResize_def set_timer_def split: option.split)

lemma log_message: "sent_inv base good s \<Longrightarrow> sent_inv base good (handleSocketMessage w text s)"
  by (simp add: handleSocketMessage_def log_pty_ready log_unprocessable log_exited)
    (simp add: on_rejected_def write_output_def Let_def log_emit)

lemma log_input: "sent_inv base good s \<Longrightarrow> sent_inv base good (sendTerminalInput t s)"
  by (simp add: sendTerminalInput_def log_send)

lemma log_user:
  assumes "sent_inv base good s"
  shows "sent_inv base good (on_data t s)" "sent_inv base good (fst (custom_key k sel s))"
    "sent_inv base good (sendTerminalControl c s)" "sent_inv base good (sendTerminalKey t s)" "sent_inv base good (toggleTerminalModifier t s)"
    "sent_inv base good (pasteFromClipboard oc s)" "sent_inv base good (copyTerminalSelection sel al s)" "sent_inv base good (focus_when_ready s)"
    "good m \<Longrightarrow> sent_inv base good (sendCommandWhenReady m s)"
  using assms
  by (simp_all add: on_data_def custom_key_def sendTerminalControl_def sendTerminalKey_def toggleTerminalModifier_def
      pasteFromClipboard_def copyTerminalSelection_def focus_when_ready_def sendCommandWhenReady_def Let_def
      log_input log_send log_emit log_pending split: option.split)

lemma log_cleanup: "sent_inv base good s \<Longrightarrow> sent_inv base good (cleanup w s)"
  by (simp add: cleanup_def Let_def checkIfProcessIsRunningAndKillIt_def log_send log_close log_pending)

lemma log_active_change: "sent_inv base good s \<Longrightarrow> sent_inv base good (on_active_change w s)"
  by (simp add: on_active_change_def Let_def log_resize)

lemma log_run_task: "sent_inv base good s \<Longrightarrow> sent_inv base good (run_task w t s)"
  by (cases t) (simp_all add: run_task_def log_initialize connection_timed_out_def log_error log_close log_keepAlive
      ping_timed_out_def Let_def resume_timed_out_def log_resize resize_next_tick_def resize_frame_def log_emit log_user)

lemma log_fire: "sent_inv base good s \<Longrightarrow> sent_inv base good (fire w n s)"
  by (simp add: fire_def log_run_task split: option.split prod.split)

lemma log_react: "sent_inv base good s \<Longrightarrow> log_event_ok good s (w, e) \<Longrightarrow> sent_inv base good (client_react w e s)"
  by (cases e) (simp_all add: log_event_ok_def client_react_def log_fire log_open log_message Let_def log_closed
      handleSocketError_def log_error log_flow log_visibility log_user toggle_fullscreen_def
      log_resize on_observed_def log_cleanup destroy_def)

lemma log_step: "sent_inv base good s \<Longrightarrow> log_event_ok good s we \<Longrightarrow> sent_inv base good (client_step s we)"
  using log_react [of base s "fst we" "snd we"] by (simp add: client_step_def Let_def log_active_change)

lemma log_start: "sent_inv [] good (start_client w a True o1 p)"
  unfolding sent_inv_def
  by (simp add: start_client_def setupTerminal_def Let_def set_timer_def update_inset_def client0_def last_command_def)

end

sublocale message_kind \<subseteq> sent: invariant_machine client_step "log_event_ok good" "sent_inv [] good"
  by unfold_locales (rule log_step)

context message_kind
begin

lemma outs_grow:
  assumes "sent_inv [] good s" "log_event_ok good s we"
  shows "extends_list (outs s) (outs (client_step s we))"
proof -
  have "sent_inv (outs s) good s" using assms(1) by (simp add: sent_inv_def)
  from log_step [OF this assms(2)] show ?thesis by (simp add: sent_inv_def)
qed

lemma sent_good:
  assumes "run_ok client_step (log_event_ok good) (start_client w a True o1 p) es"
    "Sent i m \<in> set (outs (run_events client_step (start_client w a True o1 p) es))"
  shows "good m"
  using sent.run_inv [OF log_start assms(1)] assms(2) by (auto simp: sent_inv_def list_all_iff sent_ok_def)

end

lemma readable_field: "readable v \<Longrightarrow> readable (JObj [(k, v)])"
  by (auto simp: readable_def)

lemma readable_leaf [simp]: "readable (JBool b)" "readable (JStr t)"
  by (simp_all add: readable_def)

interpretation readable_kind: message_kind readable
  by unfold_locales (simp_all add: readable_field, simp add: readable_def)

lemmas log_run = readable_kind.sent.run_inv [OF readable_kind.log_start]

section \<open>Results\<close>

lemma log_run_ok: "run_ok client_step (log_event_ok good) s es \<Longrightarrow> run_ok client_step client_event_ok s es"
  by (induction es arbitrary: s) (auto simp: log_event_ok_def)

lemma outs_frame [simp]:
  "outs (set_timer d t s) = outs s" "outs (clear_timer i s) = outs s" "outs (resetPingTimeout s) = outs s"
  by (simp_all add: set_timer_def clear_timer_def resetPingTimeout_def Let_def split: option.split)

lemma send_outs: "socket s = Some i \<Longrightarrow> ready s i = OPEN \<Longrightarrow> outs (sendMessage m s) = outs s @ [Sent i m]"
  by (simp add: sendMessage_def Let_def emit_def split: option.split)

lemma clear_commands [simp]:
  "pendingCommand (clear_timer i s) = pendingCommand s" "lastSentCommand (clear_timer i s) = lastSentCommand s"
  by (simp_all add: clear_timer_def split: option.split)

definition first_message :: "nat \<Rightarrow> json option \<Rightarrow> json option \<Rightarrow> effect list" where
  "first_message i waiting former =
     (case waiting of Some m \<Rightarrow> [Sent i m] | None \<Rightarrow> (case former of Some m \<Rightarrow> [Sent i m] | None \<Rightarrow> []))"

lemma replay_outs:
  "socket s = Some i \<Longrightarrow> ready s i = OPEN \<Longrightarrow>
     outs (replay_command s) = outs s @ first_message i (pendingCommand s) (lastSentCommand s)"
  by (simp add: replay_command_def first_message_def send_outs split: option.split)

lemma open_active [simp]: "terminalActive (handleSocketOpen w s) = terminalActive s"
  by (simp add: handleSocketOpen_def dispatchEvent_def Let_def resetPingTimeout_def replay_command_def split: option.split)

lemma open_outs:
  assumes "socket s = Some i" "ready s i = OPEN"
  shows "outs (handleSocketOpen w s) = outs s @ first_message i (pendingCommand s) (lastSentCommand s) @ [Announced ''terminal-websocket-ready'']"
proof -
  let ?s1 = "s\<lparr>connectionState := Connected, reconnectAttempts := 0, heartbeatMissed := 0, lastPingTime := Some (clock w)\<rparr>"
  let ?s2 = "(clear_timer (connectionTimeoutId ?s1) ?s1)\<lparr>connectionTimeoutId := None\<rparr>"
  have "outs (replay_command ?s2) = outs s @ first_message i (pendingCommand s) (lastSentCommand s)"
    using replay_outs [of ?s2 i] assms by simp
  then show ?thesis by (simp add: handleSocketOpen_def dispatchEvent_def Let_def emit_def)
qed

text \<open>
  C24. A connection starts with the user's command: when a socket opens, the client first sends the
  command that is waiting or, if none is, the last command it ever sent, unless the terminal has ended
  since; a terminal that was lost with its connection is so started again.
\<close>

theorem connection_starts_with_command:
  assumes "run_ok client_step (log_event_ok readable) (start_client w a True o1 p) es"
    and "client_event_ok (run_events client_step (start_client w a True o1 p) es) (w', Opened i)"
  shows "let s = run_events client_step (start_client w a True o1 p) es in
    outs (client_step s (w', Opened i)) =
      outs s @ first_message i (pendingCommand s) (last_command (outs s)) @ [Announced ''terminal-websocket-ready'']"
proof -
  let ?s = "run_events client_step (start_client w a True o1 p) es"
  have i: "ready ?s i = CONNECTING" using assms(2) by (simp add: client_event_ok_def)
  then have so: "socket ?s = Some i"
    using inv_run [OF log_run_ok [OF assms(1)]] by (auto simp: client_inv_def sockets_ok_def)
  have "lastSentCommand ?s = last_command (outs ?s)" using log_run [OF assms(1)] by (simp add: sent_inv_def)
  then show ?thesis
    using open_outs [of "?s\<lparr>ready := (ready ?s)(i := OPEN)\<rparr>" i w'] so
    by (simp add: client_step_def client_react_def Let_def)
qed

lemma sample_outs: "outs (client_step sample_client (sample_world, Fire 3)) = []"
  "pendingCommand (client_step sample_client (sample_world, Fire 3)) = None"
  by (simp_all add: run_simps sample_client_def sample_world_def sample_layout_def)

theorem connection_starts_with_command_witness:
  "outs (client_step (run_events client_step sample_client [(sample_world, Fire 3)]) (sample_world, Opened 0)) =
     [Announced ''terminal-websocket-ready'']"
proof -
  have "run_ok client_step (log_event_ok readable) sample_client [(sample_world, Fire 3)]"
    using sample_connecting(1) by (simp add: log_event_ok_def)
  moreover have "client_event_ok (run_events client_step sample_client [(sample_world, Fire 3)]) (sample_world, Opened 0)"
    using sample_connecting by (simp add: client_event_ok_def [of "client_step sample_client (sample_world, Fire 3)"] sample_rnd)
  ultimately show ?thesis
    using connection_starts_with_command [of sample_world True True sample_layout "[(sample_world, Fire 3)]" sample_world 0]
      sample_outs unfolding sample_client_def [symmetric] by (simp add: Let_def last_command_def first_message_def)
qed

text \<open>A command given while the first connection is being made, and sent when it opens.\<close>

definition command_message :: "json \<Rightarrow> json" where
  "command_message c = JObj [(''command'', c)]"

definition sample_asked :: "json \<Rightarrow> client" where
  "sample_asked c = (client_step sample_client (sample_world, Fire 3))\<lparr>pendingCommand := Some (command_message c)\<rparr>"

definition sample_sending :: "json \<Rightarrow> (world \<times> client_event) list" where
  "sample_sending c = [(sample_world, Fire 3), (sample_world, CommandGiven c), (sample_world, Opened 0)]"

lemma sample_asked_step: "client_step (client_step sample_client (sample_world, Fire 3)) (sample_world, CommandGiven c) = sample_asked c"
proof -
  let ?s = "client_step sample_client (sample_world, Fire 3)"
  have "connectionState ?s = Connecting"
    by (simp add: run_simps sample_client_def sample_world_def sample_layout_def)
  then show ?thesis
    by (simp add: client_step_def [of ?s] client_react_def Let_def sendCommandWhenReady_def isWebSocketReady_def
        sample_asked_def command_message_def)
qed

lemma sample_asked_facts: "ready (sample_asked c) 0 = CONNECTING" "next_socket (sample_asked c) = 1"
  using sample_connecting(3)
  by (simp_all add: sample_asked_def) (simp add: run_simps sample_client_def sample_world_def sample_layout_def)

lemma sample_steps_ok:
  "client_event_ok sample_client (sample_world, Fire 3)"
  "client_event_ok (client_step sample_client (sample_world, Fire 3)) (sample_world, CommandGiven c)"
  "client_event_ok (sample_asked c) (sample_world, Opened 0)"
  using sample_connecting(1) sample_asked_facts(1) [of c] sample_rnd
  by (simp_all add: client_event_ok_def [of "client_step sample_client (sample_world, Fire 3)"] client_event_ok_def [of "sample_asked c"])

lemma sample_opened_outs:
  "outs (client_step (sample_asked c) (sample_world, Opened 0)) = [Sent 0 (command_message c), Announced ''terminal-websocket-ready'']"
  using open_outs [of "(sample_asked c)\<lparr>ready := (ready (sample_asked c))(0 := OPEN)\<rparr>" 0 sample_world]
    sample_connecting_facts sample_outs
  by (simp add: client_step_def [of "sample_asked c"] client_react_def Let_def first_message_def)
    (simp add: sample_asked_def)

lemma sample_sending_run:
  assumes "good (command_message c)"
  shows "run_ok client_step (log_event_ok good) sample_client (sample_sending c)"
    "Sent 0 (command_message c) \<in> set (outs (run_events client_step sample_client (sample_sending c)))"
  using assms sample_steps_ok(1) sample_steps_ok(2,3) [of c] sample_opened_outs [of c]
  by (simp_all add: sample_sending_def sample_asked_step log_event_ok_def command_message_def)

end
