(* ===== verification/Terminal_System.thy ===== *)
theory Terminal_System imports Server_Life Client_Log begin

text \<open>
  The web terminal as a whole: the terminal components of any number of pages and the server, with the
  connections between them. A connection of the server is linked to a socket of a page; each direction of
  it delivers the texts that were sent, in order and without gaps, and may stop at any time. All else is
  as the components have it: local events of a page, and events of the server's own surroundings.

  Three things are assumed of the surroundings. A command comes from the page as the backend dispatches it, an
  array that starts with a string; \<open>generateUserId\<close> draws a user id that no session has had; and the hosts the
  backend names are an array of strings. Each is needed: a command of another form, a user id drawn twice, or
  hosts of another form can end the server.
\<close>

section \<open>What the components say\<close>

definition spoken :: "json \<Rightarrow> bool" where
  "spoken m \<longleftrightarrow> protocol_message m \<and> readable m"

interpretation spoken_kind: message_kind spoken
proof unfold_locales
  fix c r :: int
  show "spoken (JObj [(''resize'', JObj [(''cols'', JNum (of_int c)), (''rows'', JNum (of_int r))])])"
    using readable_kind.good_resize by (simp add: spoken_def protocol_message_def)
qed (auto simp: spoken_def protocol_message_def readable_field)

lemma spoken_text: "spoken m \<Longrightarrow> parseMessage (the (json_stringify m)) = Some m"
  using parse_stringify by (auto simp: spoken_def readable_def parseMessage_def)

lemma spoken_polite: "spoken m \<Longrightarrow> polite_text (the (json_stringify m))"
  using spoken_text [of m] by (simp add: polite_text_def spoken_def)

text \<open>The messages a component has sent on a socket, and their texts.\<close>

definition sent_on :: "nat \<Rightarrow> effect \<Rightarrow> json list" where
  "sent_on i x = (case x of Sent j m \<Rightarrow> if j = i then [m] else [] | _ \<Rightarrow> [])"

definition messages_sent :: "nat \<Rightarrow> client \<Rightarrow> json list" where
  "messages_sent i c = concat (map (sent_on i) (outs c))"

definition texts_sent :: "nat \<Rightarrow> client \<Rightarrow> string list" where
  "texts_sent i c = map (\<lambda>m. the (json_stringify m)) (messages_sent i c)"

text \<open>The texts the server has sent on a connection.\<close>

definition wire_text :: "out \<Rightarrow> string list" where
  "wire_text x = (case x of OText t \<Rightarrow> [t] | OJson j \<Rightarrow> [the (json_stringify j)] | _ \<Rightarrow> [])"

definition wire :: "nat \<Rightarrow> server \<Rightarrow> string list" where
  "wire cid s = concat (map (\<lambda>x. if fst x = cid then wire_text (snd x) else []) (sent s))"

lemma spoken_sent:
  assumes "sent_inv [] spoken c" "m \<in> set (messages_sent i c)"
  shows "spoken m"
  using assms by (auto simp: messages_sent_def sent_on_def sent_inv_def list_all_iff sent_ok_def
      split: effect.splits if_splits)

lemma parsed_sent:
  assumes "sent_inv [] spoken c"
  shows "map parseMessage (texts_sent i c) = map Some (messages_sent i c)"
  using spoken_sent [OF assms] spoken_text by (simp add: texts_sent_def)

lemma polite_sent:
  assumes "sent_inv [] spoken c" "t \<in> set (texts_sent i c)"
  shows "polite_text t"
  using assms spoken_sent spoken_polite by (auto simp: texts_sent_def)

lemma texts_grow:
  assumes "sent_inv [] spoken c" "log_event_ok spoken c we"
  shows "extends_list (texts_sent i c) (texts_sent i (client_step c we))"
  using spoken_kind.outs_grow [OF assms] by (auto simp: extends_list_def texts_sent_def messages_sent_def)

section \<open>The system\<close>

record system =
  realtime :: server
  history :: "event list"
  pages :: "nat \<Rightarrow> client"
  links :: "nat \<Rightarrow> (nat \<times> nat) option"
  taken :: "nat \<Rightarrow> nat"

definition page_acts :: "nat \<Rightarrow> world \<times> client_event \<Rightarrow> system \<Rightarrow> system" where
  "page_acts p we sy = sy\<lparr>pages := (pages sy)(p := client_step (pages sy p) we)\<rparr>"

definition server_acts :: "event \<Rightarrow> system \<Rightarrow> system" where
  "server_acts e sy = sy\<lparr>realtime := server_step (realtime sy) e, history := history sy @ [e]\<rparr>"

definition own_event :: "client_event \<Rightarrow> bool" where
  "own_event e \<longleftrightarrow> (case e of Opened i \<Rightarrow> False | Received i t \<Rightarrow> False | _ \<Rightarrow> True)"

definition server_event :: "event \<Rightarrow> bool" where
  "server_event e \<longleftrightarrow> (case e of Connection c u k \<Rightarrow> False | Message c t \<Rightarrow> False | _ \<Rightarrow> True)"

inductive sys_step :: "system \<Rightarrow> system \<Rightarrow> bool" where
  page: "log_event_ok spoken (pages sy p) (w, e) \<Longrightarrow> own_event e \<Longrightarrow> sys_step sy (page_acts p (w, e) sy)"
| connect: "polite_ok (realtime sy) (Connection cid uid k) \<Longrightarrow> links sy cid = None \<Longrightarrow> i < next_socket (pages sy p) \<Longrightarrow>
     (p, i) \<notin> ran (links sy) \<Longrightarrow> sys_step sy ((server_acts (Connection cid uid k) sy)\<lparr>links := (links sy)(cid \<mapsto> (p, i))\<rparr>)"
| opened: "links sy cid = Some (p, i) \<Longrightarrow> client_event_ok (pages sy p) (w, Opened i) \<Longrightarrow>
     sys_step sy (page_acts p (w, Opened i) sy)"
| up: "links sy cid = Some (p, i) \<Longrightarrow> texts_sent i (pages sy p) = received cid (history sy) @ t # rest \<Longrightarrow>
     event_ok (realtime sy) (Message cid t) \<Longrightarrow> sys_step sy (server_acts (Message cid t) sy)"
| down: "links sy cid = Some (p, i) \<Longrightarrow> wire cid (realtime sy) = us @ t # rest \<Longrightarrow> length us = taken sy cid \<Longrightarrow>
     client_event_ok (pages sy p) (w, Received i t) \<Longrightarrow>
     sys_step sy ((page_acts p (w, Received i t) sy)\<lparr>taken := (taken sy)(cid := Suc (taken sy cid))\<rparr>)"
| surroundings: "polite_ok (realtime sy) e \<Longrightarrow> server_event e \<Longrightarrow> sys_step sy (server_acts e sy)"

definition start_system :: "(nat \<Rightarrow> client) \<Rightarrow> system" where
  "start_system ps = \<lparr>realtime = server_init, history = [], pages = ps, links = Map.empty, taken = (\<lambda>_. 0)\<rparr>"

inductive sys_reachable :: "system \<Rightarrow> bool" where
  start: "(\<And>p. \<exists>w a o1 l. ps p = start_client w a True o1 l) \<Longrightarrow> sys_reachable (start_system ps)"
| step: "sys_reachable sy \<Longrightarrow> sys_step sy sy' \<Longrightarrow> sys_reachable sy'"

section \<open>The invariant of the system\<close>

definition server_good :: "system \<Rightarrow> bool" where
  "server_good sy \<longleftrightarrow> polite_inv (realtime sy) \<and> origin_inv (realtime sy) \<and> log_inv (realtime sy, history sy)"

fun link_good :: "string list \<Rightarrow> (nat \<Rightarrow> client) \<Rightarrow> (nat \<times> nat) option \<Rightarrow> bool" where
  "link_good ts ps None = (ts = [])"
| "link_good ts ps (Some (p, i)) = extends_list ts (texts_sent i (ps p))"

definition links_good :: "system \<Rightarrow> bool" where
  "links_good sy \<longleftrightarrow> (\<forall>cid. link_good (received cid (history sy)) (pages sy) (links sy cid))"

definition sys_inv :: "system \<Rightarrow> bool" where
  "sys_inv sy \<longleftrightarrow> server_good sy \<and> links_good sy \<and> (\<forall>p. sent_inv [] spoken (pages sy p))"

lemma server_good_step:
  assumes "server_good sy" "polite_ok (realtime sy) e"
  shows "server_good (server_acts e sy)"
  using assms origin_step [of "realtime sy" e] log_inv_step [of "(realtime sy, history sy)" e] polite_event [OF assms(2)]
  by (simp add: server_good_def server_acts_def log_ok_def log_step_def)

lemma extends_list_trans: "extends_list xs ys \<Longrightarrow> extends_list ys zs \<Longrightarrow> extends_list xs zs"
  by (auto simp: extends_list_def)

lemma inv_page_acts:
  assumes inv: "sys_inv sy" and ok: "log_event_ok spoken (pages sy p) we"
  shows "sys_inv (page_acts p we sy)"
proof -
  have c: "sent_inv [] spoken (pages sy q)" for q using inv by (simp add: sys_inv_def)
  have "link_good ts (pages (page_acts p we sy)) l" if "link_good ts (pages sy) l" for ts l
    using that texts_grow [OF c ok] by (cases "(ts, pages sy, l)" rule: link_good.cases) (auto simp: page_acts_def intro: extends_list_trans)
  then have "links_good (page_acts p we sy)" using inv by (simp add: sys_inv_def links_good_def) (simp add: page_acts_def)
  moreover have "sent_inv [] spoken (client_step (pages sy p) we)" using spoken_kind.log_step [OF c ok] .
  ultimately show ?thesis using inv c by (simp add: sys_inv_def server_good_def page_acts_def)
qed

lemma inv_server_acts:
  assumes inv: "sys_inv sy" and ok: "polite_ok (realtime sy) e" and silent: "\<And>cid. received cid [e] = []"
  shows "sys_inv (server_acts e sy)"
  using assms server_good_step [OF _ ok] by (simp add: sys_inv_def links_good_def server_acts_def)

lemma inv_link:
  assumes "sys_inv sy" "links sy cid = None"
  shows "sys_inv (sy\<lparr>links := (links sy)(cid \<mapsto> (p, i))\<rparr>)"
  using assms by (auto simp: sys_inv_def server_good_def links_good_def dest: spec [of _ cid])

lemma inv_deliver:
  assumes inv: "sys_inv sy" and link: "links sy cid = Some (p, i)"
    and t: "texts_sent i (pages sy p) = received cid (history sy) @ t # rest" "event_ok (realtime sy) (Message cid t)"
  shows "sys_inv (server_acts (Message cid t) sy)"
proof -
  have "sent_inv [] spoken (pages sy p)" using inv by (simp add: sys_inv_def)
  then have "polite_text t" using polite_sent [of "pages sy p" t i] t(1) by simp
  then have "server_good (server_acts (Message cid t) sy)" using inv t(2) by (simp add: sys_inv_def server_good_step)
  moreover have "extends_list (received cid (history sy) @ [t]) (texts_sent i (pages sy p))"
    using t(1) by (simp add: extends_list_def)
  ultimately show ?thesis using inv link by (auto simp: sys_inv_def links_good_def server_acts_def)
qed

lemma sys_inv_step:
  assumes "sys_step sy sy'" "sys_inv sy"
  shows "sys_inv sy'"
  using assms
proof cases
  case (connect cid uid k i p)
  then have "sys_inv (server_acts (Connection cid uid k) sy)" using assms(2) by (intro inv_server_acts) auto
  from inv_link [OF this] connect show ?thesis by (simp add: server_acts_def)
next
  case (up cid p i t rest)
  then show ?thesis using assms(2) inv_deliver by blast
next
  case (down cid p i us t rest w)
  then have "sys_inv (page_acts p (w, Received i t) sy)" using assms(2) by (intro inv_page_acts) (auto simp: log_event_ok_def)
  with down show ?thesis by (simp add: sys_inv_def server_good_def links_good_def)
next
  case (surroundings e)
  then show ?thesis using assms(2) by (cases e) (auto simp: server_event_def intro!: inv_server_acts)
qed (use assms in \<open>auto simp: log_event_ok_def intro!: inv_page_acts\<close>)

lemma sys_inv_start:
  assumes "\<And>p. \<exists>w a o1 l. ps p = start_client w a True o1 l"
  shows "sys_inv (start_system ps)"
proof -
  have "sent_inv [] spoken (ps p)" for p using assms [of p] spoken_kind.log_start by auto
  then show ?thesis using polite_init origin_init log_inv_init
    by (simp add: sys_inv_def server_good_def links_good_def start_system_def)
qed

lemma reachable_inv: "sys_reachable sy \<Longrightarrow> sys_inv sy"
  by (induction rule: sys_reachable.induct) (auto intro: sys_inv_start sys_inv_step)

section \<open>A sample system\<close>

text \<open>
  A page is given the sample command while its first socket is being opened, the socket opens, the backend
  names the hosts, and the command reaches the server.
\<close>

definition sample_request :: json where
  "sample_request = JArr [JStr Server_Properties.sample_command]"

definition sample_pages :: "nat \<Rightarrow> client" where
  "sample_pages = (\<lambda>_. sample_client)(0 := client_step (sample_asked sample_request) (sample_world, Opened 0))"

definition sample_system :: system where
  "sample_system = \<lparr>realtime = sample_state3, history = sample_run, pages = sample_pages, links = Map.empty(0 \<mapsto> (0, 0)), taken = (\<lambda>_. 0)\<rparr>"

lemma sample_spoken: "spoken (command_message sample_request)"
  by (simp add: spoken_def protocol_message_def command_message_def sample_request_def readable_def command_text_def)

lemma sample_texts: "texts_sent 0 (sample_pages 0) = [sample_text]"
  by (simp add: texts_sent_def messages_sent_def sample_pages_def sample_opened_outs sent_on_def)
    (simp add: sample_text_def sample_message_def command_message_def sample_request_def)

lemma sample_system_reachable: "sys_reachable sample_system"
proof -
  let ?w = sample_world and ?c = sample_request and ?k = "Connection 0 ''u'' sample_cookie" and ?r = "IpsReply 0 sample_reply"
  let ?s0 = "start_system (\<lambda>_. sample_client)"
  let ?s1 = "page_acts 0 (?w, Fire 3) ?s0"
  let ?s2 = "page_acts 0 (?w, CommandGiven ?c) ?s1"
  let ?s3 = "(server_acts ?k ?s2)\<lparr>links := (links ?s2)(0 \<mapsto> (0, 0))\<rparr>"
  let ?s4 = "page_acts 0 (?w, Opened 0) ?s3"
  let ?s5 = "server_acts ?r ?s4"
  let ?s6 = "server_acts (Message 0 sample_text) ?s5"
  let ?n1 = "server_step server_init ?k"
  have ok: "polite_ok server_init ?k" "polite_ok ?n1 ?r" "event_ok (server_step ?n1 ?r) (Message 0 sample_text)"
    using sample_run_polite by (simp_all add: sample_run_def)
  have p1: "pages ?s1 0 = client_step sample_client (?w, Fire 3)" by (simp add: page_acts_def start_system_def)
  then have p2: "pages ?s2 0 = sample_asked ?c" by (simp add: page_acts_def [of 0 "(?w, CommandGiven ?c)"] sample_asked_step)
  have n2: "realtime ?s2 = server_init" "links ?s2 = Map.empty" "history ?s2 = []"
    by (simp_all add: page_acts_def start_system_def)
  have s0: "sys_reachable ?s0" by (rule sys_reachable.start) (auto simp: sample_client_def)
  have "sys_step ?s0 ?s1"
    using sample_steps_ok(1) by (intro sys_step.page) (simp_all add: start_system_def log_event_ok_def own_event_def)
  then have s1: "sys_reachable ?s1" using s0 sys_reachable.step by blast
  have "sys_step ?s1 ?s2"
    using sample_steps_ok(2) [of ?c] sample_spoken p1
    by (intro sys_step.page) (simp_all add: log_event_ok_def own_event_def command_message_def)
  then have s2: "sys_reachable ?s2" using s1 sys_reachable.step by blast
  have "sys_step ?s2 ?s3"
    using ok(1) n2 p2 sample_asked_facts(2) [of ?c] by (intro sys_step.connect) simp_all
  then have s3: "sys_reachable ?s3" using s2 sys_reachable.step by blast
  have p3: "pages ?s3 0 = sample_asked ?c" "realtime ?s3 = ?n1" "links ?s3 = Map.empty(0 \<mapsto> (0, 0))" "history ?s3 = [?k]"
    using p2 n2 by (simp_all add: server_acts_def)
  have "sys_step ?s3 ?s4"
    using p3 sample_steps_ok(3) [of ?c] by (intro sys_step.opened [where cid = 0]) simp_all
  then have s4: "sys_reachable ?s4" using s3 sys_reachable.step by blast
  have p4: "pages ?s4 0 = sample_pages 0" "realtime ?s4 = ?n1" "links ?s4 = Map.empty(0 \<mapsto> (0, 0))" "history ?s4 = [?k]"
    using p3 by (simp_all add: page_acts_def [of 0 "(?w, Opened 0)"] sample_pages_def)
  have "sys_step ?s4 ?s5"
    using p4 ok(2) by (intro sys_step.surroundings) (simp_all add: server_event_def)
  then have s5: "sys_reachable ?s5" using s4 sys_reachable.step by blast
  have p5: "pages ?s5 0 = sample_pages 0" "realtime ?s5 = server_step ?n1 ?r" "links ?s5 = Map.empty(0 \<mapsto> (0, 0))"
    "history ?s5 = [?k, ?r]"
    using p4 by (simp_all add: server_acts_def [of ?r])
  have "sys_step ?s5 ?s6"
    using p5 ok(3) sample_texts by (intro sys_step.up [where p = 0 and i = 0 and rest = "[]"]) simp_all
  then have s6: "sys_reachable ?s6" using s5 sys_reachable.step by blast
  have "?s6 = sample_system"
    by (simp add: sample_system_def sample_state3_def sample_run_def server_acts_def page_acts_def start_system_def sample_asked_step
        sample_pages_def)
  with s6 show ?thesis by simp
qed

section \<open>Results\<close>

text \<open>
  Clients that keep to the protocol cannot end the server: in every run in which each message is one of
  the protocol, each connection has a user id of its own and the backend names its hosts as an array of
  strings, the server does not crash, and a live connection
  whose hosts have come is the one registered for its user.
\<close>

theorem polite_clients_never_crash:
  assumes "run_ok server_step polite_ok server_init es" "s = run_events server_step server_init es"
  shows "\<not> crashed s \<and>
    (\<forall>cid ss. sessions s cid = Some ss \<longrightarrow> authReady ss \<longrightarrow> live_socket s cid \<longrightarrow> userSessions s (userId ss) = Some cid)"
proof -
  have inv: "polite_inv s" using polite.run_inv [OF polite_init assms(1)] assms(2) by simp
  then have "userSessions s (userId ss) = Some cid" if "sessions s cid = Some ss" "authReady ss" "live_socket s cid" for cid ss
    using that unfolding polite_inv_def register_ok_def by (force simp: mail_def ident_def)
  with inv show ?thesis by (simp add: polite_inv_def calm_def)
qed

theorem polite_clients_never_crash_witness: "\<not> crashed sample_state3"
  using polite_clients_never_crash [OF sample_run_polite sample_state3_def] by blast

text \<open>
  C18. The web terminal does not end its own server: if the commands the backend dispatches to the pages are
  arrays that start with a string, no user id is drawn twice and the hosts the backend names are arrays of
  strings, then in no state that the terminal components of any number of pages, the server and the
  connections between them can reach has the server crashed.
\<close>

theorem terminal_system_never_crashes:
  assumes "sys_reachable sy"
  shows "\<not> crashed (realtime sy)"
  using reachable_inv [OF assms] by (simp add: sys_inv_def server_good_def polite_inv_def calm_def)

theorem terminal_system_never_crashes_witness: "\<not> crashed (realtime sample_system)"
  using terminal_system_never_crashes [OF sample_system_reachable] .

text \<open>
  C20. In the runs C18 speaks of, what a user does reaches the server once and in order: the messages the
  server has handled for a connection, followed by those it still buffers, read back to a first part of the
  messages the linked component has sent on its socket.
\<close>

theorem messages_reach_server_in_order:
  assumes "sys_reachable sy" "links sy cid = Some (p, i)" "sessions (realtime sy) cid = Some ss"
  shows "\<exists>rest. map Some (messages_sent i (pages sy p)) =
    map parseMessage (handled_by cid (realtime sy) @ pendingMessages ss) @ rest"
proof -
  have inv: "sys_inv sy" using assms(1) by (rule reachable_inv)
  then have "link_good (received cid (history sy)) (pages sy) (links sy cid)" by (simp add: sys_inv_def links_good_def)
  then obtain ts where ts: "texts_sent i (pages sy p) = received cid (history sy) @ ts"
    using assms(2) by (auto simp: extends_list_def)
  have "received cid (history sy) = handled_by cid (realtime sy) @ pendingMessages ss"
    using inv assms(3) unfolding sys_inv_def server_good_def log_inv_def polite_inv_def calm_def
    by (auto simp: conn_ok_def mail_def dest: spec [of _ cid])
  moreover have "map Some (messages_sent i (pages sy p)) = map parseMessage (texts_sent i (pages sy p))"
    using inv parsed_sent by (simp add: sys_inv_def)
  ultimately show ?thesis using ts by simp
qed

theorem messages_reach_server_in_order_witness:
  "\<exists>rest. map Some (messages_sent 0 (pages sample_system 0)) = map parseMessage (handled_by 0 (realtime sample_system)) @ rest"
proof -
  have "links sample_system 0 = Some (0, 0)"
    "sessions (realtime sample_system) 0 = Some (sample_session\<lparr>ptyProcess := Some 0, isActive := True, terminalSessionTimer := Some 1\<rparr>)"
    by (simp_all add: sample_system_def sample_terminal)
  from messages_reach_server_in_order [OF sample_system_reachable this] show ?thesis by (simp add: sample_session_def)
qed

text \<open>
  C19. Every terminal was asked for, in the runs C18 speaks of: each process the server has ever started
  belongs to the connection its output goes to, that connection is linked to a page, the component there has
  sent a command on that socket, and the process runs the command line read from that command.
\<close>

theorem terminals_answer_commands:
  assumes "sys_reachable sy" "ptys (realtime sy) pid = Some q"
  shows "\<exists>p i c. links sy (pty_owner q) = Some (p, i) \<and> pty_ws q = pty_owner q
    \<and> JObj [(''command'', c)] \<in> set (messages_sent i (pages sy p)) \<and> pty_args q = command_line c"
proof -
  let ?d = "pty_owner q"
  have inv: "sys_inv sy" using assms(1) by (rule reachable_inv)
  then have "pty_origin (realtime sy) q" using assms(2) by (simp add: sys_inv_def server_good_def origin_inv_def)
  then obtain c t where c: "pty_ws q = ?d" "pty_args q = command_line c" "(?d, t) \<in> set (handled (realtime sy))"
      "parseMessage t = Some (JObj [(''command'', c)])"
    by (auto simp: pty_origin_def wanted_def)
  then have h: "t \<in> set (handled_by ?d (realtime sy))" by (force simp: handled_by_def)
  have "conn_ok (realtime sy) (history sy) ?d" "\<not> crashed (realtime sy)"
    using inv by (simp_all add: sys_inv_def server_good_def log_inv_def polite_inv_def calm_def)
  then have r: "t \<in> set (received ?d (history sy))" using h by (auto simp: conn_ok_def split: option.splits)
  have "link_good (received ?d (history sy)) (pages sy) (links sy ?d)" using inv by (simp add: sys_inv_def links_good_def)
  then obtain p i where l: "links sy ?d = Some (p, i)" "t \<in> set (texts_sent i (pages sy p))"
    using r by (cases "links sy ?d") (auto simp: extends_list_def)
  have parsed: "map parseMessage (texts_sent i (pages sy p)) = map Some (messages_sent i (pages sy p))"
    using inv parsed_sent by (simp add: sys_inv_def)
  have "Some (JObj [(''command'', c)]) \<in> set (map parseMessage (texts_sent i (pages sy p)))"
    using l(2) c(4) by (metis image_eqI list.set_map)
  then have "JObj [(''command'', c)] \<in> set (messages_sent i (pages sy p))" unfolding parsed by auto
  with c l show ?thesis by blast
qed

theorem terminals_answer_commands_witness:
  "\<exists>c. JObj [(''command'', c)] \<in> set (messages_sent 0 (pages sample_system 0)) \<and>
    command_line c = sanitizeSshArgs sample_args @ [extractHereDocContent Server_Properties.sample_command]"
proof -
  have "ptys (realtime sample_system) 0 = Some \<lparr>pty_owner = 0, pty_ws = 0,
      pty_args = sanitizeSshArgs sample_args @ [extractHereDocContent Server_Properties.sample_command],
      pty_live = True, pty_ops = []\<rparr>"
    by (simp add: sample_system_def sample_terminal)
  from terminals_answer_commands [OF sample_system_reachable this]
  show ?thesis by (auto simp: sample_system_def)
qed

end
