(* ===== verification/Client_Flow.thy ===== *)
theory Client_Flow imports Client_Connection begin

text \<open>
  Flow control as the server sees it: what the terminal client asked for on each socket, and that a
  server is held back only while the client is paused.
\<close>

section \<open>What the server was told\<close>

text \<open>The last of the messages \<open>pause\<close> and \<open>resume\<close> that were sent on the socket \<open>i\<close> is a \<open>pause\<close>.\<close>

definition signal_step :: "nat \<Rightarrow> effect \<Rightarrow> bool \<Rightarrow> bool" where
  "signal_step i x b =
     (case x of
        Sent j m \<Rightarrow>
          if j \<noteq> i then b
          else if get_prop ''pause'' m \<noteq> None then True
          else if get_prop ''resume'' m \<noteq> None then False
          else b
      | _ \<Rightarrow> b)"

definition held_back :: "nat \<Rightarrow> effect list \<Rightarrow> bool" where
  "held_back i xs = fold (signal_step i) xs False"

lemma held_back_snoc [simp]: "held_back i (xs @ [x]) = signal_step i x (held_back i xs)"
  by (simp add: held_back_def)

lemma held_back_Nil [simp]: "\<not> held_back i []"
  by (simp add: held_back_def)

lemma signal_step_simps [simp]:
  "signal_step i (Wrote t) b = b" "signal_step i (Dispatched e d) b = b" "signal_step i (Announced e) b = b"
  "signal_step i (CloseSent j c) b = b" "signal_step i Focused b = b" "signal_step i TermReset b = b"
  "signal_step i TermOpened b = b" "signal_step i (Copied t) b = b"
  by (simp_all add: signal_step_def)

text \<open>
  A socket on which the server is held back was made before, and is open only while the client is
  paused; no command that waits or may be sent again is a \<open>pause\<close>.
\<close>

definition no_pause :: "json \<Rightarrow> bool" where
  "no_pause m \<longleftrightarrow> get_prop ''pause'' m = None"

definition hold_inv :: "client \<Rightarrow> bool" where
  "hold_inv s \<longleftrightarrow>
     (\<forall>i. held_back i (outs s) \<longrightarrow>
        i < next_socket s \<and> (ready s i = OPEN \<and> paused s \<or> ready s i = CLOSING \<or> ready s i = CLOSED))
     \<and> pred_option no_pause (pendingCommand s) \<and> pred_option no_pause (lastSentCommand s)"

lemma hold_updates [simp]:
  "hold_inv (s\<lparr>page := v0\<rparr>) = hold_inv s" "hold_inv (s\<lparr>terminalActive := v1\<rparr>) = hold_inv s"
  "hold_inv (s\<lparr>starting := v2\<rparr>) = hold_inv s" "hold_inv (s\<lparr>message := v3\<rparr>) = hold_inv s"
  "hold_inv (s\<lparr>term_initialized := v4\<rparr>) = hold_inv s"
  "hold_inv (s\<lparr>term_cols := v5\<rparr>) = hold_inv s" "hold_inv (s\<lparr>term_rows := v6\<rparr>) = hold_inv s"
  "hold_inv (s\<lparr>term_style := v7\<rparr>) = hold_inv s" "hold_inv (s\<lparr>socket := v8\<rparr>) = hold_inv s"
  "hold_inv (s\<lparr>commandBuffer := v11\<rparr>) = hold_inv s" "hold_inv (s\<lparr>pendingWrites := v12\<rparr>) = hold_inv s"
  "hold_inv (s\<lparr>keepAliveInterval := v14\<rparr>) = hold_inv s" "hold_inv (s\<lparr>reconnectInterval := v15\<rparr>) = hold_inv s"
  "hold_inv (s\<lparr>connectionState := v16\<rparr>) = hold_inv s" "hold_inv (s\<lparr>reconnectAttempts := v17\<rparr>) = hold_inv s"
  "hold_inv (s\<lparr>connectionTimeoutId := v18\<rparr>) = hold_inv s" "hold_inv (s\<lparr>lastPingTime := v19\<rparr>) = hold_inv s"
  "hold_inv (s\<lparr>pingTimeoutId := v20\<rparr>) = hold_inv s" "hold_inv (s\<lparr>heartbeatMissed := v21\<rparr>) = hold_inv s"
  "hold_inv (s\<lparr>resizeObserver := v22\<rparr>) = hold_inv s" "hold_inv (s\<lparr>resizeTimeout := v23\<rparr>) = hold_inv s"
  "hold_inv (s\<lparr>isDocumentVisible := v24\<rparr>) = hold_inv s" "hold_inv (s\<lparr>wasConnectedBeforeHidden := v25\<rparr>) = hold_inv s"
  "hold_inv (s\<lparr>mobileToolbarCollapsed := v26\<rparr>) = hold_inv s" "hold_inv (s\<lparr>terminalModifier := v27\<rparr>) = hold_inv s"
  "hold_inv (s\<lparr>keyboardInsetSettleTimeout := v28\<rparr>) = hold_inv s" "hold_inv (s\<lparr>keyboard_listening := v29\<rparr>) = hold_inv s"
  "hold_inv (s\<lparr>terminalSessionStartedAt := v30\<rparr>) = hold_inv s"
  "hold_inv (s\<lparr>terminalSessionRemainingSeconds := v31\<rparr>) = hold_inv s"
  "hold_inv (s\<lparr>terminalSessionCountdownInterval := v32\<rparr>) = hold_inv s"
  "hold_inv (s\<lparr>timers := v33\<rparr>) = hold_inv s" "hold_inv (s\<lparr>next_timer := v34\<rparr>) = hold_inv s"
  "hold_inv (s\<lparr>outstanding := v35\<rparr>) = hold_inv s" "hold_inv (s\<lparr>terminal := v36\<rparr>) = hold_inv s"
  by (simp_all add: hold_inv_def)

definition is_sent :: "effect \<Rightarrow> bool" where
  "is_sent x \<longleftrightarrow> (case x of Sent i m \<Rightarrow> True | _ \<Rightarrow> False)"

lemma is_sent_simps [simp]:
  "\<not> is_sent (Wrote t)" "\<not> is_sent (Dispatched e d)" "\<not> is_sent (Announced e)" "\<not> is_sent (CloseSent i c)"
  "\<not> is_sent Focused" "\<not> is_sent TermReset" "\<not> is_sent TermOpened" "\<not> is_sent (Copied t)"
  by (simp_all add: is_sent_def)

lemma hold_emit [simp]: "\<not> is_sent x \<Longrightarrow> hold_inv (emit x s) = hold_inv s"
  by (cases x) (simp_all add: hold_inv_def emit_def is_sent_def)

lemma hold_commands:
  "hold_inv s \<Longrightarrow> pred_option no_pause c \<Longrightarrow> hold_inv (s\<lparr>pendingCommand := c\<rparr>)"
  "hold_inv s \<Longrightarrow> pred_option no_pause c \<Longrightarrow> hold_inv (s\<lparr>lastSentCommand := c\<rparr>)"
  by (simp_all add: hold_inv_def)

lemma hold_timers [simp]: "hold_inv (set_timer d t s) = hold_inv s" "hold_inv (clear_timer i s) = hold_inv s"
  by (simp_all add: set_timer_def clear_timer_def split: option.split)

lemma no_pause_simps [simp]:
  "no_pause (JObj [(k, v)]) = (k \<noteq> ''pause'')"
  by (simp add: no_pause_def)

text \<open>Sending anything but a \<open>pause\<close> keeps it.\<close>

lemma hold_send: "hold_inv s \<Longrightarrow> no_pause m \<Longrightarrow> hold_inv (sendMessage m s)"
  by (auto simp: sendMessage_def Let_def emit_def hold_inv_def signal_step_def no_pause_def
      split: option.split if_splits)

lemma only_live: "sockets_ok so rd n \<Longrightarrow> rd i \<noteq> CLOSED \<Longrightarrow> rd j \<noteq> CLOSED \<Longrightarrow> i = j"
  unfolding sockets_ok_def by (metis option.inject)

section \<open>Every operation keeps it\<close>

lemma hold_clearAll [simp]: "hold_inv (clearAllTimers s) = hold_inv s"
  by (simp add: clearAllTimers_def)

lemma hold_countdown [simp]: "hold_inv (resetTerminalSessionCountdown s) = hold_inv s"
  by (simp add: resetTerminalSessionCountdown_def)

lemma hold_close: "hold_inv s \<Longrightarrow> hold_inv (close_socket c s)"
  by (auto simp: close_socket_def hold_inv_def emit_def split: option.split)

lemma hold_schedule [simp]: "hold_inv (scheduleReconnect w s) = hold_inv s"
  by (simp add: scheduleReconnect_def Let_def)

lemma hold_error [simp]: "hold_inv (handleConnectionError w r s) = hold_inv s"
  "hold_inv (handleSocketError w s) = hold_inv s"
  by (simp_all add: handleSocketError_def handleConnectionError_def Let_def dispatch_def)

lemma hold_new_socket:
  "hold_inv s \<Longrightarrow> hold_inv (s\<lparr>socket := x, next_socket := Suc (next_socket s), ready := (ready s)(next_socket s := CONNECTING)\<rparr>)"
  by (auto simp: hold_inv_def)

lemma hold_initialize: "hold_inv s \<Longrightarrow> hold_inv (initializeWebSocket w s)"
  using hold_new_socket [of "clearAllTimers (s\<lparr>connectionState := Connecting\<rparr>)"]
  by (auto simp: initializeWebSocket_def Let_def split: option.split)

lemma hold_resetPing [simp]: "hold_inv (resetPingTimeout s) = hold_inv s"
  by (simp add: resetPingTimeout_def Let_def)

lemma hold_replay: "hold_inv s \<Longrightarrow> hold_inv (replay_command s)"
proof -
  assume a: "hold_inv s"
  then have "no_pause m" if "pendingCommand s = Some m \<or> lastSentCommand s = Some m" for m
    using that by (auto simp: hold_inv_def)
  with a show ?thesis by (simp add: replay_command_def hold_send hold_commands split: option.split)
qed

lemma hold_open: "hold_inv s \<Longrightarrow> hold_inv (handleSocketOpen w s)"
  by (simp add: handleSocketOpen_def dispatchEvent_def Let_def hold_replay)

text \<open>The flag is taken back without a message only when no socket is open.\<close>

lemma hold_unpause: "hold_inv s \<Longrightarrow> \<forall>i. ready s i \<noteq> OPEN \<Longrightarrow> hold_inv (s\<lparr>paused := b\<rparr>)"
  by (auto simp: hold_inv_def)

lemma hold_resetTerminal:
  assumes "hold_inv s" "\<forall>i. ready s i \<noteq> OPEN"
  shows "hold_inv (resetTerminal w s)"
proof -
  have "hold_inv (t\<lparr>pendingWrites := 0, paused := False, commandBuffer := [], pendingCommand := None\<rparr>)"
    if "hold_inv t" "ready t = ready s" for t
    using that assms(2) hold_unpause [of "t\<lparr>pendingWrites := 0\<rparr>"] by (simp add: hold_commands)
  with assms(1) show ?thesis by (simp add: resetTerminal_def Let_def)
qed

lemma hold_closed:
  assumes "hold_inv s" "\<forall>i. ready s i \<noteq> OPEN"
  shows "hold_inv (handleSocketClose w c s)"
  using assms by (simp add: handleSocketClose_def Let_def hold_resetTerminal)

lemma hold_keepAlive: "hold_inv s \<Longrightarrow> hold_inv (keepAlive w s)"
  by (simp add: keepAlive_def hold_send hold_initialize)

lemma hold_visibility: "hold_inv s \<Longrightarrow> hold_inv (handleVisibilityChange w s)"
  by (simp add: handleVisibilityChange_def Let_def hold_send hold_initialize)

lemma hold_resize: "hold_inv s \<Longrightarrow> hold_inv (resizeTerminal w s)"
  by (simp add: resizeTerminal_def Let_def hold_send split: option.split prod.split)

lemma hold_fullscreen [simp]:
  "hold_inv (leave_fullscreen w s) = hold_inv s" "hold_inv (go_fullscreen w s) = hold_inv s"
  "hold_inv (update_inset w s) = hold_inv s" "hold_inv (syncKeyboardInset w s) = hold_inv s"
  by (simp_all add: leave_fullscreen_def go_fullscreen_def scheduleTerminalResize_def update_inset_def syncKeyboardInset_def Let_def)

lemma hold_start_countdown [simp]:
  "hold_inv (updateTerminalSessionCountdown w s) = hold_inv s" "hold_inv (startTerminalSessionCountdown w s) = hold_inv s"
  by (simp_all add: updateTerminalSessionCountdown_def startTerminalSessionCountdown_def Let_def split: option.split)

text \<open>Pausing tells the open socket; resuming takes it back on the only socket that can be open.\<close>

lemma hold_pause:
  assumes "hold_inv s" "sockets_ok (socket s) (ready s) (next_socket s)"
  shows "hold_inv (sendMessage (JObj [(''pause'', JBool True)]) (s\<lparr>paused := True\<rparr>))"
proof -
  have "i < next_socket s" if "ready s i = OPEN" for i
    using that assms(2) unfolding sockets_ok_def by (metis linorder_not_le ready_state.distinct(9))
  with assms(1) show ?thesis
    by (auto simp: sendMessage_def emit_def signal_step_def hold_inv_def split: option.split if_splits)
qed

lemma hold_resume:
  assumes "hold_inv s" "sockets_ok (socket s) (ready s) (next_socket s)"
  shows "hold_inv (sendMessage (JObj [(''resume'', JBool True)]) (s\<lparr>paused := False\<rparr>))"
proof (cases "\<exists>i. socket s = Some i \<and> ready s i = OPEN")
  case True
  then obtain i where i: "socket s = Some i" "ready s i = OPEN" by blast
  with only_live [OF assms(2), of i] have "ready s j = CLOSED" if "j \<noteq> i" for j using that by force
  with assms(1) i show ?thesis
    by (auto simp: sendMessage_def emit_def signal_step_def hold_inv_def split: if_splits)
next
  case False
  with assms(2) have "\<forall>i. ready s i \<noteq> OPEN" by (force simp: sockets_ok_def)
  with assms(1) False show ?thesis
    by (auto simp: sendMessage_def hold_unpause split: option.split)
qed

lemma hold_flow:
  assumes "hold_inv s" "sockets_ok (socket s) (ready s) (next_socket s)"
  shows "hold_inv (flowControlCallback s)"
  using assms hold_pause [of "s\<lparr>pendingWrites := pendingWrites s - 1\<rparr>"] hold_resume [of "s\<lparr>pendingWrites := pendingWrites s - 1\<rparr>"]
  by (simp add: flowControlCallback_def Let_def)

lemma hold_pty_ready: "hold_inv s \<Longrightarrow> hold_inv (on_pty_ready w s)"
  by (simp add: on_pty_ready_def Let_def hold_resize)

lemma hold_message: "hold_inv s \<Longrightarrow> hold_inv (handleSocketMessage w text s)"
  by (simp add: handleSocketMessage_def hold_pty_ready)
    (simp add: on_unprocessable_def on_pty_exited_def on_rejected_def write_output_def Let_def hold_commands)

lemma hold_input: "hold_inv s \<Longrightarrow> hold_inv (sendTerminalInput t s)"
  by (simp add: sendTerminalInput_def hold_send)

lemma hold_user:
  assumes "hold_inv s"
  shows "hold_inv (on_data t s)" "hold_inv (fst (custom_key k sel s))"
    "hold_inv (sendTerminalControl c s)" "hold_inv (sendTerminalKey t s)" "hold_inv (toggleTerminalModifier t s)"
    "hold_inv (pasteFromClipboard oc s)" "hold_inv (copyTerminalSelection sel al s)" "hold_inv (focus_when_ready s)"
    "hold_inv (sendCommandWhenReady (JObj [(''command'', v)]) s)"
  using assms
  by (simp_all add: on_data_def custom_key_def sendTerminalControl_def sendTerminalKey_def toggleTerminalModifier_def
      pasteFromClipboard_def copyTerminalSelection_def focus_when_ready_def sendCommandWhenReady_def Let_def
      hold_input hold_send hold_commands split: option.split)

lemma hold_cleanup: "hold_inv s \<Longrightarrow> hold_inv (cleanup w s)"
  by (simp add: cleanup_def Let_def checkIfProcessIsRunningAndKillIt_def hold_send hold_close hold_commands)

lemma hold_active_change: "hold_inv s \<Longrightarrow> hold_inv (on_active_change w s)"
  by (simp add: on_active_change_def Let_def hold_resize)

lemma hold_run_task: "hold_inv s \<Longrightarrow> hold_inv (run_task w t s)"
  by (cases t) (simp_all add: run_task_def hold_initialize connection_timed_out_def hold_close hold_keepAlive
      ping_timed_out_def Let_def resume_timed_out_def hold_resize resize_next_tick_def resize_frame_def hold_user)

lemma hold_fire: "hold_inv s \<Longrightarrow> hold_inv (fire w n s)"
  by (simp add: fire_def hold_run_task split: option.split prod.split)

lemma hold_ready:
  "hold_inv s \<Longrightarrow> ready s i = CONNECTING \<Longrightarrow> hold_inv (s\<lparr>ready := (ready s)(i := OPEN)\<rparr>)"
  "hold_inv s \<Longrightarrow> hold_inv (s\<lparr>ready := (ready s)(i := CLOSED)\<rparr>)"
  by (auto simp: hold_inv_def)

lemma hold_socket_closed:
  assumes "hold_inv s" "client_inv s" "ready s i \<noteq> CLOSED"
  shows "hold_inv (client_react w (SocketClosed i failed c) s)"
proof -
  let ?s = "s\<lparr>ready := (ready s)(i := CLOSED)\<rparr>"
  have "\<forall>j. ready ?s j \<noteq> OPEN"
  proof -
    from assms(2) have "sockets_ok (socket s) (ready s) (next_socket s)" by (simp add: client_inv_def)
    from only_live [OF this assms(3)] have "ready s j = CLOSED" if "j \<noteq> i" for j using that by blast
    then show ?thesis by simp
  qed
  with assms(1) show ?thesis by (simp add: client_react_def Let_def hold_closed hold_ready)
qed

lemma hold_react:
  assumes "hold_inv s" "client_inv s" "client_event_ok s (w, e)"
  shows "hold_inv (client_react w e s)"
proof (cases e)
  case (SocketClosed i failed c)
  with assms show ?thesis by (simp add: hold_socket_closed client_event_ok_def)
next
  case WriteDone
  with assms show ?thesis by (simp add: client_react_def hold_flow client_inv_def)
qed (use assms in \<open>simp_all add: client_event_ok_def client_react_def hold_fire hold_open hold_ready hold_message
    hold_visibility hold_user toggle_fullscreen_def hold_resize on_observed_def Let_def hold_cleanup destroy_def\<close>)

lemma hold_step:
  "client_inv s \<and> hold_inv s \<Longrightarrow> client_event_ok s we \<Longrightarrow> client_inv (client_step s we) \<and> hold_inv (client_step s we)"
  using hold_react [of s "fst we" "snd we"] conn_step [of s we] by (simp add: client_step_def Let_def hold_active_change)

interpretation flow: invariant_machine client_step client_event_ok "\<lambda>s. client_inv s \<and> hold_inv s"
  by unfold_locales (rule hold_step)

lemma hold_start: "client_inv (start_client w a e o1 p) \<and> hold_inv (start_client w a e o1 p)"
  using inv_start by (simp add: start_client_def setupTerminal_def Let_def) (simp add: hold_inv_def client0_def)

lemmas flow_run = flow.run_inv [OF hold_start]

section \<open>Result\<close>

text \<open>
  C23. Output is never left paused: when the terminal has reported every write, no write is counted as
  pending, the client is not paused, and the server is not held back: on a connection that is open, the
  last of the messages \<open>pause\<close> and \<open>resume\<close> sent, if there is one, is a \<open>resume\<close>.
\<close>

theorem output_not_stuck:
  assumes "run_ok client_step client_event_ok (start_client w a e o1 p) es"
    "s = run_events client_step (start_client w a e o1 p) es" "outstanding s = 0"
  shows "\<not> paused s \<and> pendingWrites s = 0 \<and> (ready s i = OPEN \<longrightarrow> \<not> held_back i (outs s))"
  using flow_run [OF assms(1)] assms(2,3) by (auto simp: client_inv_def flow_ok_def hold_inv_def)

text \<open>Seven writes at once, reported one after the other: the first report pauses the server, the fifth resumes it.\<close>

definition flood_view :: "client \<Rightarrow> nat \<times> bool \<Rightarrow> bool" where
  "flood_view s x \<longleftrightarrow> socket s = Some 0 \<and> ready s 0 = OPEN \<and> terminal s \<noteq> None
     \<and> pendingWrites s = fst x \<and> outstanding s = fst x \<and> paused s = snd x \<and> held_back 0 (outs s) = snd x"

definition flood_report :: "nat \<times> bool \<Rightarrow> nat \<times> bool" where
  "flood_report x = (fst x - 1, if 6 < fst x \<and> \<not> snd x then True else if fst x \<le> 3 \<and> snd x then False else snd x)"

lemma flood_write:
  assumes "flood_view s (n, b)"
  shows "client_event_ok s (sample_world, Received 0 ''x'')"
    "flood_view (client_step s (sample_world, Received 0 ''x'')) (Suc n, b)"
  using assms
  by (simp_all add: flood_view_def client_event_ok_def client_step_def client_react_def Let_def handleSocketMessage_def
      write_output_def sample_world_def emit_def)

lemma flood_writes:
  "flood_view s (n, b) \<Longrightarrow> run_ok client_step client_event_ok s (replicate k (sample_world, Received 0 ''x''))
     \<and> flood_view (run_events client_step s (replicate k (sample_world, Received 0 ''x''))) (n + k, b)"
proof (induction k arbitrary: s n)
  case (Suc k)
  from flood_write [OF Suc.prems] Suc.IH [of "client_step s (sample_world, Received 0 ''x'')" "Suc n"]
  show ?case by simp
qed simp

lemma flood_done:
  assumes "flood_view s x" "0 < fst x"
  shows "client_event_ok s (sample_world, WriteDone) \<and> flood_view (client_step s (sample_world, WriteDone)) (flood_report x)"
  using assms
  by (auto simp: flood_view_def flood_report_def client_event_ok_def client_step_def client_react_def Let_def
      flowControlCallback_def sendMessage_def emit_def signal_step_def MAX_PENDING_WRITES_def sample_world_def)

lemma flood_reports:
  "flood_view s x \<Longrightarrow> k \<le> fst x \<Longrightarrow> run_ok client_step client_event_ok s (replicate k (sample_world, WriteDone))
     \<and> flood_view (run_events client_step s (replicate k (sample_world, WriteDone))) ((flood_report ^^ k) x)"
proof (induction k arbitrary: s x)
  case (Suc k)
  from flood_done [OF Suc.prems(1)] Suc.prems(2) have
    "client_event_ok s (sample_world, WriteDone)" "flood_view (client_step s (sample_world, WriteDone)) (flood_report x)" by auto
  moreover have "k \<le> fst (flood_report x)" using Suc.prems(2) by (simp add: flood_report_def)
  ultimately show ?case using Suc.IH [of "client_step s (sample_world, WriteDone)" "flood_report x"] by (simp add: funpow_swap1)
qed simp

definition sample_flood :: "nat \<Rightarrow> (world \<times> client_event) list" where
  "sample_flood k = [(sample_world, Fire 3), (sample_world, Opened 0)]
     @ replicate 7 (sample_world, Received 0 ''x'') @ replicate k (sample_world, WriteDone)"

lemma sample_opened:
  "run_ok client_step client_event_ok sample_client [(sample_world, Fire 3), (sample_world, Opened 0)]"
  "flood_view (run_events client_step sample_client [(sample_world, Fire 3), (sample_world, Opened 0)]) (0, False)"
  by (simp_all add: flood_view_def run_simps sample_client_def sample_world_def sample_layout_def
      handleSocketOpen_def replay_command_def dispatchEvent_def resetPingTimeout_def held_back_def)

lemma sample_flood_run:
  assumes "k \<le> 7"
  shows "run_ok client_step client_event_ok sample_client (sample_flood k)"
    "flood_view (run_events client_step sample_client (sample_flood k)) ((flood_report ^^ k) (7, False))"
proof -
  let ?s = "run_events client_step sample_client [(sample_world, Fire 3), (sample_world, Opened 0)]"
  note a = flood_writes [OF sample_opened(2), of 7]
  then have v: "flood_view (run_events client_step ?s (replicate 7 (sample_world, Received 0 ''x''))) (7, False)" by simp
  note b = flood_reports [OF v, of k, simplified, OF assms]
  show "run_ok client_step client_event_ok sample_client (sample_flood k)"
    "flood_view (run_events client_step sample_client (sample_flood k)) ((flood_report ^^ k) (7, False))"
    using sample_opened(1) a b unfolding sample_flood_def run_ok_append run_events_append by auto
qed

theorem output_not_stuck_witness:
  "held_back 0 (outs (run_events client_step sample_client (sample_flood 1)))
   \<and> \<not> held_back 0 (outs (run_events client_step sample_client (sample_flood 7)))"
proof -
  let ?s = "run_events client_step sample_client (sample_flood 7)"
  have "held_back 0 (outs (run_events client_step sample_client (sample_flood 1)))"
    using sample_flood_run(2) [of 1] by (simp add: flood_view_def flood_report_def)
  moreover have "outstanding ?s = 0" "ready ?s 0 = OPEN"
    using sample_flood_run(2) [of 7] by (simp_all add: flood_view_def flood_report_def numeral_eq_Suc)
  with output_not_stuck [of sample_world True True True sample_layout "sample_flood 7" ?s 0] sample_flood_run(1) [of 7]
  have "\<not> held_back 0 (outs ?s)" unfolding sample_client_def by simp
  ultimately show ?thesis by simp
qed

end
