(* ===== verification/Server_Close.thy ===== *)
theory Server_Close imports Server_Life begin

text \<open>
  What closing a connection does, whatever else the server does meanwhile. Once the connection is closed,
  no event starts a terminal for it, its terminal is not replaced, and its user is unregistered or a
  termination that will unregister it is pending.
\<close>

section \<open>What happens to a closed connection\<close>

text \<open>
  The end that a user's session awaits: it is registered no more, or a termination is pending that will
  take it from the register.
\<close>

definition ending :: "string \<Rightarrow> server \<Rightarrow> bool" where
  "ending uid s \<longleftrightarrow> userSessions s uid = None \<or> (\<exists>kid k. kills s kid = Some k \<and> kt_cont k = KDelete uid)"

definition is_command :: "kill_cont \<Rightarrow> bool" where
  "is_command cont \<longleftrightarrow> (case cont of KCommand ws c \<Rightarrow> True | _ \<Rightarrow> False)"

definition core :: "session \<Rightarrow> string \<times> bool \<times> bool \<times> nat option" where
  "core ss = (userId ss, authReady ss, awaitingIps ss, ptyProcess ss)"

text \<open>
  Actions that start nothing for the connection \<open>cid\<close> of the user \<open>uid\<close>: its session stays what it is
  and does not become active, no process and no command that waits is added for it, a closed socket stays
  closed, and an end that was awaited still is.
\<close>

definition spares :: "nat \<Rightarrow> string \<Rightarrow> server \<Rightarrow> server \<Rightarrow> bool" where
  "spares cid uid s t \<longleftrightarrow>
     (\<forall>ss. sessions s cid = Some ss \<longrightarrow>
        (\<exists>x. sessions t cid = Some x \<and> core x = core ss \<and> (isActive x \<longrightarrow> isActive ss)))
     \<and> (\<forall>q r. ptys t q = Some r \<longrightarrow> pty_owner r = cid \<longrightarrow> (\<exists>r'. ptys s q = Some r' \<and> pty_owner r' = cid))
     \<and> (\<forall>kid k. kills t kid = Some k \<longrightarrow> kt_session k = cid \<longrightarrow> is_command (kt_cont k) \<longrightarrow> kills s kid = Some k)
     \<and> (live_socket t cid \<longrightarrow> live_socket s cid)
     \<and> (ending uid s \<longrightarrow> ending uid t)"

lemma spares_refl [simp]: "spares cid uid s s"
  by (simp add: spares_def)

lemma spares_trans:
  assumes "spares cid uid s t" "spares cid uid t u"
  shows "spares cid uid s u"
proof -
  have "\<exists>x. sessions u cid = Some x \<and> core x = core ss \<and> (isActive x \<longrightarrow> isActive ss)" if "sessions s cid = Some ss" for ss
  proof -
    from assms(1) that obtain y where y: "sessions t cid = Some y" "core y = core ss" "isActive y \<longrightarrow> isActive ss"
      unfolding spares_def by blast
    with assms(2) obtain x where "sessions u cid = Some x" "core x = core y" "isActive x \<longrightarrow> isActive y"
      unfolding spares_def by blast
    with y show ?thesis by metis
  qed
  with assms show ?thesis unfolding spares_def by blast
qed

lemma spares_plain:
  assumes "sessions t = sessions s" "ptys t = ptys s" "kills t = kills s" "userSessions t = userSessions s" "sockets t = sockets s"
  shows "spares cid uid s t"
  using live_socket_cong [OF assms(5)] by (simp add: spares_def ending_def assms)

named_theorems spares_intros \<open>actions that start nothing for a connection\<close>

lemma spares_basic [spares_intros]:
  "spares cid uid s (ws_send c x s)" "spares cid uid s (crash s)" "spares cid uid s (reject s)"
  "spares cid uid s (s\<lparr>handled := h\<rparr>)" "spares cid uid s (s\<lparr>server.timers := ti\<rparr>)"
  by (rule spares_plain; simp add: crash_def reject_def)+

lemma spares_upd_session [spares_intros]:
  "(\<And>x. c = cid \<Longrightarrow> core (f x) = core x \<and> (isActive (f x) \<longrightarrow> isActive x)) \<Longrightarrow> spares cid uid s (upd_session c f s)"
  using live_socket_cong [of "upd_session c f s" s] by (auto simp: spares_def ending_def)

lemma spares_upd_socket:
  "(\<And>k. c = cid \<Longrightarrow> sock_state k = Closed \<Longrightarrow> sock_state (f k) = Closed) \<Longrightarrow> spares cid uid s (upd_socket c f s)"
  by (auto simp: spares_def ending_def live_socket_def upd_socket_def split: option.splits if_splits)

lemma spares_clear_timer [spares_intros]: "spares cid uid s (clear_session_timer c s)"
  using live_socket_cong [of "clear_session_timer c s" s]
  by (auto simp: spares_def ending_def sessions_clear_timer core_def)

lemma spares_pty_do [spares_intros]: "spares cid uid s (pty_do pid x s)"
  using live_socket_cong [of "pty_do pid x s" s]
  by (auto simp: spares_def ending_def pty_do_def split: option.splits if_splits)

lemma spares_spawn: "d \<noteq> cid \<Longrightarrow> spares cid uid s (spawn_pty ws d args s)"
  using live_socket_cong [of "spawn_pty ws d args s" s]
  by (auto simp: spares_def ending_def sessions_spawn ptys_spawn split: if_splits)

lemma spares_run_command: "d \<noteq> cid \<Longrightarrow> spares cid uid s (run_command ws d c s)"
  by (auto simp: run_command_def Let_def intro: spares_intros spares_trans [OF spares_clear_timer spares_spawn]
      spares_trans [OF spares_clear_timer spares_basic(1)] spares_trans [OF spares_clear_timer spares_basic(3)] split: option.split)

lemma spares_attemptKill:
  assumes "fresh_ok s" "is_command cont \<Longrightarrow> d \<noteq> cid"
  shows "spares cid uid s (attemptKill d n cont s)"
proof -
  let ?s = "pty_do (ptyProcess (session_of s d)) (PWrite (JStr KILL_TEXT)) s"
  have new: "kills ?s (next_id ?s) = None" using assms(1) by (force simp: fresh_ok_def)
  have "spares cid uid ?s (attemptKill d n cont s)"
    using assms(2) new live_socket_cong [of "attemptKill d n cont s" ?s]
    by (auto simp: spares_def ending_def attemptKill_def Let_def split: if_splits) (metis option.distinct(1))
  with spares_pty_do show ?thesis by (rule spares_trans)
qed

lemma spares_resolve:
  assumes "is_command cont \<Longrightarrow> d \<noteq> cid"
  shows "spares cid uid s (kill_resolve d cont ok s)"
proof (cases cont)
  case (KDelete u)
  have "live_socket (s\<lparr>userSessions := (userSessions s)(u := None)\<rparr>) = live_socket s" by (rule live_socket_cong) simp
  then show ?thesis using KDelete by (auto simp: kill_resolve_def spares_def ending_def)
qed (use assms in \<open>auto simp: kill_resolve_def is_command_def intro: spares_run_command spares_intros\<close>)

lemma spares_kill:
  assumes "fresh_ok s" "is_command cont \<Longrightarrow> \<exists>d. userSessions s u = Some d \<and> d \<noteq> cid"
  shows "spares cid uid s (killPtyProcess u cont s)"
proof (cases "userSessions s u")
  case None
  then show ?thesis using assms(2) by (auto simp: killPtyProcess_def intro: spares_resolve)
next
  case (Some d)
  then show ?thesis using assms(2) spares_resolve [of cont d] spares_attemptKill [OF assms(1), of cont d]
    by (auto simp: killPtyProcess_def)
qed

text \<open>The timer of a termination: one that will unregister the user does so, or is set again.\<close>

lemma fresh_drop: "fresh_ok s \<Longrightarrow> fresh_ok (s\<lparr>kills := (kills s)(kid := None)\<rparr>)"
  by (simp add: fresh_ok_def)

lemma ending_kill_check:
  assumes "kills s kid = Some k" "kt_cont k = KDelete uid"
  shows "ending uid (kill_check kid s)"
  using assms by (auto simp: kill_check_def Let_def kill_resolve_def attemptKill_def ending_def)

lemma spares_kill_check:
  assumes fresh: "fresh_ok s" and cmd: "\<And>k. kills s kid = Some k \<Longrightarrow> is_command (kt_cont k) \<Longrightarrow> kt_session k \<noteq> cid"
  shows "spares cid uid s (kill_check kid s)"
proof (cases "kills s kid")
  case (Some k)
  let ?c = "kt_session k" and ?s = "s\<lparr>kills := (kills s)(kid := None)\<rparr>"
  have l: "live_socket ?s = live_socket s" by (rule live_socket_cong) simp
  note cmd' = cmd [OF Some]
  have t: "spares cid uid ?s (kill_check kid s)"
    using spares_attemptKill [OF fresh_drop [OF fresh], of "kt_cont k" ?c] spares_resolve [of "kt_cont k" ?c] cmd'
      spares_trans [OF spares_clear_timer spares_resolve [of "kt_cont k" ?c]]
    by (simp add: kill_check_def Let_def Some)
  have "ending uid (kill_check kid s)" if e: "ending uid s"
  proof (cases "kt_cont k = KDelete uid")
    case True
    with Some show ?thesis by (rule ending_kill_check)
  next
    case False
    with e Some have "ending uid ?s" unfolding ending_def by auto (metis option.inject)
    with t show ?thesis by (simp add: spares_def)
  qed
  moreover have "kills s n = Some x" if "kills ?s n = Some x" for n x using that by (auto split: if_splits)
  then have "kills s n = Some x" if "kills (kill_check kid s) n = Some x" "kt_session x = cid" "is_command (kt_cont x)" for n x
    using that t unfolding spares_def by blast
  ultimately show ?thesis using t unfolding spares_def l by simp
qed (simp add: kill_check_def)

section \<open>Messages of other connections\<close>

lemma spares_handleMessage:
  assumes inv: "server_inv s" and ss: "sessions s d = Some ss" "userSessions s (userId ss) = Some d" and d: "d \<noteq> cid"
    and t: "polite_text t"
  shows "spares cid uid s (handleMessage d t s)"
proof -
  let ?s = "s\<lparr>handled := handled s @ [(d, t)]\<rparr>"
  from t obtain k v where m: "parseMessage t = Some (JObj [(k, v)])" "protocol_entry k v" by (rule polite_textE)
  have f: "fresh_ok ?s" using inv_handled [OF inv] by (simp add: server_inv_def)
  have kill: "spares cid uid ?s (killPtyProcess (userId ss) cont ?s)" for cont
    using spares_kill [OF f, of cont "userId ss" cid uid] ss d by simp
  have "spares cid uid ?s (handleCommand d v (userId ss) ?s)"
    using kill spares_run_command [OF d] ss by (simp add: handleCommand_def session_of_def)
  then have "spares cid uid ?s (call_handler h d v ?s)" for h
    using kill ss by (cases h) (auto simp: call_handler_def session_of_def Let_def intro: spares_intros)
  then have "spares cid uid ?s (handle_entry d (k, v) ?s)" by (auto simp: handle_entry_def split: option.split)
  from spares_trans [OF spares_basic(4) this] show ?thesis by (simp add: handleMessage_def Let_def m(1))
qed

section \<open>Events\<close>

lemma spares_heartbeat: "spares cid uid s (on_heartbeat cs s)"
proof -
  have "spares cid uid s (heartbeat_client c s)" for c s
  proof (cases "sockets s c")
    case (Some k)
    have "spares cid uid s (upd_socket c f (ws_send c x s))" if "sock_state k \<noteq> Closed" for f x
      using that Some by (auto simp: spares_def ending_def live_socket_def upd_socket_def split: option.splits if_splits)
    then show ?thesis using Some by (simp add: heartbeat_client_def)
  qed (simp add: heartbeat_client_def)
  then show ?thesis unfolding on_heartbeat_def
    by (induction cs arbitrary: s) (auto intro: spares_trans)
qed

lemma spares_pty_exit: "spares cid uid s (on_pty_exit pid s)"
proof (cases "ptys s pid")
  case (Some p)
  let ?t = "upd_session (pty_owner p) (\<lambda>x. x\<lparr>isActive := False\<rparr>)
    (ws_send (pty_ws p) (OText ''pty-exited'') (s\<lparr>ptys := (ptys s)(pid \<mapsto> p\<lparr>pty_live := False\<rparr>)\<rparr>))"
  have "live_socket ?t = live_socket s" by (rule live_socket_cong) simp
  then have "spares cid uid s ?t" using Some by (auto simp: spares_def ending_def core_def split: if_splits)
  from spares_trans [OF this spares_clear_timer] Some show ?thesis by (simp add: on_pty_exit_def Let_def)
qed (simp add: on_pty_exit_def)

text \<open>A connection that was closed while it had a terminal, with nothing pending that would start another.\<close>

definition closed_conn :: "nat \<Rightarrow> string \<Rightarrow> nat \<Rightarrow> server \<Rightarrow> bool" where
  "closed_conn cid uid pid s \<longleftrightarrow>
     (\<exists>ss. sessions s cid = Some ss \<and> core ss = (uid, True, False, Some pid)) \<and> \<not> live_socket s cid
     \<and> (\<forall>kid k. kills s kid = Some k \<longrightarrow> kt_session k = cid \<longrightarrow> \<not> is_command (kt_cont k)) \<and> ending uid s"

lemma spares_closed: "spares cid uid s t \<Longrightarrow> closed_conn cid uid pid s \<Longrightarrow> closed_conn cid uid pid t"
  unfolding spares_def closed_conn_def by metis

lemma spares_ips:
  assumes inv: "polite_inv s" and c: "sessions s c = Some ss" "awaitingIps ss" "fair_reply r"
    and cl: "closed_conn cid uid pid s"
  shows "spares cid uid s (on_ips c r s)"
proof -
  from cl obtain sx where sx: "sessions s cid = Some sx" "core sx = (uid, True, False, Some pid)" by (auto simp: closed_conn_def)
  then have ne: "c \<noteq> cid" using c by (auto simp: core_def)
  have "userId ss \<noteq> uid"
  proof
    assume "userId ss = uid"
    then have "ident s c = ident s cid" "ident s c \<noteq> None" using c sx by (simp_all add: ident_def core_def)
    with inv ne show False unfolding polite_inv_def register_ok_def by blast
  qed
  then have a: "spares cid uid s (authorized c ips s)" for ips
    using ne c(1) live_socket_cong [of "authorized c ips s" s]
    by (auto simp: spares_def ending_def authorized_facts [OF c(1)]) (simp_all add: authorized_def Let_def)
  let ?J = "\<lambda>t. spares cid uid s t"
  have "polite_inv (on_ips c r s) \<and> ?J (on_ips c r s)"
  proof (rule polite_ips_rule [OF inv c, where J = ?J])
    have "spares cid uid s (upd_session c (\<lambda>x. x\<lparr>awaitingIps := False\<rparr>) s)" using ne by (intro spares_upd_session) simp
    moreover have "spares cid uid t (ws_close c n m t)" for t n m
      unfolding ws_close_def using ne by (intro spares_trans [OF spares_basic(1) spares_upd_socket]) simp
    ultimately show "?J (ws_close c 1011 ''Failed to fetch terminal authorization data'' (upd_session c (\<lambda>x. x\<lparr>awaitingIps := False\<rparr>) s))"
      by (rule spares_trans)
    show "?J t \<Longrightarrow> ?J (upd_session c (\<lambda>x. x\<lparr>pendingMessages := ms\<rparr>) t)" for t ms
      using ne by (elim spares_trans, intro spares_upd_session) simp
    show "?J (handleMessage c m t)"
      if "polite_inv t" "?J t" "sessions t c = Some x" "userSessions t (userId x) = Some c" "polite_text m" for t x m
      using that ne spares_handleMessage [of t c x cid m uid] spares_trans by (simp add: polite_inv_def)
  qed (rule a)
  then show ?thesis ..
qed

lemma spares_react:
  assumes inv: "polite_inv s" and ok: "polite_ok s e" and cl: "closed_conn cid uid pid s"
  shows "spares cid uid s (react e s)"
proof -
  have f: "fresh_ok s" and si: "server_inv s" using inv by (simp_all add: polite_inv_def server_inv_def)
  have nl: "\<not> live_socket s cid" and sx: "sessions s cid \<noteq> None" using cl by (auto simp: closed_conn_def)
  show ?thesis
  proof (cases e)
    case (Connection c u k)
    then have "c \<noteq> cid" "sessions s c = None" "sockets s c = None" "has_tokens k" using ok sx by auto
    then show ?thesis using Connection
      by (auto simp: on_connection_def Let_def spares_def ending_def live_socket_def)
  next
    case (IpsReply c r)
    then show ?thesis using ok inv cl by (auto intro: spares_ips split: option.splits)
  next
    case (Message c t)
    then obtain ss where ss: "sessions s c = Some ss" "live_socket s c" "polite_text t" using ok by auto
    then have ne: "c \<noteq> cid" using nl by blast
    have "userSessions s (userId ss) = Some c" if "authReady ss"
      using that inv ss unfolding polite_inv_def register_ok_def by (force simp: mail_def ident_def)
    then show ?thesis using Message ss ne spares_handleMessage [OF si ss(1) _ ne ss(3)]
      by (auto simp: on_message_def session_of_def intro: spares_upd_session)
  next
    case (SockClose c)
    then have ne: "c \<noteq> cid" using ok nl by auto
    let ?t = "upd_socket c (\<lambda>k. k\<lparr>sock_state := Closed\<rparr>) s"
    have "fresh_ok ?t" using f by (simp add: fresh_ok_def)
    then have "spares cid uid ?t (killPtyProcess u (KDelete u) ?t)" for u by (rule spares_kill) (simp add: is_command_def)
    moreover have "spares cid uid s ?t" by (rule spares_upd_socket) simp
    ultimately show ?thesis using SockClose spares_trans by (simp add: on_close_def handleClose_def)
  next
    case (SessionTimer tid)
    have "spares cid uid s (killPtyProcess u KIgnore (s\<lparr>server.timers := ti\<rparr>))" for u ti
      using f by (intro spares_trans [OF spares_basic(5) spares_kill]) (simp_all add: fresh_ok_def is_command_def)
    then show ?thesis using SessionTimer by (auto simp: on_session_timeout_def split: option.split)
  next
    case (SockError c)
    then show ?thesis using spares_kill [OF f, of KIgnore] by (simp add: on_error_def handleError_def is_command_def [of KIgnore])
  next
    case (Pong c)
    then show ?thesis by (auto simp: on_pong_def intro: spares_upd_socket)
  next
    case (KillTimer kid)
    then show ?thesis using spares_kill_check [OF f, of kid cid uid] cl by (auto simp: closed_conn_def)
  qed (auto simp: spares_heartbeat spares_pty_exit on_pty_data_def intro: spares_intros split: option.split)
qed

lemma closed_step:
  assumes inv: "polite_inv s" and ok: "polite_ok s e" and cl: "closed_conn cid uid pid s"
  shows "spares cid uid s (server_step s e)" "closed_conn cid uid pid (server_step s e)"
  using spares_react [OF assms] spares_closed [OF _ cl] polite_step_react [OF inv ok] by simp_all

lemma closed_run:
  "polite_inv s \<Longrightarrow> closed_conn cid uid pid s \<Longrightarrow> run_ok server_step polite_ok s es \<Longrightarrow>
     spares cid uid s (run_events server_step s es) \<and> closed_conn cid uid pid (run_events server_step s es)"
proof (induction es arbitrary: s)
  case (Cons e es)
  then have ok: "polite_ok s e" by simp
  from Cons.IH [of "server_step s e"] Cons.prems polite_step [OF Cons.prems(1) ok] closed_step [OF Cons.prems(1) ok Cons.prems(2)]
  show ?case using spares_trans by auto
qed simp

definition inactive :: "nat \<Rightarrow> server \<Rightarrow> bool" where
  "inactive cid s \<longleftrightarrow> (\<forall>ss. sessions s cid = Some ss \<longrightarrow> \<not> isActive ss)"

lemma spares_inactive: "spares cid uid s t \<Longrightarrow> sessions s cid \<noteq> None \<Longrightarrow> inactive cid s \<Longrightarrow> inactive cid t"
  unfolding spares_def inactive_def by (metis option.exhaust option.inject)

text \<open>The exit of the process ends the session's terminal, if it has not ended yet.\<close>

lemma exit_inactive:
  assumes inv: "polite_inv s" and cl: "closed_conn cid uid pid s" and ok: "polite_ok s (PtyExit pid)"
  shows "inactive cid (server_step s (PtyExit pid))"
proof -
  from cl obtain ss where ss: "sessions s cid = Some ss" "ptyProcess ss = Some pid" by (auto simp: closed_conn_def core_def)
  from ok obtain p where p: "ptys s pid = Some p" by (auto split: option.splits)
  have e: "server_step s (PtyExit pid) = on_pty_exit pid s" using polite_step_react [OF inv ok] by simp
  show ?thesis
  proof (cases "isActive ss")
    case True
    then have "pty_owner p = cid" using inv ss p unfolding polite_inv_def server_inv_def active_ok_def by fastforce
    then show ?thesis using p by (auto simp: e inactive_def on_pty_exit_def Let_def sessions_clear_timer split: if_splits)
  next
    case False
    then show ?thesis using spares_inactive [OF closed_step(1) [OF inv ok cl]] ss by (simp add: inactive_def)
  qed
qed

lemma exited_run:
  assumes "polite_inv s" "closed_conn cid uid pid s" "run_ok server_step polite_ok s es" "PtyExit pid \<in> set es"
  shows "inactive cid (run_events server_step s es)"
proof -
  from assms(4) obtain us vs where es: "es = us @ PtyExit pid # vs" by (meson split_list)
  let ?u = "run_events server_step s us"
  have ok: "run_ok server_step polite_ok s us" "polite_ok ?u (PtyExit pid)"
    "run_ok server_step polite_ok (server_step ?u (PtyExit pid)) vs"
    using assms(3) by (simp_all add: es run_ok_append)
  have u: "polite_inv ?u" "closed_conn cid uid pid ?u"
    using polite.run_inv [OF assms(1) ok(1)] closed_run [OF assms(1,2) ok(1)] by auto
  let ?v = "server_step ?u (PtyExit pid)"
  have v: "polite_inv ?v" "closed_conn cid uid pid ?v" using polite_step [OF u(1) ok(2)] closed_step(2) [OF u(1) ok(2) u(2)] by auto
  then have "sessions ?v cid \<noteq> None" by (auto simp: closed_conn_def)
  then show ?thesis
    using spares_inactive [OF conjunct1 [OF closed_run [OF v ok(3)]]] exit_inactive [OF u ok(2)]
    by (simp add: es run_events_append)
qed

section \<open>Result\<close>

lemma close_active:
  assumes ss: "sessions s cid = Some ss" "userSessions s (userId ss) = Some cid"
    and p: "ptyProcess ss = Some pid" "ptys s pid = Some p"
  shows "ptys (on_close cid s) = (ptys s)(pid \<mapsto> p\<lparr>pty_ops := pty_ops p @ [PWrite (JStr KILL_TEXT)]\<rparr>)"
    "kills (on_close cid s) = (kills s)(next_id s \<mapsto> \<lparr>kt_session = cid, kt_attempts = 1, kt_cont = KDelete (userId ss)\<rparr>)"
    "sessions (on_close cid s) = sessions s" "\<not> live_socket (on_close cid s) cid"
proof -
  show "ptys (on_close cid s) = (ptys s)(pid \<mapsto> p\<lparr>pty_ops := pty_ops p @ [PWrite (JStr KILL_TEXT)]\<rparr>)"
    "kills (on_close cid s) = (kills s)(next_id s \<mapsto> \<lparr>kt_session = cid, kt_attempts = 1, kt_cont = KDelete (userId ss)\<rparr>)"
    "sessions (on_close cid s) = sessions s"
    using assms by (simp_all add: on_close_def handleClose_def session_of_def killPtyProcess_def attemptKill_def Let_def pty_do_def fun_eq_iff)
  show "\<not> live_socket (on_close cid s) cid"
    using assms by (cases "sockets s cid")
      (simp_all add: on_close_def handleClose_def session_of_def killPtyProcess_def attemptKill_def Let_def live_socket_def upd_socket_def pty_do_def)
qed

text \<open>
  C14. Closing a connection ends its terminal, whatever else happens: among clients that keep to the protocol,
  let a connection with a running terminal be closed while no command of it waits for an older terminal to
  end, and let any events \<open>fs\<close> follow. The kill sequence is written to the process at the close; no other
  process is ever started for the connection; once the process has exited, its session has no terminal and
  never has one again; and at every moment the user is no longer registered, or a termination is
  pending that will unregister it.
\<close>

theorem closing_ends_terminal:
  assumes "run_ok server_step polite_ok server_init (es @ SockClose cid # fs)"
    and "s = run_events server_step server_init es" "u = run_events server_step s (SockClose cid # fs)"
    and "sessions s cid = Some ss" "isActive ss"
    and "\<And>kid k ws c. kills s kid = Some k \<Longrightarrow> kt_session k = cid \<Longrightarrow> kt_cont k \<noteq> KCommand ws c"
  shows "\<exists>pid p. ptyProcess ss = Some pid \<and> ptys s pid = Some p
    \<and> ptys (server_step s (SockClose cid)) pid = Some (p\<lparr>pty_ops := pty_ops p @ [PWrite (JStr KILL_TEXT)]\<rparr>)
    \<and> (\<forall>q r. ptys u q = Some r \<longrightarrow> pty_owner r = cid \<longrightarrow> ptys s q \<noteq> None)
    \<and> (PtyExit pid \<in> set fs \<longrightarrow> (\<exists>x. sessions u cid = Some x \<and> \<not> isActive x))
    \<and> (userSessions u (userId ss) = None \<or> (\<exists>kid k. kills u kid = Some k \<and> kt_cont k = KDelete (userId ss)))"
proof -
  have ok: "run_ok server_step polite_ok server_init es" "polite_ok s (SockClose cid)"
    "run_ok server_step polite_ok (server_step s (SockClose cid)) fs"
    using assms(1,2) by (simp_all add: run_ok_append)
  have i: "polite_inv s" using polite.run_inv [OF polite_init ok(1)] assms(2) by simp
  have live: "live_socket s cid" using ok(2) by simp
  obtain pid p where p: "userSessions s (userId ss) = Some cid" "ptyProcess ss = Some pid" "ptys s pid = Some p"
      "authReady ss"
    using active_registered [OF i assms(4,5) live] by blast
  let ?t = "server_step s (SockClose cid)" and ?uid = "userId ss"
  have t: "?t = on_close cid s" using polite_step_react [OF i ok(2)] by simp
  have it: "polite_inv ?t" using polite_step [OF i ok(2)] .
  note c = close_active [OF assms(4) p(1-3), folded t]
  have "\<not> awaitingIps ss" using i assms(4) p(4) unfolding polite_inv_def server_inv_def wait_ok_def by blast
  then have cl: "closed_conn cid ?uid pid ?t"
    using c assms(4,6) p(2,4)
    by (auto simp: closed_conn_def core_def ending_def is_command_def split: if_splits kill_cont.splits)
  note r = closed_run [OF it cl ok(3)]
  have u: "u = run_events server_step ?t fs" using assms(3) by simp
  have "ptys s q \<noteq> None" if "ptys u q = Some r'" "pty_owner r' = cid" for q r'
  proof -
    from r that have "ptys ?t q \<noteq> None" unfolding spares_def u by blast
    then show ?thesis using c(1) p(3) by (auto split: if_splits)
  qed
  moreover have "\<exists>x. sessions u cid = Some x \<and> \<not> isActive x" if "PtyExit pid \<in> set fs"
    using exited_run [OF it cl ok(3) that] r by (auto simp: u inactive_def closed_conn_def)
  moreover have "ending ?uid u" using r by (simp add: u closed_conn_def)
  ultimately show ?thesis using p(2,3) c(1) unfolding ending_def by auto
qed

theorem closing_ends_terminal_witness:
  "\<exists>x. sessions (run_events server_step sample_state3 [SockClose 0, Heartbeat [0], PtyExit 0]) 0 = Some x \<and> \<not> isActive x"
proof -
  let ?ss = "sample_session\<lparr>ptyProcess := Some 0, isActive := True, terminalSessionTimer := Some 1\<rparr>"
  let ?fs = "[Heartbeat [0], PtyExit 0]"
  have i: "polite_inv sample_state3" using polite.run_inv [OF polite_init sample_run_polite] by (simp add: sample_state3_def)
  have reg: "userSessions sample_state3 (userId ?ss) = Some 0" "live_socket sample_state3 0" "kills sample_state3 k = None" for k
    by (simp_all add: sample_state3_frame sample_state2_eq sample_session_def live_socket_def server_init_def)
  have ok1: "polite_ok sample_state3 (SockClose 0)" using sample_terminal(2) reg(2) by simp
  let ?t = "server_step sample_state3 (SockClose 0)"
  have t: "?t = on_close 0 sample_state3" using polite_step_react [OF i ok1] by simp
  have it: "polite_inv ?t" using polite_step [OF i ok1] .
  obtain q where q: "ptys ?t 0 = Some q" "pty_live q"
    using close_active(1) [OF sample_terminal(2) reg(1) _ sample_terminal(1)] by (simp add: t)
  have ok2: "polite_ok ?t (Heartbeat [0])" by simp
  have "ptys (server_step ?t (Heartbeat [0])) 0 = Some q"
    using polite_step_react [OF it ok2] q(1) by (simp add: on_heartbeat_def heartbeat_client_def split: option.split)
  with q(2) have ok3: "polite_ok (server_step ?t (Heartbeat [0])) (PtyExit 0)" by simp
  have "run_ok server_step polite_ok server_init (sample_run @ SockClose 0 # ?fs)"
    using sample_run_polite ok1 ok2 ok3 unfolding run_ok_append sample_state3_def [symmetric] by simp
  from closing_ends_terminal [OF this sample_state3_def refl sample_terminal(2)] reg(3)
  show ?thesis by (auto simp: sample_session_def)
qed

end
