(* ===== verification/Spec2Isabelle.thy ===== *)
theory Spec2Isabelle
  imports Server_Properties Session_Timer Livewire_Failure Marketing_Checkout Storefront_Client App_Page Bridge_Page
    Build_Config Wgsl_Language Emit_Generator Repo_Tests Terminal_System Client_Flow Server_Close
begin

text \<open>
  OnePloy is a self-hosted deployment platform: a Laravel application, a browser front end and a
  realtime container. This development models its JavaScript. The part that matters most is the web
  terminal: a browser opens a WebSocket to the realtime container, the container asks the Laravel
  application whether the browser may have a terminal and on which hosts, and then runs
  \<open>ssh\<close> in a pseudo-terminal with a command line the browser sent.

  \<^bold>\<open>Theories.\<close>

  \<^item> \<open>JS_Prelude\<close>: JavaScript strings and the regular expression shapes the sources
    use, decimal numerals, event machines; the locales \<open>invariant_machine\<close> (an invariant
    kept by every step holds after every run) and \<open>machine_refinement\<close>.
  \<^item> \<open>Json\<close>: \<open>JSON.parse\<close> and \<open>JSON.stringify\<close>, and that
    the first undoes the second. \<open>Js_Values\<close>: truthiness, property access,
    \<open>ToNumber\<close> on parsed values.
  \<^item> \<open>Terminal_Utils\<close>: every function of
    \<^verbatim>\<open>docker/coolify-realtime/terminal-utils.js\<close>. \<open>Ssh_Policy\<close>
    states what \<open>validateSshArgs\<close> is meant to accept as a predicate on items and proves
    that the loop decides it; its locale \<open>command_filter\<close> is the contract the server uses.
    \<open>Ssh_Parsing\<close> has the lemmas on splitting, quoting and here documents.
    \<open>Ssh_Properties\<close> has the results.
  \<^item> \<open>Terminal_Server\<close>:
    \<^verbatim>\<open>docker/coolify-realtime/terminal-server.js\<close> as an event machine: one
    definition per listener, handler and timer callback, the state a record of sessions, sockets,
    pseudo-terminals, pending terminations and timers. \<open>Server_Safety\<close> has its invariant,
    \<open>Server_Log\<close> the relation of the state to the events so far,
    \<open>Server_Properties\<close> the results and three runs that end badly.
    \<open>Server_Polite\<close> is about clients that keep to the message protocol: no run of such
    clients ends the server. \<open>Server_Origin\<close> traces every terminal to the message that
    asked for it. \<open>Server_Life\<close> has an automaton for the life of one connection, and that
    the server refines it; \<open>Server_Close\<close> what closing a connection does, whatever other
    events come between.
  \<^item> \<open>Session_Timer\<close>:
    \<^verbatim>\<open>resources/js/terminal-session-timer.js\<close>.
  \<^item> \<open>Livewire_Failure\<close>:
    \<^verbatim>\<open>resources/js/livewire-request-failure.js\<close>, the handler and the page events
    around it as a machine.
  \<^item> \<open>Marketing_Checkout\<close>:
    \<^verbatim>\<open>resources/js/oneploy-marketing-checkout.js\<close>.
  \<^item> \<open>Storefront_Client\<close>:
    \<^verbatim>\<open>packages/storefront/src/index.js\<close>.
  \<^item> \<open>App_Page\<close>: \<^verbatim>\<open>resources/js/app.js\<close>, the section scroller
    with its closures.
  \<^item> \<open>Domain_Bridge\<close>:
    \<^verbatim>\<open>wordpress-bridge/assets/oneploy-bridge.js\<close>, the domain search box of one
    form; \<open>Bridge_Page\<close>: finding the forms of a page and binding each of them once.
  \<^item> \<open>Terminal_Theme\<close>, \<open>Client_Layout\<close> and
    \<open>Terminal_Client\<close>: the browser's terminal component
    \<^verbatim>\<open>resources/js/terminal.js\<close>. The first has the colour themes and their
    choice, the second the full screen mode, the page's scroll lock and the space a software keyboard
    takes, the third the component as an event machine: the WebSocket with its reconnection, keep-alive,
    heartbeat and flow control, the countdown, keyboard input, resizing, visibility and clean-up.
    \<open>Client_Connection\<close> has the machine's invariant and the results on the connection,
    \<open>Client_Flow\<close> what the server was told about pausing its output,
    \<open>Client_Log\<close> what a component sends on each connection; its locale
    \<open>message_kind\<close> is the contract for a set of messages, interpreted for readable JSON and
    for the server's protocol.
  \<^item> \<open>Terminal_System\<close>: any number of terminal components and the server with the
    connections between them, as a step relation \<open>sys_step\<close> composed of the two machines,
    and the results about the whole.
  \<^item> \<open>Repo_Tests\<close>: the three test files the repository has for this code, evaluated
    on the model.
  \<^item> \<open>Build_Config\<close>: \<^verbatim>\<open>vite.config.js\<close>, the defaults of the
    development server's address.
  \<^item> Of the code editor the repository ships
    (\<^verbatim>\<open>public/js/monaco-editor-0.52.2\<close>) the files that are readable program
    text. \<open>Wgsl_Language\<close>: the word tables and lexical rules of
    \<^verbatim>\<open>wgsl.js\<close> and the tokenizer loop that runs them.
    \<open>Emit_Helpers\<close>, \<open>Emit_Control\<close> and \<open>Emit_Generator\<close>: the
    run-time helpers the TypeScript worker adds to compiled programs
    (\<^verbatim>\<open>tsWorker.js\<close>, lines 33--318): decorators, object and array helpers,
    classes, modules, private fields; disposal and asynchronous functions; generators, plain and
    asynchronous.

  \<^bold>\<open>How the code is modelled.\<close> Pure functions are HOL functions with the names of
  the source. Code driven by callbacks is a step function on a state record; an event is one callback,
  and a promise continuation that a callback releases runs in the same step, as it does before the next
  callback in Node and in browsers. Which events the environment can deliver in a state is a predicate
  (\<open>event_ok\<close> and its like); the results quantify over every run it allows. Exceptions are
  \<open>None\<close>, \<open>Inl\<close> or, where nobody catches them, the flag \<open>crashed\<close>
  of the server: at once for an exception in a callback, at the end of the callback for a promise that
  is rejected and not handled. Calls into libraries and the page are recorded in the state as lists of
  outputs.

  \<^bold>\<open>What is shown.\<close> Every process the terminal server ever starts runs an accepted,
  cleaned command line for hosts the backend named for that connection; a session is active exactly
  while its one process lives; messages are handled in order; each connection follows the five phases of
  its automaton, its hosts settled once, and closing it ends its terminal whatever else happens; the
  validation loop decides its policy; nothing in an accepted command line can be taken for another
  option. The terminal component has at most one connection that is open or opening, asks for its
  command again first on a new one, sends only messages the server reads back, never leaves the server
  paused once all output is written, and after full screen gives the page back but for its horizontal
  scroll position and one overflow style. Put together, the components never end the server, what a user
  does reaches it once and in order, and every process it runs was asked for by a command that the page
  linked to it has sent. For this the backend's commands are arrays that start with a string, the hosts
  it names are arrays of strings, and user ids are not drawn twice. Around the terminal: one toast per
  user gesture, and only for a request sent within two seconds of it, one script per page and every
  checkout answered with its own payment, a search query that reaches the backend as typed, no stale
  search result in a form, loops and retries that end. Of the editor: every line of WGSL is split into
  tokens without loss, resources are disposed in reverse order without losing an error (unless a
  disposal never settles, which leaves the older ones alone), and a compiled asynchronous function
  refines the meaning of its body.

  Nine theorems show behaviour that is not intended: a destination that hides from the host check, a
  message that ends the server, a terminal without a connection, a time limit that gives up, a script
  that is never loaded again, an overflow style that stays on the page after full screen, a heartbeat
  that never detects a dead connection, a connection timeout that counts two attempts to reconnect, and
  a page that reconnects after it was left.

  \<^bold>\<open>Bounds.\<close> \<open>json_parse\<close> runs with fuel one more than the length of
  the text, which \<open>parse_stringify\<close> shows to be enough for every text
  \<open>json_stringify\<close> writes. The loop of a compiled generator need not end and is a partial
  function into \<open>option\<close>; every other recursion is structural or has a termination proof.
  Characters are code units below 256, except in \<open>Storefront_Client\<close>, whose texts are lists
  of 16-bit code units; JSON numbers and times are exact.

  \<^bold>\<open>Not modelled.\<close> The PHP application, templates and styles; the libraries
  \<open>ws\<close>, \<open>node-pty\<close>, \<open>xterm\<close> and the browser, whose answers enter
  as events and arguments; the calls of the log functions, which do not change a state; the minified
  rest of the vendored editor, which is the output of a compiler and not this repository's program text.
\<close>

section \<open>Properties across components\<close>

text \<open>
  C21. The client speaks the server's protocol: every message a terminal component sends, in whatever run in
  which the page gives it commands of the protocol, is a message of the protocol; it has a JSON text, and the
  server's \<open>parseMessage\<close> reads that text back to the same message.
\<close>

theorem client_messages_understood:
  assumes "run_ok client_step (log_event_ok spoken) (start_client w a True o1 p) es"
    "Sent i m \<in> set (outs (run_events client_step (start_client w a True o1 p) es))"
  shows "protocol_message m \<and> (\<exists>text. json_stringify m = Some text \<and> parseMessage text = Some m)"
  using spoken_kind.sent_good [OF assms] parse_stringify by (auto simp: spoken_def readable_def parseMessage_def)

theorem client_messages_understood_witness:
  "\<exists>text. json_stringify (command_message sample_request) = Some text
     \<and> parseMessage text = Some (command_message sample_request)"
  using client_messages_understood [of sample_world True True sample_layout "sample_sending sample_request" 0
      "command_message sample_request"]
    sample_sending_run [of spoken, OF sample_spoken] unfolding sample_client_def by blast

end
